theory Spec2Isabelle
  imports Main "HOL-Library.Word"
begin

unbundle bit_operations_syntax

section \<open>Machine types and byte order\<close>

text \<open>
  The C integer types of \<^verbatim>\<open>fel.c\<close>. \<^verbatim>\<open>size_t\<close> is taken as on an LP64 host
  (64 bits); it only matters where the code does arithmetic in it
  (\<^verbatim>\<open>offset + len\<close> in \<^verbatim>\<open>aw_write_buffer\<close>). Lengths of buffers that are only
  compared or counted down are natural numbers.
\<close>

type_synonym u8 = "8 word"
type_synonym u16 = "16 word"
type_synonym u32 = "32 word"
type_synonym size_t = "64 word"

text \<open>
  \<^verbatim>\<open>htole32(x)\<close> stored to memory is the four bytes of \<open>x\<close>, lowest first, on
  any host; \<^verbatim>\<open>le32toh\<close> of four bytes read from memory is the inverse.
\<close>

definition htole32 :: "u32 \<Rightarrow> u8 list" where
  "htole32 w = [ucast w, ucast (drop_bit 8 w), ucast (drop_bit 16 w), ucast (drop_bit 24 w)]"

definition htole16 :: "u16 \<Rightarrow> u8 list" where
  "htole16 w = [ucast w, ucast (drop_bit 8 w)]"

definition le32toh :: "u8 \<Rightarrow> u8 \<Rightarrow> u8 \<Rightarrow> u8 \<Rightarrow> u32" where
  "le32toh b0 b1 b2 b3 =
     ucast b0 OR push_bit 8 (ucast b1) OR push_bit 16 (ucast b2) OR push_bit 24 (ucast b3)"

definition be32toh :: "u8 \<Rightarrow> u8 \<Rightarrow> u8 \<Rightarrow> u8 \<Rightarrow> u32" where
  "be32toh b0 b1 b2 b3 = le32toh b3 b2 b1 b0"

text \<open>A \<^verbatim>\<open>uint32_t\<close> array of host code, already passed through \<^verbatim>\<open>htole32\<close>, as bytes.\<close>

definition words_le :: "u32 list \<Rightarrow> u8 list" where
  "words_le ws = concat (map htole32 ws)"

text \<open>\<^verbatim>\<open>le32toh(buf32[i])\<close> for a byte buffer seen through \<^verbatim>\<open>uint32_t *buf32\<close>.\<close>

definition buf32 :: "u8 list \<Rightarrow> nat \<Rightarrow> u32" where
  "buf32 buf i = le32toh (buf ! (4 * i)) (buf ! (4 * i + 1)) (buf ! (4 * i + 2)) (buf ! (4 * i + 3))"

definition be_buf32 :: "u8 list \<Rightarrow> nat \<Rightarrow> u32" where
  "be_buf32 buf i = be32toh (buf ! (4 * i)) (buf ! (4 * i + 1)) (buf ! (4 * i + 2)) (buf ! (4 * i + 3))"

definition byte_of_char :: "char \<Rightarrow> u8" where
  "byte_of_char c = of_nat (of_char c)"

definition bytes_of :: "string \<Rightarrow> u8 list" where
  "bytes_of str = map byte_of_char str"

section \<open>SoC information\<close>

text \<open>
  Modelled from the spec: the records \<^verbatim>\<open>sram_swap_buffers\<close> and \<^verbatim>\<open>soc_info_t\<close>
  are declared in \<^verbatim>\<open>soc_info.h\<close>, which is not among the sources. The fields are the
  ones \<^verbatim>\<open>fel.c\<close> reads. \<open>swap_buffers\<close> is the C array as it lies in memory, the
  zero-size terminator included; \<open>None\<close> is the NULL pointer.
\<close>

record sram_swap_buffers =
  buf1 :: u32
  buf2 :: u32
  size :: u32

record soc_info =
  soc_id :: u32
  spl_addr :: u32
  scratch_addr :: u32
  thunk_addr :: u32
  thunk_size :: u32
  needs_l2en :: bool
  mmu_tt_addr :: u32
  sid_addr :: u32
  rvbar_reg :: u32
  swap_buffers :: "sram_swap_buffers list option"

section \<open>The host process and its environment\<close>

text \<open>
  One call of \<^verbatim>\<open>usb_bulk_send\<close> or \<^verbatim>\<open>usb_bulk_recv\<close> with a non-zero length is one
  entry of the trace (the chunks of its loop taken together): the bytes sent on the
  OUT endpoint, or the number of bytes received on the IN endpoint.
\<close>

datatype endpoint = AW_USB_FEL_BULK_EP_OUT | AW_USB_FEL_BULK_EP_IN

datatype usb_xfer = Bulk_out "u8 list" | Bulk_in nat

text \<open>
  What the program cannot decide is a parameter: whether the next libusb transfer
  fails, and which bytes the device answers, both as functions of the transfers so
  far (\<open>usb_in e h len i\<close> is byte \<open>i\<close> of the answer to a read of \<open>len\<close> bytes after
  the history \<open>h\<close>). \<^verbatim>\<open>get_soc_info_from_version\<close> (in \<^verbatim>\<open>soc_info.c\<close>) and the
  words of \<^verbatim>\<open>fel-to-spl-thunk.h\<close> are not among the sources and are parameters too;
  the resolver is given the 32 bytes of the version reply and yields a record (every
  caller dereferences the pointer). \<open>libusb_has_strerror\<close> is the build-time test
  \<^verbatim>\<open>LIBUSBX_API_VERSION >= 0x01000102\<close> of \<^verbatim>\<open>usb_error\<close>.
\<close>

record env =
  usb_fail :: "usb_xfer list \<Rightarrow> bool"
  usb_in :: "usb_xfer list \<Rightarrow> nat \<Rightarrow> nat \<Rightarrow> u8"
  get_soc_info_from_version :: "u8 list \<Rightarrow> soc_info"
  fel_to_spl_thunk :: "u32 list"
  libusb_has_strerror :: bool

text \<open>
  The mutable state of the process: the USB traffic so far, the lines written to
  stderr (format strings, arguments not rendered), the globals \<^verbatim>\<open>uboot_entry\<close> and
  \<^verbatim>\<open>uboot_size\<close>, and the static \<^verbatim>\<open>result\<close> of \<^verbatim>\<open>aw_fel_get_soc_info\<close>. Output
  of \<^verbatim>\<open>pr_info\<close> and \<^verbatim>\<open>printf\<close> to stdout is not modelled.
\<close>

record fel_state =
  usb_trace :: "usb_xfer list"
  stderr_out :: "string list"
  uboot_entry :: u32
  uboot_size :: u32
  soc_result :: "soc_info option"

text \<open>
  A call returns a value, or ends the process: \<^verbatim>\<open>exit(code)\<close>, or a failed
  \<^verbatim>\<open>assert\<close>.
\<close>

datatype 'a result = Returned 'a | Exited nat | Aborted

type_synonym 'a fel = "fel_state \<Rightarrow> fel_state \<times> 'a result"

definition ret :: "'a \<Rightarrow> 'a fel" where
  "ret x s = (s, Returned x)"

definition bnd :: "'a fel \<Rightarrow> ('a \<Rightarrow> 'b fel) \<Rightarrow> 'b fel" where
  "bnd m f s =
     (case m s of
        (s', Returned x) \<Rightarrow> f x s'
      | (s', Exited c) \<Rightarrow> (s', Exited c)
      | (s', Aborted) \<Rightarrow> (s', Aborted))"

definition thn :: "'a fel \<Rightarrow> 'b fel \<Rightarrow> 'b fel" where
  "thn m n = bnd m (\<lambda>_. n)"

definition fprintf_stderr :: "string \<Rightarrow> unit fel" where
  "fprintf_stderr msg s = (s\<lparr>stderr_out := stderr_out s @ [msg]\<rparr>, Returned ())"

definition exit_with :: "nat \<Rightarrow> 'a fel" where
  "exit_with code s = (s, Exited code)"

definition assert_fail :: "'a fel" where
  "assert_fail s = (s, Aborted)"

definition fatal :: "string \<Rightarrow> 'a fel" where
  "fatal msg = thn (fprintf_stderr msg) (exit_with 1)"

section \<open>USB transport\<close>

text \<open>
  \<^verbatim>\<open>usb_error\<close>, always called with a caption: the caption, then the error line of
  the build, then \<^verbatim>\<open>exit\<close> for a non-zero exit code.
\<close>

definition usb_error :: "env \<Rightarrow> string \<Rightarrow> nat \<Rightarrow> unit fel" where
  "usb_error e caption exitcode =
     thn (fprintf_stderr caption)
       (thn (fprintf_stderr (if libusb_has_strerror e then ''ERROR %d: %s'' else ''ERROR %d''))
          (if exitcode \<noteq> 0 then exit_with exitcode else ret ()))"

text \<open>
  \<^verbatim>\<open>usb_bulk_send\<close> and \<^verbatim>\<open>usb_bulk_recv\<close>: loop on \<^verbatim>\<open>libusb_bulk_transfer\<close> until
  \<open>len\<close> bytes are through; no transfer at all for a zero length; a non-zero return
  code is \<^verbatim>\<open>usb_error(rc, caption, 2)\<close>. The direction of a libusb transfer is that
  of its endpoint, and \<^verbatim>\<open>aw_usb_read\<close> does call \<^verbatim>\<open>usb_bulk_send\<close> on the IN
  endpoint; the value returned is the buffer after the call.
\<close>

definition libusb_bulk :: "env \<Rightarrow> string \<Rightarrow> endpoint \<Rightarrow> u8 list \<Rightarrow> nat \<Rightarrow> u8 list fel" where
  "libusb_bulk e caption ep data len s =
     (if len = 0 then (s, Returned data)
      else if usb_fail e (usb_trace s) then thn (usb_error e caption 2) (ret data) s
      else (case ep of
              AW_USB_FEL_BULK_EP_OUT \<Rightarrow>
                (s\<lparr>usb_trace := usb_trace s @ [Bulk_out (take len data)]\<rparr>, Returned data)
            | AW_USB_FEL_BULK_EP_IN \<Rightarrow>
                (s\<lparr>usb_trace := usb_trace s @ [Bulk_in len]\<rparr>,
                 Returned (map (usb_in e (usb_trace s) len) [0..<len]))))"

definition usb_bulk_send :: "env \<Rightarrow> endpoint \<Rightarrow> u8 list \<Rightarrow> nat \<Rightarrow> u8 list fel" where
  "usb_bulk_send e ep data len = libusb_bulk e ''usb_bulk_send()'' ep data len"

definition usb_bulk_recv :: "env \<Rightarrow> endpoint \<Rightarrow> u8 list \<Rightarrow> nat \<Rightarrow> u8 list fel" where
  "usb_bulk_recv e ep data len = libusb_bulk e ''usb_bulk_recv()'' ep data len"

section \<open>AW-USB framing\<close>

definition AW_USB_READ :: u16 where "AW_USB_READ = 0x11"
definition AW_USB_WRITE :: u16 where "AW_USB_WRITE = 0x12"

text \<open>
  \<^verbatim>\<open>struct aw_usb_request\<close>, packed, 32 bytes: \<^verbatim>\<open>signature[8]\<close> holding "AWUC" and
  zeros, \<^verbatim>\<open>length\<close>, \<^verbatim>\<open>unknown1\<close>, \<^verbatim>\<open>request\<close>, \<^verbatim>\<open>length2\<close> and ten bytes of padding.
  The length is the \<^verbatim>\<open>int\<close> parameter, 32 bits of the caller's \<^verbatim>\<open>size_t\<close>.
\<close>

definition aw_usb_request :: "u16 \<Rightarrow> nat \<Rightarrow> u8 list" where
  "aw_usb_request type len =
     bytes_of ''AWUC'' @ [0, 0, 0, 0] @ htole32 (of_nat len) @ htole32 0x0c000000
       @ htole16 type @ htole32 (of_nat len) @ [0, 0, 0, 0, 0, 0, 0, 0, 0, 0]"

definition aw_send_usb_request :: "env \<Rightarrow> u16 \<Rightarrow> nat \<Rightarrow> unit fel" where
  "aw_send_usb_request e type len =
     thn (usb_bulk_send e AW_USB_FEL_BULK_EP_OUT (aw_usb_request type len) 32) (ret ())"

text \<open>\<^verbatim>\<open>assert(strcmp(buf, "AWUS") == 0)\<close> on the 13 bytes read: "AWUS" and a NUL.\<close>

definition aw_read_usb_response :: "env \<Rightarrow> unit fel" where
  "aw_read_usb_response e =
     bnd (usb_bulk_recv e AW_USB_FEL_BULK_EP_IN (replicate 13 0) 13)
       (\<lambda>buf. if take 5 buf = bytes_of ''AWUS'' @ [0] then ret () else assert_fail)"

definition aw_usb_write :: "env \<Rightarrow> u8 list \<Rightarrow> nat \<Rightarrow> unit fel" where
  "aw_usb_write e data len =
     thn (aw_send_usb_request e AW_USB_WRITE len)
       (thn (usb_bulk_send e AW_USB_FEL_BULK_EP_OUT data len)
          (aw_read_usb_response e))"

definition aw_usb_read :: "env \<Rightarrow> u8 list \<Rightarrow> nat \<Rightarrow> u8 list fel" where
  "aw_usb_read e data len =
     thn (aw_send_usb_request e AW_USB_READ len)
       (bnd (usb_bulk_send e AW_USB_FEL_BULK_EP_IN data len)
          (\<lambda>buf. thn (aw_read_usb_response e) (ret buf)))"

section \<open>FEL commands\<close>

definition AW_FEL_VERSION :: u32 where "AW_FEL_VERSION = 0x001"
definition AW_FEL_1_WRITE :: u32 where "AW_FEL_1_WRITE = 0x101"
definition AW_FEL_1_EXEC :: u32 where "AW_FEL_1_EXEC = 0x102"
definition AW_FEL_1_READ :: u32 where "AW_FEL_1_READ = 0x103"

text \<open>\<^verbatim>\<open>struct aw_fel_request\<close>: request, address, length and a zero pad word.\<close>

definition aw_fel_request :: "u32 \<Rightarrow> u32 \<Rightarrow> u32 \<Rightarrow> u8 list" where
  "aw_fel_request type addr len = htole32 type @ htole32 addr @ htole32 len @ htole32 0"

definition aw_send_fel_request :: "env \<Rightarrow> u32 \<Rightarrow> u32 \<Rightarrow> u32 \<Rightarrow> unit fel" where
  "aw_send_fel_request e type addr len = aw_usb_write e (aw_fel_request type addr len) 16"

definition aw_read_fel_status :: "env \<Rightarrow> unit fel" where
  "aw_read_fel_status e = thn (aw_usb_read e (replicate 8 0) 8) (ret ())"

text \<open>
  \<^verbatim>\<open>aw_fel_get_version\<close>: the reply is \<^verbatim>\<open>sizeof(struct aw_fel_version)\<close> = 32 bytes
  (the struct is declared in \<^verbatim>\<open>soc_info.h\<close>; the size is the spec's). The model
  returns the raw reply; the field conversions feed only the resolver and the
  printed line.
\<close>

definition aw_fel_get_version :: "env \<Rightarrow> u8 list fel" where
  "aw_fel_get_version e =
     thn (aw_send_fel_request e AW_FEL_VERSION 0 0)
       (bnd (aw_usb_read e (replicate 32 0) 32)
          (\<lambda>buf. thn (aw_read_fel_status e) (ret buf)))"

definition aw_fel_read :: "env \<Rightarrow> u32 \<Rightarrow> nat \<Rightarrow> u8 list fel" where
  "aw_fel_read e offset len =
     thn (aw_send_fel_request e AW_FEL_1_READ offset (of_nat len))
       (bnd (aw_usb_read e (replicate len 0) len)
          (\<lambda>buf. thn (aw_read_fel_status e) (ret buf)))"

definition aw_fel_write :: "env \<Rightarrow> u8 list \<Rightarrow> u32 \<Rightarrow> nat \<Rightarrow> unit fel" where
  "aw_fel_write e buf offset len =
     thn (aw_send_fel_request e AW_FEL_1_WRITE offset (of_nat len))
       (thn (aw_usb_write e buf len)
          (aw_read_fel_status e))"

definition aw_fel_execute :: "env \<Rightarrow> u32 \<Rightarrow> unit fel" where
  "aw_fel_execute e offset =
     thn (aw_send_fel_request e AW_FEL_1_EXEC offset 0)
       (aw_read_fel_status e)"

text \<open>
  \<^verbatim>\<open>aw_write_buffer\<close>. The guard is the C condition: \<^verbatim>\<open>uboot_entry + uboot_size\<close> is
  a 32-bit sum, \<^verbatim>\<open>offset + len\<close> a \<^verbatim>\<open>size_t\<close> one. The elapsed time returned is not
  modelled.
\<close>

definition overwrites_uboot :: "fel_state \<Rightarrow> u32 \<Rightarrow> size_t \<Rightarrow> bool" where
  "overwrites_uboot s offset len \<longleftrightarrow>
     uboot_size s > 0 \<and> offset \<le> uboot_entry s + uboot_size s
       \<and> ucast offset + len \<ge> (ucast (uboot_entry s) :: size_t)"

definition aw_write_buffer :: "env \<Rightarrow> u8 list \<Rightarrow> u32 \<Rightarrow> size_t \<Rightarrow> unit fel" where
  "aw_write_buffer e buf offset len s =
     (if overwrites_uboot s offset len
      then fatal ''ERROR: Attempt to overwrite U-Boot! Request 0x%08X-0x%08X overlaps 0x%08X-0x%08X.'' s
      else thn (aw_send_fel_request e AW_FEL_1_WRITE offset (ucast len))
             (thn (aw_usb_write e buf (unat len))
                (aw_read_fel_status e)) s)"

text \<open>
  \<^verbatim>\<open>aw_fel_get_soc_info\<close>: the version is asked once, the answer kept in the
  static \<^verbatim>\<open>result\<close>.
\<close>

definition aw_fel_get_soc_info :: "env \<Rightarrow> soc_info fel" where
  "aw_fel_get_soc_info e s =
     (case soc_result s of
        Some r \<Rightarrow> (s, Returned r)
      | None \<Rightarrow>
          bnd (aw_fel_get_version e)
            (\<lambda>buf s'. (s'\<lparr>soc_result := Some (get_soc_info_from_version e buf)\<rparr>,
                       Returned (get_soc_info_from_version e buf))) s)"

section \<open>ARM thunks: coprocessor registers\<close>

definition mrc_opcode :: "u32 \<Rightarrow> u32 \<Rightarrow> u32 \<Rightarrow> u32 \<Rightarrow> u32 \<Rightarrow> u32" where
  "mrc_opcode coproc opc1 crn crm opc2 =
     0xEE000000 OR push_bit 20 1 OR push_bit 4 1 OR push_bit 21 (opc1 AND 7)
       OR push_bit 16 (crn AND 15) OR push_bit 8 (coproc AND 15)
       OR push_bit 5 (opc2 AND 7) OR (crm AND 15)"

definition mcr_opcode :: "u32 \<Rightarrow> u32 \<Rightarrow> u32 \<Rightarrow> u32 \<Rightarrow> u32 \<Rightarrow> u32" where
  "mcr_opcode coproc opc1 crn crm opc2 =
     0xEE000000 OR push_bit 20 0 OR push_bit 4 1 OR push_bit 21 (opc1 AND 7)
       OR push_bit 16 (crn AND 15) OR push_bit 8 (coproc AND 15)
       OR push_bit 5 (opc2 AND 7) OR (crm AND 15)"

definition aw_read_arm_cp_reg ::
  "env \<Rightarrow> soc_info \<Rightarrow> u32 \<Rightarrow> u32 \<Rightarrow> u32 \<Rightarrow> u32 \<Rightarrow> u32 \<Rightarrow> u32 fel" where
  "aw_read_arm_cp_reg e soc coproc opc1 crn crm opc2 =
     thn (aw_fel_write e
            (words_le [mrc_opcode coproc opc1 crn crm opc2, 0xe58f0000, 0xe12fff1e])
            (scratch_addr soc) 12)
       (thn (aw_fel_execute e (scratch_addr soc))
          (bnd (aw_fel_read e (scratch_addr soc + 12) 4)
             (\<lambda>val. ret (buf32 val 0))))"

definition aw_write_arm_cp_reg ::
  "env \<Rightarrow> soc_info \<Rightarrow> u32 \<Rightarrow> u32 \<Rightarrow> u32 \<Rightarrow> u32 \<Rightarrow> u32 \<Rightarrow> u32 \<Rightarrow> unit fel" where
  "aw_write_arm_cp_reg e soc coproc opc1 crn crm opc2 val =
     thn (aw_fel_write e
            (words_le [0xe59f000c, mcr_opcode coproc opc1 crn crm opc2, 0xf57ff04f,
                       0xf57ff06f, 0xe12fff1e, val])
            (scratch_addr soc) 24)
       (aw_fel_execute e (scratch_addr soc))"

definition aw_get_ttbr0 :: "env \<Rightarrow> soc_info \<Rightarrow> u32 fel" where
  "aw_get_ttbr0 e soc = aw_read_arm_cp_reg e soc 15 0 2 0 0"

definition aw_get_ttbcr :: "env \<Rightarrow> soc_info \<Rightarrow> u32 fel" where
  "aw_get_ttbcr e soc = aw_read_arm_cp_reg e soc 15 0 2 0 2"

definition aw_get_dacr :: "env \<Rightarrow> soc_info \<Rightarrow> u32 fel" where
  "aw_get_dacr e soc = aw_read_arm_cp_reg e soc 15 0 3 0 0"

definition aw_get_sctlr :: "env \<Rightarrow> soc_info \<Rightarrow> u32 fel" where
  "aw_get_sctlr e soc = aw_read_arm_cp_reg e soc 15 0 1 0 0"

definition aw_set_ttbr0 :: "env \<Rightarrow> soc_info \<Rightarrow> u32 \<Rightarrow> unit fel" where
  "aw_set_ttbr0 e soc ttbr0 = aw_write_arm_cp_reg e soc 15 0 2 0 0 ttbr0"

definition aw_set_ttbcr :: "env \<Rightarrow> soc_info \<Rightarrow> u32 \<Rightarrow> unit fel" where
  "aw_set_ttbcr e soc ttbcr = aw_write_arm_cp_reg e soc 15 0 2 0 2 ttbcr"

definition aw_set_dacr :: "env \<Rightarrow> soc_info \<Rightarrow> u32 \<Rightarrow> unit fel" where
  "aw_set_dacr e soc dacr = aw_write_arm_cp_reg e soc 15 0 3 0 0 dacr"

section \<open>ARM thunks: readl and writel\<close>

definition LCODE_ARM_WORDS :: nat where "LCODE_ARM_WORDS = 12"
definition LCODE_ARM_SIZE :: nat where "LCODE_ARM_SIZE = LCODE_ARM_WORDS * 4"
definition LCODE_MAX_TOTAL :: nat where "LCODE_MAX_TOTAL = 0x100"
definition LCODE_MAX_WORDS :: nat where "LCODE_MAX_WORDS = LCODE_MAX_TOTAL - LCODE_ARM_WORDS"

text \<open>The twelve words of the read loop; \<open>addr\<close> and \<open>count\<close> are the last two.\<close>

definition readl_arm_code :: "u32 \<Rightarrow> nat \<Rightarrow> u32 list" where
  "readl_arm_code addr count =
     [0xe59f0020, 0xe28f1024, 0xe59f201c,
      0xe3520000 + of_nat LCODE_MAX_WORDS, 0xc3a02000 + of_nat LCODE_MAX_WORDS,
      0xe2522001, 0x412fff1e, 0xe4903004, 0xe4813004, 0xeafffffa,
      addr, of_nat count]"

definition writel_arm_code :: "u32 \<Rightarrow> nat \<Rightarrow> u32 list" where
  "writel_arm_code addr count =
     [0xe59f0020, 0xe28f1024, 0xe59f201c,
      0xe3520000 + of_nat LCODE_MAX_WORDS, 0xc3a02000 + of_nat LCODE_MAX_WORDS,
      0xe2522001, 0x412fff1e, 0xe4913004, 0xe4803004, 0xeafffffa,
      addr, of_nat count]"

text \<open>
  \<^verbatim>\<open>aw_fel_readl_n\<close>. The value returned is what the call stores through \<^verbatim>\<open>dst\<close>:
  one word per (possibly truncated) count.
\<close>

definition aw_fel_readl_n :: "env \<Rightarrow> u32 \<Rightarrow> nat \<Rightarrow> u32 list fel" where
  "aw_fel_readl_n e addr count =
     (if count = 0 then ret []
      else
        bnd (if count > LCODE_MAX_WORDS
             then thn (fprintf_stderr
                         ''ERROR: Max. word count exceeded, truncating aw_fel_readl_n() transfer'')
                    (ret LCODE_MAX_WORDS)
             else ret count)
          (\<lambda>count.
             bnd (aw_fel_get_soc_info e)
               (\<lambda>soc.
                  if \<not> LCODE_MAX_WORDS < 256 then assert_fail
                  else if length (readl_arm_code addr count) * 4 \<noteq> LCODE_ARM_SIZE then assert_fail
                  else
                    thn (aw_fel_write e (words_le (readl_arm_code addr count)) (scratch_addr soc)
                           (length (readl_arm_code addr count) * 4))
                      (thn (aw_fel_execute e (scratch_addr soc))
                         (bnd (aw_fel_read e (scratch_addr soc + of_nat LCODE_ARM_SIZE) (count * 4))
                            (\<lambda>buffer. ret (map (buf32 buffer) [0..<count])))))))"

definition aw_fel_readl :: "env \<Rightarrow> u32 \<Rightarrow> u32 fel" where
  "aw_fel_readl e addr = bnd (aw_fel_readl_n e addr 1) (\<lambda>val. ret (val ! 0))"

text \<open>
  \<^verbatim>\<open>fel_readl_n\<close>: the \<^verbatim>\<open>while (count > 0)\<close> loop. The words stored through the
  advancing \<^verbatim>\<open>dst\<close> are returned in order.
\<close>

function fel_readl_n :: "env \<Rightarrow> u32 \<Rightarrow> nat \<Rightarrow> u32 list fel" where
  "fel_readl_n e addr count s =
     (if count > 0 then
        (let n = (if count > LCODE_MAX_WORDS then LCODE_MAX_WORDS else count) in
           case aw_fel_readl_n e addr n s of
             (s', Returned vals) \<Rightarrow>
               (case fel_readl_n e (addr + of_nat (n * 4)) (count - n) s' of
                  (s'', Returned rest) \<Rightarrow> (s'', Returned (vals @ rest))
                | (s'', Exited c) \<Rightarrow> (s'', Exited c)
                | (s'', Aborted) \<Rightarrow> (s'', Aborted))
           | (s', Exited c) \<Rightarrow> (s', Exited c)
           | (s', Aborted) \<Rightarrow> (s', Aborted))
      else (s, Returned []))"
  by pat_completeness auto
termination
  by (relation "measure (\<lambda>(e, addr, count, s). count)") (auto simp: LCODE_MAX_WORDS_def LCODE_MAX_TOTAL_def LCODE_ARM_WORDS_def)

text \<open>
  \<^verbatim>\<open>aw_fel_writel_n\<close>. The source pointer is the memory it points to, by index.
  \<^verbatim>\<open>arm_code\<close> is the array of \<^verbatim>\<open>LCODE_MAX_TOTAL\<close> words, the part not initialised
  zero, into which the loop copies the values.
\<close>

definition aw_fel_writel_n :: "env \<Rightarrow> u32 \<Rightarrow> (nat \<Rightarrow> u32) \<Rightarrow> nat \<Rightarrow> unit fel" where
  "aw_fel_writel_n e addr src count =
     (if count = 0 then ret ()
      else
        bnd (if count > LCODE_MAX_WORDS
             then thn (fprintf_stderr
                         ''ERROR: Max. word count exceeded, truncating aw_fel_writel_n() transfer'')
                    (ret LCODE_MAX_WORDS)
             else ret count)
          (\<lambda>count.
             bnd (aw_fel_get_soc_info e)
               (\<lambda>soc.
                  if \<not> LCODE_MAX_WORDS < 256 then assert_fail
                  else
                    (let arm_code = writel_arm_code addr count
                                      @ replicate (LCODE_MAX_TOTAL - LCODE_ARM_WORDS) 0;
                         arm_code = fold (\<lambda>i a. a[LCODE_ARM_WORDS + i := src i]) [0..<count] arm_code
                     in thn (aw_fel_write e (words_le arm_code) (scratch_addr soc)
                               ((LCODE_ARM_WORDS + count) * 4))
                          (aw_fel_execute e (scratch_addr soc))))))"

definition aw_fel_writel :: "env \<Rightarrow> u32 \<Rightarrow> u32 \<Rightarrow> unit fel" where
  "aw_fel_writel e addr val = aw_fel_writel_n e addr (\<lambda>_. val) 1"

function fel_writel_n :: "env \<Rightarrow> u32 \<Rightarrow> (nat \<Rightarrow> u32) \<Rightarrow> nat \<Rightarrow> unit fel" where
  "fel_writel_n e addr src count s =
     (if count > 0 then
        (let n = (if count > LCODE_MAX_WORDS then LCODE_MAX_WORDS else count) in
           case aw_fel_writel_n e addr src n s of
             (s', Returned u) \<Rightarrow>
               fel_writel_n e (addr + of_nat (n * 4)) (\<lambda>i. src (n + i)) (count - n) s'
           | (s', Exited c) \<Rightarrow> (s', Exited c)
           | (s', Aborted) \<Rightarrow> (s', Aborted))
      else (s, Returned ()))"
  by pat_completeness auto
termination
  by (relation "measure (\<lambda>(e, addr, src, count, s). count)") (auto simp: LCODE_MAX_WORDS_def LCODE_MAX_TOTAL_def LCODE_ARM_WORDS_def)

section \<open>L2 cache and stack pointers\<close>

definition aw_enable_l2_cache :: "env \<Rightarrow> soc_info \<Rightarrow> unit fel" where
  "aw_enable_l2_cache e soc =
     thn (aw_fel_write e (words_le [0xee112f30, 0xe3822002, 0xee012f30, 0xe12fff1e])
            (scratch_addr soc) 16)
       (aw_fel_execute e (scratch_addr soc))"

text \<open>\<^verbatim>\<open>aw_get_stackinfo\<close> (the variant compiled in): the pair is \<open>(sp_irq, sp)\<close>.\<close>

definition aw_get_stackinfo :: "env \<Rightarrow> soc_info \<Rightarrow> (u32 \<times> u32) fel" where
  "aw_get_stackinfo e soc =
     thn (aw_fel_write e
            (words_le [0xe10f0000, 0xe3c0101f, 0xe3811012, 0xe121f001, 0xe1a0100d,
                       0xe121f000, 0xe58f1004, 0xe58fd004, 0xe12fff1e])
            (scratch_addr soc) 36)
       (thn (aw_fel_execute e (scratch_addr soc))
          (bnd (aw_fel_read e (scratch_addr soc + 0x24) 8)
             (\<lambda>results. ret (buf32 results 0, buf32 results 1))))"

section \<open>MMU translation table\<close>

text \<open>
  \<^verbatim>\<open>aw_generate_mmu_translation_table\<close>: the loop fills the 4096 entries, then the
  first and the last get bit 12.
\<close>

definition aw_generate_mmu_translation_table :: "u32 list" where
  "aw_generate_mmu_translation_table =
     (let tt = map (\<lambda>i. 0x00000DE2 OR push_bit 20 (of_nat i)) [0..<4096];
          tt = tt[0x000 := tt ! 0x000 OR 0x1000];
          tt = tt[0xFFF := tt ! 0xFFF OR 0x1000]
      in tt)"

text \<open>
  The sanity loop of \<^verbatim>\<open>aw_backup_and_disable_mmu\<close> over the indices it is given:
  the message of the first failing test, or \<open>None\<close> when every entry passes.
\<close>

primrec mmu_tt_check :: "u32 list \<Rightarrow> nat list \<Rightarrow> string option" where
  "mmu_tt_check tt [] = None"
| "mmu_tt_check tt (i # rest) =
     (if (drop_bit 1 (tt ! i) AND 1) \<noteq> 1 \<or> (drop_bit 18 (tt ! i) AND 1) \<noteq> 0
      then Some ''MMU: not a section descriptor''
      else if drop_bit 20 (tt ! i) \<noteq> of_nat i
      then Some ''MMU: not a direct mapping''
      else mmu_tt_check tt rest)"

definition aw_backup_and_disable_mmu :: "env \<Rightarrow> soc_info \<Rightarrow> u32 list option fel" where
  "aw_backup_and_disable_mmu e soc =
     bnd (aw_get_sctlr e soc)
       (\<lambda>sctlr.
          if (sctlr AND NOT (push_bit 11 0x7 OR push_bit 6 1 OR 1)) \<noteq> 0x00C50038
          then fatal ''Unexpected SCTLR (%08X)''
          else if sctlr AND 1 = 0 then ret None
          else
            bnd (aw_get_dacr e soc)
              (\<lambda>dacr.
                 if dacr \<noteq> 0x55555555 then fatal ''Unexpected DACR (%08X)''
                 else
                   bnd (aw_get_ttbcr e soc)
                     (\<lambda>ttbcr.
                        if ttbcr \<noteq> 0x00000000 then fatal ''Unexpected TTBCR (%08X)''
                        else
                          bnd (aw_get_ttbr0 e soc)
                            (\<lambda>ttbr0.
                               if ttbr0 AND 0x3FFF \<noteq> 0 then fatal ''Unexpected TTBR0 (%08X)''
                               else
                                 bnd (aw_fel_read e ttbr0 (16 * 1024))
                                   (\<lambda>raw.
                                      let tt = map (buf32 raw) [0..<4096] in
                                        case mmu_tt_check tt [0..<4096] of
                                          Some msg \<Rightarrow> fatal msg
                                        | None \<Rightarrow>
                                            thn (aw_fel_write e
                                                   (words_le [0xee110f10, 0xe3c00001, 0xe3c00a01,
                                                              0xe3c00b02, 0xee010f10, 0xe12fff1e])
                                                   (scratch_addr soc) 24)
                                              (thn (aw_fel_execute e (scratch_addr soc))
                                                 (ret (Some tt))))))))"

definition DRAM_BASE :: u32 where "DRAM_BASE = 0x40000000"
definition DRAM_SIZE :: u32 where "DRAM_SIZE = 0x80000000"

text \<open>
  The two rewrites of \<^verbatim>\<open>aw_restore_and_enable_mmu\<close> on the table, before it is
  converted to little-endian and uploaded: the loop over the DRAM sections, then the
  BROM section.
\<close>

definition TEXCB_MASK :: u32 where
  "TEXCB_MASK = push_bit 12 7 OR push_bit 3 1 OR push_bit 2 1"

definition mmu_tt_set_dram :: "u32 list \<Rightarrow> u32 list" where
  "mmu_tt_set_dram tt =
     fold (\<lambda>i t. let t = t[i := t ! i AND NOT TEXCB_MASK] in t[i := t ! i OR push_bit 12 1])
       [unat (drop_bit 20 DRAM_BASE) ..< unat (drop_bit 20 (DRAM_BASE + DRAM_SIZE))] tt"

definition mmu_tt_set_brom :: "u32 list \<Rightarrow> u32 list" where
  "mmu_tt_set_brom tt =
     (let t = tt[0xFFF := tt ! 0xFFF AND NOT TEXCB_MASK]
      in t[0xFFF := t ! 0xFFF OR (push_bit 12 1 OR push_bit 3 1 OR push_bit 2 1)])"

definition aw_restore_and_enable_mmu :: "env \<Rightarrow> soc_info \<Rightarrow> u32 list \<Rightarrow> unit fel" where
  "aw_restore_and_enable_mmu e soc tt =
     bnd (aw_get_ttbr0 e soc)
       (\<lambda>ttbr0.
          let tt = mmu_tt_set_dram tt;
              tt = mmu_tt_set_brom tt
          in thn (aw_fel_write e (words_le tt) ttbr0 (16 * 1024))
               (thn (aw_fel_write e
                       (words_le [0xe3a00000, 0xee080f17, 0xee070f15, 0xee070fd5, 0xf57ff04f,
                                  0xf57ff06f, 0xee110f10, 0xe3800001, 0xe3800a01, 0xe3800b02,
                                  0xee010f10, 0xe12fff1e])
                       (scratch_addr soc) 48)
                  (aw_fel_execute e (scratch_addr soc))))"

section \<open>SPL upload\<close>

definition SPL_LEN_LIMIT :: u32 where "SPL_LEN_LIMIT = 0x8000"

text \<open>
  The MMU step of \<^verbatim>\<open>aw_fel_write_and_execute_spl\<close>: back the table up, or, when the
  BROM left the MMU off and the SoC has \<^verbatim>\<open>mmu_tt_addr\<close>, set the registers and
  generate a table.
\<close>

definition spl_prepare_mmu :: "env \<Rightarrow> soc_info \<Rightarrow> u32 list option fel" where
  "spl_prepare_mmu e soc =
     bnd (aw_backup_and_disable_mmu e soc)
       (\<lambda>tt.
          if tt = None \<and> mmu_tt_addr soc \<noteq> 0 then
            (if mmu_tt_addr soc AND 0x3FFF \<noteq> 0
             then fatal ''SPL: mmu_tt_addr must be 16K aligned''
             else
               thn (aw_set_dacr e soc 0x55555555)
                 (thn (aw_set_ttbcr e soc 0x00000000)
                    (thn (aw_set_ttbr0 e soc (mmu_tt_addr soc))
                       (ret (Some aw_generate_mmu_translation_table)))))
          else ret tt)"

text \<open>
  The variables the upload loop carries: the index \<open>i\<close>, \<^verbatim>\<open>spl_len_limit\<close>,
  \<^verbatim>\<open>cur_addr\<close>, and the rest of the buffer (\<^verbatim>\<open>buf\<close> advanced, \<^verbatim>\<open>len\<close> bytes of it
  left).
\<close>

record spl_cursor =
  swap_index :: nat
  spl_len_limit :: u32
  cur_addr :: u32
  rest_buf :: "u8 list"
  rest_len :: nat

text \<open>One pass of the loop body for the entry \<open>sw\<close>.\<close>

definition spl_swap_step :: "env \<Rightarrow> soc_info \<Rightarrow> sram_swap_buffers \<Rightarrow> spl_cursor \<Rightarrow> spl_cursor fel" where
  "spl_swap_step e soc sw c =
     (let c = (if buf2 sw \<ge> spl_addr soc \<and> buf2 sw < spl_addr soc + spl_len_limit c
               then c\<lparr>spl_len_limit := buf2 sw - spl_addr soc\<rparr> else c)
      in
        bnd (if rest_len c > 0 \<and> cur_addr c < buf1 sw then
               (let tmp = unat (buf1 sw - cur_addr c);
                    tmp = (if tmp > rest_len c then rest_len c else tmp)
                in thn (aw_fel_write e (rest_buf c) (cur_addr c) tmp)
                     (ret (c\<lparr>cur_addr := cur_addr c + of_nat tmp,
                               rest_buf := drop tmp (rest_buf c),
                               rest_len := rest_len c - tmp\<rparr>)))
             else ret c)
          (\<lambda>c.
             if rest_len c > 0 \<and> cur_addr c = buf1 sw then
               (let tmp = unat (size sw);
                    tmp = (if tmp > rest_len c then rest_len c else tmp)
                in thn (aw_fel_write e (rest_buf c) (buf2 sw) tmp)
                     (ret (c\<lparr>cur_addr := cur_addr c + of_nat tmp,
                               rest_buf := drop tmp (rest_buf c),
                               rest_len := rest_len c - tmp\<rparr>)))
             else ret c))"

text \<open>
  \<^verbatim>\<open>for (i = 0; swap_buffers[i].size; i++)\<close> over the array from index \<open>i\<close> on. A
  well-formed array ends with its zero-size entry; the end of the list is read as
  that entry.
\<close>

fun spl_swap_loop :: "env \<Rightarrow> soc_info \<Rightarrow> sram_swap_buffers list \<Rightarrow> spl_cursor \<Rightarrow> spl_cursor fel" where
  "spl_swap_loop e soc [] c = ret c"
| "spl_swap_loop e soc (sw # rest) c =
     (if size sw = 0 then ret c
      else bnd (spl_swap_step e soc sw c)
             (\<lambda>c. spl_swap_loop e soc rest (c\<lparr>swap_index := swap_index c + 1\<rparr>)))"

text \<open>
  The upload of the image: the loop, the size limit, and the remaining part. It
  returns the index at which the loop ended.
\<close>

definition spl_write_image :: "env \<Rightarrow> soc_info \<Rightarrow> sram_swap_buffers list \<Rightarrow> u32 \<Rightarrow> u8 list \<Rightarrow> nat fel" where
  "spl_write_image e soc swaps spl_len buf =
     bnd (spl_swap_loop e soc swaps
            \<lparr>swap_index = 0, spl_len_limit = SPL_LEN_LIMIT, cur_addr = spl_addr soc,
             rest_buf = buf, rest_len = unat spl_len\<rparr>)
       (\<lambda>c.
          let limit = (if thunk_addr soc < spl_len_limit c then thunk_addr soc
                       else spl_len_limit c)
          in if spl_len > limit then fatal ''SPL: too large (need %d, have %d)''
             else thn (if rest_len c > 0 then aw_fel_write e (rest_buf c) (cur_addr c) (rest_len c)
                       else ret ())
                    (ret (swap_index c)))"

text \<open>The checksum loop: \<^verbatim>\<open>spl_checksum -= le32toh(buf32[i])\<close> for \<open>i < len / 4\<close>.\<close>

definition spl_checksum_loop :: "u8 list \<Rightarrow> nat \<Rightarrow> u32 \<Rightarrow> u32" where
  "spl_checksum_loop buf len spl_checksum =
     fold (\<lambda>i c. c - buf32 buf i) [0..<len div 4] spl_checksum"

text \<open>
  The thunk: the words of \<^verbatim>\<open>fel_to_spl_thunk\<close>, \<^verbatim>\<open>spl_addr\<close>, and the first
  \<open>i + 1\<close> entries of the swap array, three words each.
\<close>

definition spl_thunk_buf :: "env \<Rightarrow> soc_info \<Rightarrow> sram_swap_buffers list \<Rightarrow> nat \<Rightarrow> u32 list" where
  "spl_thunk_buf e soc swaps i =
     fel_to_spl_thunk e @ [spl_addr soc]
       @ concat (map (\<lambda>sw. [buf1 sw, buf2 sw, size sw]) (take (i + 1) swaps))"

text \<open>
  The part of \<^verbatim>\<open>aw_fel_write_and_execute_spl\<close> after the upload of the image, for the
  table \<open>tt\<close> of the MMU step and the index \<open>i\<close> at which the swap loop ended: the
  upload of the thunk and its execution, the signature check, and the MMU again.
  The 250 ms sleep is not modelled (\<open>thunk_sz\<close> is the local \<^verbatim>\<open>thunk_size\<close>).
\<close>

definition spl_run_thunk ::
  "env \<Rightarrow> soc_info \<Rightarrow> sram_swap_buffers list \<Rightarrow> u32 list option \<Rightarrow> nat \<Rightarrow> unit fel" where
  "spl_run_thunk e soc swaps tt i =
     (let thunk_sz = length (fel_to_spl_thunk e) * 4 + 4 + (i + 1) * 12
      in if thunk_sz > unat (thunk_size soc)
         then fatal ''SPL: bad thunk size (need %d, have %d)''
         else
           thn (aw_fel_write e (words_le (spl_thunk_buf e soc swaps i))
                  (thunk_addr soc) thunk_sz)
             (thn (aw_fel_execute e (thunk_addr soc))
                (bnd (aw_fel_read e (spl_addr soc + 4) 8)
                   (\<lambda>header_signature.
                      if header_signature \<noteq> bytes_of ''eGON.FEL''
                      then fatal ''SPL: failure code %s''
                      else (case tt of
                              Some t \<Rightarrow> aw_restore_and_enable_mmu e soc t
                            | None \<Rightarrow> ret ())))))"

text \<open>
  The part of \<^verbatim>\<open>aw_fel_write_and_execute_spl\<close> after the header checks: L2 cache,
  stack pointers, MMU, the upload of the image, and the rest.
\<close>

definition spl_upload_and_run ::
  "env \<Rightarrow> soc_info \<Rightarrow> sram_swap_buffers list \<Rightarrow> u32 \<Rightarrow> u8 list \<Rightarrow> unit fel" where
  "spl_upload_and_run e soc swaps spl_len buf =
     thn (if needs_l2en soc then aw_enable_l2_cache e soc else ret ())
       (thn (aw_get_stackinfo e soc)
          (bnd (spl_prepare_mmu e soc)
             (\<lambda>tt.
                bnd (spl_write_image e soc swaps spl_len buf)
                  (spl_run_thunk e soc swaps tt))))"

text \<open>
  \<^verbatim>\<open>aw_fel_write_and_execute_spl\<close>. The buffer is the list, \<^verbatim>\<open>len\<close> its length. The
  quotation marks inside two messages are left out.
\<close>

definition aw_fel_write_and_execute_spl :: "env \<Rightarrow> u8 list \<Rightarrow> unit fel" where
  "aw_fel_write_and_execute_spl e buf =
     bnd (aw_fel_get_soc_info e)
       (\<lambda>soc.
          case swap_buffers soc of
            None \<Rightarrow> fatal ''SPL: Unsupported SoC type''
          | Some swaps \<Rightarrow>
              if length buf < 32 \<or> take 8 (drop 4 buf) \<noteq> bytes_of ''eGON.BT0''
              then fatal ''SPL: eGON header is not found''
              else
                (let spl_checksum = 2 * buf32 buf 3 - 0x5F0A6C39;
                     spl_len = buf32 buf 4
                 in if unat spl_len > length buf \<or> spl_len mod 4 \<noteq> 0
                    then fatal ''SPL: bad length in the eGON header''
                    else if spl_checksum_loop buf (unat spl_len) spl_checksum \<noteq> 0
                    then fatal ''SPL: checksum check failed''
                    else spl_upload_and_run e soc swaps spl_len buf))"

section \<open>U-Boot image\<close>

definition IH_MAGIC :: u32 where "IH_MAGIC = 0x27051956"
definition IH_ARCH_ARM :: u8 where "IH_ARCH_ARM = 2"
definition IH_TYPE_INVALID :: int where "IH_TYPE_INVALID = 0"
definition IH_TYPE_FIRMWARE :: int where "IH_TYPE_FIRMWARE = 5"
definition IH_TYPE_ARCH_MISMATCH :: int where "IH_TYPE_ARCH_MISMATCH = -1"
definition HEADER_SIZE :: nat where "HEADER_SIZE = 32 + 32"

definition get_image_type :: "u8 list \<Rightarrow> int" where
  "get_image_type buf =
     (if length buf \<le> HEADER_SIZE then IH_TYPE_INVALID
      else if be_buf32 buf 0 \<noteq> IH_MAGIC then IH_TYPE_INVALID
      else if buf ! 29 \<noteq> IH_ARCH_ARM then IH_TYPE_ARCH_MISMATCH
      else uint (buf ! 30))"

text \<open>
  \<^verbatim>\<open>aw_fel_write_uboot_image\<close>: after the header checks the data goes out through
  \<^verbatim>\<open>aw_write_buffer\<close>, and the region is recorded in the two globals.
\<close>

definition aw_fel_write_uboot_image :: "env \<Rightarrow> u8 list \<Rightarrow> unit fel" where
  "aw_fel_write_uboot_image e buf =
     (if length buf \<le> HEADER_SIZE then ret ()
      else
        (let image_type = get_image_type buf in
           if image_type \<le> IH_TYPE_INVALID then
             thn (fprintf_stderr
                    (if image_type = IH_TYPE_INVALID
                     then ''Invalid U-Boot image: bad size or signature''
                     else if image_type = IH_TYPE_ARCH_MISMATCH
                     then ''Invalid U-Boot image: wrong architecture''
                     else ''Invalid U-Boot image: error code %d''))
               (exit_with 1)
           else if image_type \<noteq> IH_TYPE_FIRMWARE
           then fatal ''U-Boot image type mismatch: expected IH_TYPE_FIRMWARE, got %02X''
           else
             (let data_size = be_buf32 buf 3;
                  load_addr = be_buf32 buf 4
              in if unat data_size \<noteq> length buf - HEADER_SIZE
                 then fatal ''U-Boot image data size mismatch: expected %zu, got %u''
                 else
                   thn (aw_write_buffer e (drop HEADER_SIZE buf) load_addr (ucast data_size))
                     (\<lambda>s. (s\<lparr>uboot_entry := load_addr, uboot_size := data_size\<rparr>,
                           Returned ())))))"

section \<open>Describing the traffic of a call\<close>

text \<open>
  The definitions from here on describe results; they are not part of the program.
  \<open>emit xs s\<close> is the state \<open>s\<close> with the transfers \<open>xs\<close> added to its trace; the
  lists below are the transfers of one call of each layer when nothing fails.
\<close>

definition emit :: "usb_xfer list \<Rightarrow> fel_state \<Rightarrow> fel_state" where
  "emit xs s = s\<lparr>usb_trace := usb_trace s @ xs\<rparr>"

definition out_xfers :: "u8 list \<Rightarrow> nat \<Rightarrow> usb_xfer list" where
  "out_xfers data len = (if len = 0 then [] else [Bulk_out (take len data)])"

definition in_xfers :: "nat \<Rightarrow> usb_xfer list" where
  "in_xfers len = (if len = 0 then [] else [Bulk_in len])"

definition aw_usb_write_xfers :: "u8 list \<Rightarrow> nat \<Rightarrow> usb_xfer list" where
  "aw_usb_write_xfers data len =
     Bulk_out (aw_usb_request AW_USB_WRITE len) # out_xfers data len @ [Bulk_in 13]"

definition aw_usb_read_xfers :: "nat \<Rightarrow> usb_xfer list" where
  "aw_usb_read_xfers len =
     Bulk_out (aw_usb_request AW_USB_READ len) # in_xfers len @ [Bulk_in 13]"

text \<open>
  A transport on which no transfer fails and every 13-byte status reads "AWUS" and a
  NUL; \<open>usb_reply\<close> is the answer to a read of \<open>len\<close> bytes after the history \<open>h\<close>.
\<close>

definition transport_ok :: "env \<Rightarrow> bool" where
  "transport_ok e \<longleftrightarrow>
     (\<forall>h. \<not> usb_fail e h) \<and> (\<forall>h. map (usb_in e h 13) [0..<5] = bytes_of ''AWUS'' @ [0])"

definition usb_reply :: "env \<Rightarrow> usb_xfer list \<Rightarrow> nat \<Rightarrow> u8 list" where
  "usb_reply e h len = map (usb_in e h len) [0..<len]"

definition fel_request_xfers :: "u32 \<Rightarrow> u32 \<Rightarrow> u32 \<Rightarrow> usb_xfer list" where
  "fel_request_xfers type addr len = aw_usb_write_xfers (aw_fel_request type addr len) 16"

definition fel_status_xfers :: "usb_xfer list" where
  "fel_status_xfers = aw_usb_read_xfers 8"

definition fel_version_xfers :: "usb_xfer list" where
  "fel_version_xfers = fel_request_xfers AW_FEL_VERSION 0 0 @ aw_usb_read_xfers 32 @ fel_status_xfers"

definition fel_read_xfers :: "u32 \<Rightarrow> nat \<Rightarrow> usb_xfer list" where
  "fel_read_xfers offset len =
     fel_request_xfers AW_FEL_1_READ offset (of_nat len) @ aw_usb_read_xfers len @ fel_status_xfers"

definition fel_write_xfers :: "u8 list \<Rightarrow> u32 \<Rightarrow> nat \<Rightarrow> usb_xfer list" where
  "fel_write_xfers buf offset len =
     fel_request_xfers AW_FEL_1_WRITE offset (of_nat len) @ aw_usb_write_xfers buf len @ fel_status_xfers"

definition fel_execute_xfers :: "u32 \<Rightarrow> usb_xfer list" where
  "fel_execute_xfers offset = fel_request_xfers AW_FEL_1_EXEC offset 0 @ fel_status_xfers"

text \<open>
  One AW-USB transaction is a framing request, its payload (absent when the length is
  zero) and the 13-byte status. \<open>aw_transactions\<close> reads a trace as a sequence of
  such transactions, following the length and direction each request announces, and
  is \<open>None\<close> for a trace that is not one.
\<close>

datatype aw_txn = Aw_write "u8 list" | Aw_read nat

fun txn_xfers :: "aw_txn \<Rightarrow> usb_xfer list" where
  "txn_xfers (Aw_write data) = aw_usb_write_xfers data (length data)"
| "txn_xfers (Aw_read n) = aw_usb_read_xfers n"

definition aw_request_len :: "u8 list \<Rightarrow> nat" where
  "aw_request_len hdr = unat (buf32 hdr 2)"

definition aw_request_type :: "u8 list \<Rightarrow> u16" where
  "aw_request_type hdr = ucast (hdr ! 16) OR push_bit 8 (ucast (hdr ! 17))"

fun aw_transactions :: "usb_xfer list \<Rightarrow> aw_txn list option" where
  "aw_transactions [] = Some []"
| "aw_transactions (Bulk_in n # rest) = None"
| "aw_transactions (Bulk_out hdr # rest) =
     (if length hdr = 32 \<and> take 4 hdr = bytes_of ''AWUC'' then
        (if aw_request_type hdr = AW_USB_WRITE then
           (if aw_request_len hdr = 0 then
              (case rest of
                 Bulk_in n # rest' \<Rightarrow>
                   if n = 13 then map_option (Cons (Aw_write [])) (aw_transactions rest') else None
               | _ \<Rightarrow> None)
            else
              (case rest of
                 Bulk_out d # Bulk_in n # rest' \<Rightarrow>
                   if length d = aw_request_len hdr \<and> n = 13
                   then map_option (Cons (Aw_write d)) (aw_transactions rest') else None
               | _ \<Rightarrow> None))
         else if aw_request_type hdr = AW_USB_READ then
           (if aw_request_len hdr = 0 then
              (case rest of
                 Bulk_in n # rest' \<Rightarrow>
                   if n = 13 then map_option (Cons (Aw_read 0)) (aw_transactions rest') else None
               | _ \<Rightarrow> None)
            else
              (case rest of
                 Bulk_in m # Bulk_in n # rest' \<Rightarrow>
                   if m = aw_request_len hdr \<and> n = 13
                   then map_option (Cons (Aw_read m)) (aw_transactions rest') else None
               | _ \<Rightarrow> None))
         else None)
      else None)"

fun wf_txn :: "aw_txn \<Rightarrow> bool" where
  "wf_txn (Aw_write d) \<longleftrightarrow> length d < 2 ^ 32"
| "wf_txn (Aw_read n) \<longleftrightarrow> n < 2 ^ 32"

section \<open>Describing the thunk payload and the rounds of the wrappers\<close>

text \<open>
  The bytes \<^verbatim>\<open>aw_fel_writel_n\<close> should upload for \<open>n\<close> words: the code, then the
  words. \<open>fel_rounds addr off count\<close> lists the rounds of a wrapper as the spec words
  them: each takes \<open>min count 244\<close> words at the current address and buffer offset,
  and the next starts \<open>4 * n\<close> bytes and \<open>n\<close> words further.
\<close>

definition writel_payload :: "u32 \<Rightarrow> (nat \<Rightarrow> u32) \<Rightarrow> nat \<Rightarrow> u8 list" where
  "writel_payload addr src n = words_le (writel_arm_code addr n @ map src [0..<n])"

function fel_rounds :: "u32 \<Rightarrow> nat \<Rightarrow> nat \<Rightarrow> (u32 \<times> nat \<times> nat) list" where
  "fel_rounds addr off count =
     (if count = 0 then []
      else (addr, off, min count 244)
             # fel_rounds (addr + of_nat (4 * min count 244)) (off + min count 244)
                 (count - min count 244))"
  by pat_completeness auto
termination
  by (relation "measure (\<lambda>(addr, off, count). count)") auto

primrec writel_rounds :: "env \<Rightarrow> (nat \<Rightarrow> u32) \<Rightarrow> (u32 \<times> nat \<times> nat) list \<Rightarrow> unit fel" where
  "writel_rounds e src [] = ret ()"
| "writel_rounds e src (r # rs) =
     thn (aw_fel_writel_n e (fst r) (\<lambda>i. src (fst (snd r) + i)) (snd (snd r)))
       (writel_rounds e src rs)"

primrec readl_rounds :: "env \<Rightarrow> (u32 \<times> nat \<times> nat) list \<Rightarrow> u32 list fel" where
  "readl_rounds e [] = ret []"
| "readl_rounds e (r # rs) =
     bnd (aw_fel_readl_n e (fst r) (snd (snd r)))
       (\<lambda>vals. bnd (readl_rounds e rs) (\<lambda>rest. ret (vals @ rest)))"

text \<open>
  The SoC record a call works with, and the state once it is resolved: the cached
  record, or the one the version query yields (on a transport that works).
  \<open>writel_round_xfers\<close> and \<open>readl_round_xfers\<close> are the transfers of one round
  \<open>(address, buffer index, words)\<close>: the upload of the thunk, which carries the
  address and the number of words, with the words to write behind it, its execution,
  and for a read the read of the words from behind the thunk.
  \<open>readl_round_asked\<close> is the part of a read round up to the request for the words,
  and \<open>readl_rounds_words\<close> the words the device answers to the rounds, in order,
  from the history \<open>h\<close> on.
\<close>

definition soc_rec :: "env \<Rightarrow> fel_state \<Rightarrow> soc_info" where
  "soc_rec e s =
     (case soc_result s of
        Some r \<Rightarrow> r
      | None \<Rightarrow> get_soc_info_from_version e
           (usb_reply e (usb_trace s @ fel_request_xfers AW_FEL_VERSION 0 0
                           @ [Bulk_out (aw_usb_request AW_USB_READ 32)]) 32))"

definition soc_state :: "env \<Rightarrow> fel_state \<Rightarrow> fel_state" where
  "soc_state e s =
     (case soc_result s of
        Some r \<Rightarrow> s
      | None \<Rightarrow> (emit fel_version_xfers s)\<lparr>soc_result := Some (soc_rec e s)\<rparr>)"

definition writel_round_xfers :: "soc_info \<Rightarrow> (nat \<Rightarrow> u32) \<Rightarrow> u32 \<times> nat \<times> nat \<Rightarrow> usb_xfer list" where
  "writel_round_xfers soc src r =
     fel_write_xfers
       (words_le (writel_arm_code (fst r) (snd (snd r))
                    @ map (\<lambda>i. src (fst (snd r) + i)) [0..<snd (snd r)]))
       (scratch_addr soc) (4 * (12 + snd (snd r)))
     @ fel_execute_xfers (scratch_addr soc)"

definition readl_round_asked :: "soc_info \<Rightarrow> u32 \<times> nat \<times> nat \<Rightarrow> usb_xfer list" where
  "readl_round_asked soc r =
     fel_write_xfers (words_le (readl_arm_code (fst r) (snd (snd r)))) (scratch_addr soc) 48
     @ fel_execute_xfers (scratch_addr soc)
     @ fel_request_xfers AW_FEL_1_READ (scratch_addr soc + 48) (of_nat (4 * snd (snd r)))
     @ [Bulk_out (aw_usb_request AW_USB_READ (4 * snd (snd r)))]"

definition readl_round_xfers :: "soc_info \<Rightarrow> u32 \<times> nat \<times> nat \<Rightarrow> usb_xfer list" where
  "readl_round_xfers soc r =
     fel_write_xfers (words_le (readl_arm_code (fst r) (snd (snd r)))) (scratch_addr soc) 48
     @ fel_execute_xfers (scratch_addr soc)
     @ fel_read_xfers (scratch_addr soc + 48) (4 * snd (snd r))"

primrec readl_rounds_words ::
  "env \<Rightarrow> soc_info \<Rightarrow> usb_xfer list \<Rightarrow> (u32 \<times> nat \<times> nat) list \<Rightarrow> u32 list" where
  "readl_rounds_words e soc h [] = []"
| "readl_rounds_words e soc h (r # rs) =
     map (buf32 (usb_reply e (h @ readl_round_asked soc r) (4 * snd (snd r)))) [0..<snd (snd r)]
       @ readl_rounds_words e soc (h @ readl_round_xfers soc r) rs"

declare fel_rounds.simps [simp del]
declare fel_writel_n.simps [simp del]
declare fel_readl_n.simps [simp del]

section \<open>Describing the MMU paths\<close>

text \<open>
  \<open>mmu_tt_restore\<close> is what \<^verbatim>\<open>aw_restore_and_enable_mmu\<close> makes of the table before
  the upload; \<open>texcb_bits\<close> are the positions of TEX (14..12), C (3) and B (2);
  \<open>mmu_section_shape tt i\<close> is the shape that the backup path checks on entry \<open>i\<close>;
  \<open>sctlr_ignored_bits\<close> are the bits 13, 12, 11, 6 and 0 of SCTLR.
\<close>

definition mmu_tt_restore :: "u32 list \<Rightarrow> u32 list" where
  "mmu_tt_restore tt = mmu_tt_set_brom (mmu_tt_set_dram tt)"

definition texcb_bits :: "nat set" where
  "texcb_bits = {2, 3, 12, 13, 14}"

definition mmu_section_shape :: "u32 list \<Rightarrow> nat \<Rightarrow> bool" where
  "mmu_section_shape tt i \<longleftrightarrow>
     drop_bit 1 (tt ! i) AND 1 = 1 \<and> drop_bit 18 (tt ! i) AND 1 = 0 \<and> drop_bit 20 (tt ! i) = of_nat i"

definition sctlr_ignored_bits :: u32 where
  "sctlr_ignored_bits = push_bit 13 1 OR push_bit 12 1 OR push_bit 11 1 OR push_bit 6 1 OR push_bit 0 1"

text \<open>
  The transfers of one coprocessor read and of one coprocessor write, and the history
  at which the device is asked for the value of a read.
\<close>

definition cp_read_xfers :: "soc_info \<Rightarrow> u32 \<Rightarrow> usb_xfer list" where
  "cp_read_xfers soc opcode =
     fel_write_xfers (words_le [opcode, 0xe58f0000, 0xe12fff1e]) (scratch_addr soc) 12
       @ fel_execute_xfers (scratch_addr soc) @ fel_read_xfers (scratch_addr soc + 12) 4"

definition cp_write_xfers :: "soc_info \<Rightarrow> u32 \<Rightarrow> u32 \<Rightarrow> usb_xfer list" where
  "cp_write_xfers soc opcode val =
     fel_write_xfers (words_le [0xe59f000c, opcode, 0xf57ff04f, 0xf57ff06f, 0xe12fff1e, val])
       (scratch_addr soc) 24
       @ fel_execute_xfers (scratch_addr soc)"

definition cp_read_history :: "soc_info \<Rightarrow> u32 \<Rightarrow> usb_xfer list" where
  "cp_read_history soc opcode =
     fel_write_xfers (words_le [opcode, 0xe58f0000, 0xe12fff1e]) (scratch_addr soc) 12
       @ fel_execute_xfers (scratch_addr soc)
       @ fel_request_xfers AW_FEL_1_READ (scratch_addr soc + 12) 4
       @ [Bulk_out (aw_usb_request AW_USB_READ 4)]"

text \<open>The transfers of \<^verbatim>\<open>aw_get_stackinfo\<close>.\<close>

definition stackinfo_xfers :: "soc_info \<Rightarrow> usb_xfer list" where
  "stackinfo_xfers soc =
     fel_write_xfers
       (words_le [0xe10f0000, 0xe3c0101f, 0xe3811012, 0xe121f001, 0xe1a0100d,
                  0xe121f000, 0xe58f1004, 0xe58fd004, 0xe12fff1e])
       (scratch_addr soc) 36
     @ fel_execute_xfers (scratch_addr soc) @ fel_read_xfers (scratch_addr soc + 0x24) 8"

section \<open>Describing the SPL upload\<close>

text \<open>
  \<open>egon_accepts\<close> is the acceptance condition of the spec: at least 32 bytes, the
  signature at bytes 4..11, the stored length (word 4) within the buffer and a
  multiple of 4, and twice the stored checksum (word 3) minus \<open>0x5F0A6C39\<close> minus
  the sum of the first \<open>spl_len / 4\<close> little-endian words equal to 0.
\<close>

definition egon_accepts :: "u8 list \<Rightarrow> bool" where
  "egon_accepts buf \<longleftrightarrow>
     32 \<le> length buf \<and> take 8 (drop 4 buf) = bytes_of ''eGON.BT0''
     \<and> unat (buf32 buf 4) \<le> length buf \<and> unat (buf32 buf 4) mod 4 = 0
     \<and> 2 * buf32 buf 3 - 0x5F0A6C39 - sum_list (map (buf32 buf) [0..<unat (buf32 buf 4) div 4]) = 0"

text \<open>
  The writes of the upload as the spec words them, each an address and the bytes that
  go there. \<open>spl_swap_walk\<close> goes through the swap list from a cursor and the
  remaining bytes of the image: for each entry, the part of the remaining image from
  the cursor up to \<open>buf1\<close> goes to the cursor, the next \<open>min size remaining\<close> bytes go
  to \<open>buf2\<close>, and the cursor is then that many bytes past \<open>buf1\<close>; the list ends at
  its zero-size entry. Its value is the writes, the cursor and the bytes left.
  \<open>spl_rest_write\<close> is the write after the list, of the remaining bytes at the
  cursor. A write of no bytes is no write. \<open>writes_xfers\<close> are the transfers of a
  list of writes, and \<open>do_writes\<close> the calls of \<^verbatim>\<open>aw_fel_write\<close> that make them.
\<close>

definition write_at :: "u32 \<Rightarrow> u8 list \<Rightarrow> (u32 \<times> u8 list) list" where
  "write_at a bytes = (if bytes = [] then [] else [(a, bytes)])"

definition writes_xfers :: "(u32 \<times> u8 list) list \<Rightarrow> usb_xfer list" where
  "writes_xfers ws = concat (map (\<lambda>w. fel_write_xfers (snd w) (fst w) (length (snd w))) ws)"

primrec do_writes :: "env \<Rightarrow> (u32 \<times> u8 list) list \<Rightarrow> unit fel" where
  "do_writes e [] = ret ()"
| "do_writes e (w # ws) = thn (aw_fel_write e (snd w) (fst w) (length (snd w))) (do_writes e ws)"

fun spl_swap_walk ::
  "sram_swap_buffers list \<Rightarrow> u32 \<Rightarrow> u8 list \<Rightarrow> (u32 \<times> u8 list) list \<times> u32 \<times> u8 list" where
  "spl_swap_walk [] cur rem = ([], cur, rem)"
| "spl_swap_walk (sw # rest) cur rem =
     (if size sw = 0 then ([], cur, rem)
      else
        (let n1 = min (unat (buf1 sw) - unat cur) (length rem);
             rem1 = drop n1 rem;
             n2 = min (unat (size sw)) (length rem1);
             w = spl_swap_walk rest (buf1 sw + of_nat n2) (drop n2 rem1)
         in (write_at cur (take n1 rem) @ write_at (buf2 sw) (take n2 rem1) @ fst w, snd w)))"

definition spl_swap_writes :: "sram_swap_buffers list \<Rightarrow> u32 \<Rightarrow> u8 list \<Rightarrow> (u32 \<times> u8 list) list" where
  "spl_swap_writes swaps cur rem = fst (spl_swap_walk swaps cur rem)"

definition spl_rest_write :: "sram_swap_buffers list \<Rightarrow> u32 \<Rightarrow> u8 list \<Rightarrow> (u32 \<times> u8 list) list" where
  "spl_rest_write swaps cur rem =
     write_at (fst (snd (spl_swap_walk swaps cur rem))) (snd (snd (spl_swap_walk swaps cur rem)))"

definition spl_image_writes :: "sram_swap_buffers list \<Rightarrow> u32 \<Rightarrow> u8 list \<Rightarrow> (u32 \<times> u8 list) list" where
  "spl_image_writes swaps cur rem = spl_swap_writes swaps cur rem @ spl_rest_write swaps cur rem"

text \<open>
  The size limit of the image as the code computes it: \<^verbatim>\<open>SPL_LEN_LIMIT\<close>, lowered to
  the offset of each \<open>buf2\<close> that lies in the image area below the limit so far, and
  then to \<^verbatim>\<open>thunk_addr\<close> if that is smaller.
\<close>

fun swap_limit :: "soc_info \<Rightarrow> sram_swap_buffers list \<Rightarrow> u32 \<Rightarrow> u32" where
  "swap_limit soc [] l = l"
| "swap_limit soc (sw # rest) l =
     (if size sw = 0 then l
      else swap_limit soc rest
             (if buf2 sw \<ge> spl_addr soc \<and> buf2 sw < spl_addr soc + l
              then buf2 sw - spl_addr soc else l))"

definition spl_size_limit :: "soc_info \<Rightarrow> sram_swap_buffers list \<Rightarrow> u32" where
  "spl_size_limit soc swaps =
     (if thunk_addr soc < swap_limit soc swaps SPL_LEN_LIMIT then thunk_addr soc
      else swap_limit soc swaps SPL_LEN_LIMIT)"

text \<open>
  A swap list is ascending from \<open>lo\<close> when each entry before the zero-size one has
  its \<open>buf1\<close> at or after \<open>lo\<close> and at or after the end of the entry before it, and
  ends below \<open>2^32\<close>.
\<close>

fun swaps_ascending :: "nat \<Rightarrow> sram_swap_buffers list \<Rightarrow> bool" where
  "swaps_ascending lo [] \<longleftrightarrow> True"
| "swaps_ascending lo (sw # rest) \<longleftrightarrow>
     size sw = 0 \<or>
     (lo \<le> unat (buf1 sw) \<and> unat (buf1 sw) + unat (size sw) < 2 ^ 32
        \<and> swaps_ascending (unat (buf1 sw) + unat (size sw)) rest)"

text \<open>
  What one pass of the loop body writes, from the cursor and the remaining bytes: the
  two conditional writes of \<^verbatim>\<open>spl_swap_step\<close> as a function, with the new cursor and
  the bytes left.
\<close>

definition swap_step_writes ::
  "sram_swap_buffers \<Rightarrow> u32 \<Rightarrow> u8 list \<Rightarrow> (u32 \<times> u8 list) list \<times> u32 \<times> u8 list" where
  "swap_step_writes sw cur rem =
     (let n1 = (if rem \<noteq> [] \<and> cur < buf1 sw then min (unat (buf1 sw - cur)) (length rem) else 0);
          cur1 = cur + of_nat n1;
          rem1 = drop n1 rem;
          n2 = (if rem1 \<noteq> [] \<and> cur1 = buf1 sw then min (unat (size sw)) (length rem1) else 0)
      in (write_at cur (take n1 rem) @ write_at (buf2 sw) (take n2 rem1),
          cur1 + of_nat n2, drop n2 rem1))"

section \<open>Sample inputs\<close>

text \<open>
  A SoC record with the swap buffer of the spec's relocation scenario, a device that
  answers every status with "AWUS" and every other read with the same bytes, and a
  few process states.
\<close>

definition soc_sample :: soc_info where
  "soc_sample =
     \<lparr>soc_id = 0x1623, spl_addr = 0, scratch_addr = 0x1000, thunk_addr = 0xAE00,
      thunk_size = 0x200, needs_l2en = False, mmu_tt_addr = 0x44000, sid_addr = 0,
      rvbar_reg = 0,
      swap_buffers = Some [\<lparr>buf1 = 0x2000, buf2 = 0xA000, size = 0x400\<rparr>,
                           \<lparr>buf1 = 0, buf2 = 0, size = 0\<rparr>]\<rparr>"

definition env_quiet :: env where
  "env_quiet =
     \<lparr>usb_fail = (\<lambda>h. False),
      usb_in = (\<lambda>h len i. if i < 4 then bytes_of ''AWUS'' ! i else 0),
      get_soc_info_from_version = (\<lambda>buf. soc_sample),
      fel_to_spl_thunk = [0xe12fff1e],
      libusb_has_strerror = True\<rparr>"

definition st_init :: fel_state where
  "st_init = \<lparr>usb_trace = [], stderr_out = [], uboot_entry = 0, uboot_size = 0, soc_result = None\<rparr>"

definition st_uboot :: fel_state where
  "st_uboot = st_init\<lparr>uboot_entry := 0x4A000000, uboot_size := 0x80000\<rparr>"

definition st_top :: fel_state where
  "st_top = st_init\<lparr>uboot_entry := 0xFFF00000, uboot_size := 0x100000\<rparr>"

definition st_probed :: fel_state where
  "st_probed = st_init\<lparr>soc_result := Some soc_sample\<rparr>"

text \<open>
  The swap list of \<open>soc_sample\<close>; a list whose second entry lies below the first, and
  a SoC record with it; a list whose \<open>buf2\<close> lies \<open>0x20\<close> bytes into the image area,
  and a SoC record with it; devices that answer a 4-byte read with a register value chosen
  by the length of the history, and a 16 KiB read with the generated table; the
  states after each register read of the backup path; and a 32-byte image with a
  valid eGON header.
\<close>

definition swaps_sample :: "sram_swap_buffers list" where
  "swaps_sample = [\<lparr>buf1 = 0x2000, buf2 = 0xA000, size = 0x400\<rparr>, \<lparr>buf1 = 0, buf2 = 0, size = 0\<rparr>]"

definition swaps_unsorted :: "sram_swap_buffers list" where
  "swaps_unsorted = [\<lparr>buf1 = 0x2000, buf2 = 0xA000, size = 0x400\<rparr>,
                     \<lparr>buf1 = 0x1000, buf2 = 0xB000, size = 0x100\<rparr>,
                     \<lparr>buf1 = 0, buf2 = 0, size = 0\<rparr>]"

definition swaps_tight :: "sram_swap_buffers list" where
  "swaps_tight = [\<lparr>buf1 = 0x10, buf2 = 0x20, size = 8\<rparr>, \<lparr>buf1 = 0, buf2 = 0, size = 0\<rparr>]"

definition soc_tight :: soc_info where
  "soc_tight = soc_sample\<lparr>swap_buffers := Some swaps_tight\<rparr>"

definition soc_unsorted :: soc_info where
  "soc_unsorted = soc_sample\<lparr>swap_buffers := Some swaps_unsorted\<rparr>"

definition env_regs :: "(nat \<Rightarrow> u32) \<Rightarrow> env" where
  "env_regs regs =
     \<lparr>usb_fail = (\<lambda>h. False),
      usb_in = (\<lambda>h len i.
         if len = 13 then (if i < 4 then bytes_of ''AWUS'' ! i else 0)
         else if len = 4 then htole32 (regs (length h)) ! i
         else if len = 16384 then words_le aw_generate_mmu_translation_table ! i
         else 0),
      get_soc_info_from_version = (\<lambda>buf. soc_sample),
      fel_to_spl_thunk = [0xe12fff1e],
      libusb_has_strerror = True\<rparr>"

definition regs_mmu_off :: "nat \<Rightarrow> u32" where
  "regs_mmu_off n = 0x00C50038"

definition regs_mmu_on :: "nat \<Rightarrow> u32" where
  "regs_mmu_on n =
     (if n = 19 then 0x00C50039 else if n = 43 then 0x55555555
      else if n = 67 then 0 else 0x00020000)"

definition st_sctlr :: fel_state where
  "st_sctlr = emit (cp_read_xfers soc_sample (mrc_opcode 15 0 1 0 0)) st_probed"

definition st_dacr :: fel_state where
  "st_dacr = emit (cp_read_xfers soc_sample (mrc_opcode 15 0 3 0 0)) st_sctlr"

definition st_ttbcr :: fel_state where
  "st_ttbcr = emit (cp_read_xfers soc_sample (mrc_opcode 15 0 2 0 2)) st_dacr"

definition st_ttbr0 :: fel_state where
  "st_ttbr0 = emit (cp_read_xfers soc_sample (mrc_opcode 15 0 2 0 0)) st_ttbcr"

definition st_table :: fel_state where
  "st_table = emit (fel_read_xfers 0x20000 16384) st_ttbr0"

definition egon_sample :: "u8 list" where
  "egon_sample =
     [0, 0, 0, 0] @ bytes_of ''eGON.BT0'' @ htole32 0xDDADF5EC @ htole32 0x20 @ replicate 12 0"

text \<open>
  An image of \<open>n\<close> bytes with a valid eGON header (for \<open>n\<close> a multiple of 4 from 32
  on): a zero word, the signature, the checksum, the length \<open>n\<close>, and zeros.
\<close>

definition egon_image :: "nat \<Rightarrow> u8 list" where
  "egon_image n =
     words_le [0, 0x4E4F4765, 0x3054422E, 0xDDADF5CC + of_nat n, of_nat n] @ replicate (n - 20) 0"

text \<open>
  The state in which the upload starts on the device with the MMU off: after the read
  of the stack pointers and the MMU step.
\<close>

definition st_upload :: fel_state where
  "st_upload =
     emit (stackinfo_xfers soc_sample
             @ cp_read_xfers soc_sample (mrc_opcode 15 0 1 0 0)
             @ cp_write_xfers soc_sample (mcr_opcode 15 0 3 0 0) 0x55555555
             @ cp_write_xfers soc_sample (mcr_opcode 15 0 2 0 2) 0
             @ cp_write_xfers soc_sample (mcr_opcode 15 0 2 0 0) 0x44000) st_probed"

section \<open>Facts about the layers\<close>

lemma emit_emit [simp]: "emit ys (emit xs s) = emit (xs @ ys) s"
  by (simp add: emit_def)

lemma emit_Nil [simp]: "emit [] s = s"
  by (simp add: emit_def)

lemma emit_fields [simp]:
  "usb_trace (emit xs s) = usb_trace s @ xs"
  "stderr_out (emit xs s) = stderr_out s"
  "uboot_entry (emit xs s) = uboot_entry s"
  "uboot_size (emit xs s) = uboot_size s"
  "soc_result (emit xs s) = soc_result s"
  by (simp_all add: emit_def)

lemma bnd_ret [simp]: "bnd (ret x) f = f x"
  by (simp add: bnd_def ret_def fun_eq_iff)

lemma thn_ret [simp]: "thn (ret x) m = m"
  by (simp add: thn_def)

lemma bnd_step: "m s = (s1, Returned x) \<Longrightarrow> bnd m f s = f x s1"
  by (simp add: bnd_def)

lemma thn_step: "m s = (s1, Returned x) \<Longrightarrow> thn m n s = n s1"
  by (simp add: thn_def bnd_def)

lemma bnd_Returned:
  "bnd m f s = (s', Returned y) \<longleftrightarrow> (\<exists>x s1. m s = (s1, Returned x) \<and> f x s1 = (s', Returned y))"
  by (auto simp: bnd_def split: prod.splits result.splits)

lemma thn_Returned:
  "thn m n s = (s', Returned y) \<longleftrightarrow> (\<exists>x s1. m s = (s1, Returned x) \<and> n s1 = (s', Returned y))"
  by (simp add: thn_def bnd_Returned)

lemma ret_Returned [simp]: "ret x s = (s', Returned y) \<longleftrightarrow> s' = s \<and> y = x"
  by (auto simp: ret_def)

lemma bnd_assoc: "bnd (bnd m f) g = bnd m (\<lambda>x. bnd (f x) g)"
  by (auto simp: bnd_def fun_eq_iff split: prod.splits result.splits)

lemma take5_13: "take 5 (map f [0..<13]) = map f [0..<5]"
  by (simp add: take_map)

lemma libusb_ok_out:
  "transport_ok e \<Longrightarrow>
   libusb_bulk e cap AW_USB_FEL_BULK_EP_OUT data len s = (emit (out_xfers data len) s, Returned data)"
  by (simp add: libusb_bulk_def transport_ok_def out_xfers_def emit_def)

lemma libusb_ok_in:
  "transport_ok e \<Longrightarrow>
   libusb_bulk e cap AW_USB_FEL_BULK_EP_IN (replicate len 0) len s =
     (emit (in_xfers len) s, Returned (usb_reply e (usb_trace s) len))"
  by (simp add: libusb_bulk_def transport_ok_def in_xfers_def emit_def usb_reply_def)

lemma aw_send_usb_request_ok:
  "transport_ok e \<Longrightarrow>
   aw_send_usb_request e type len s = (emit [Bulk_out (aw_usb_request type len)] s, Returned ())"
  by (simp add: aw_send_usb_request_def usb_bulk_send_def libusb_ok_out thn_step out_xfers_def
      aw_usb_request_def htole32_def htole16_def bytes_of_def)

lemma aw_read_usb_response_ok:
  "transport_ok e \<Longrightarrow> aw_read_usb_response e s = (emit [Bulk_in 13] s, Returned ())"
  unfolding aw_read_usb_response_def usb_bulk_recv_def
  by (subst bnd_step [OF libusb_ok_in])
     (simp_all add: in_xfers_def usb_reply_def take5_13, simp add: transport_ok_def)

lemma aw_usb_write_ok:
  "transport_ok e \<Longrightarrow>
   aw_usb_write e data len s = (emit (aw_usb_write_xfers data len) s, Returned ())"
  by (simp add: aw_usb_write_def usb_bulk_send_def thn_step [OF aw_send_usb_request_ok]
      thn_step [OF libusb_ok_out] aw_read_usb_response_ok aw_usb_write_xfers_def)

lemma aw_usb_read_ok:
  "transport_ok e \<Longrightarrow>
   aw_usb_read e (replicate len 0) len s =
     (emit (aw_usb_read_xfers len) s,
      Returned (usb_reply e (usb_trace s @ [Bulk_out (aw_usb_request AW_USB_READ len)]) len))"
  by (simp add: aw_usb_read_def usb_bulk_send_def thn_step [OF aw_send_usb_request_ok]
      bnd_step [OF libusb_ok_in] thn_step [OF aw_read_usb_response_ok] aw_usb_read_xfers_def)


lemma aw_send_fel_request_ok:
  "transport_ok e \<Longrightarrow>
   aw_send_fel_request e type addr len s = (emit (fel_request_xfers type addr len) s, Returned ())"
  by (simp add: aw_send_fel_request_def aw_usb_write_ok fel_request_xfers_def)

lemma aw_read_fel_status_ok:
  "transport_ok e \<Longrightarrow> aw_read_fel_status e s = (emit fel_status_xfers s, Returned ())"
  by (simp add: aw_read_fel_status_def thn_step [OF aw_usb_read_ok] fel_status_xfers_def)

lemma aw_fel_read_ok:
  "transport_ok e \<Longrightarrow>
   aw_fel_read e offset len s =
     (emit (fel_read_xfers offset len) s,
      Returned (usb_reply e (usb_trace s @ fel_request_xfers AW_FEL_1_READ offset (of_nat len)
                               @ [Bulk_out (aw_usb_request AW_USB_READ len)]) len))"
  by (simp add: aw_fel_read_def thn_step [OF aw_send_fel_request_ok] bnd_step [OF aw_usb_read_ok]
      thn_step [OF aw_read_fel_status_ok] fel_read_xfers_def)

lemma aw_fel_get_version_ok:
  "transport_ok e \<Longrightarrow>
   aw_fel_get_version e s =
     (emit fel_version_xfers s,
      Returned (usb_reply e (usb_trace s @ fel_request_xfers AW_FEL_VERSION 0 0
                               @ [Bulk_out (aw_usb_request AW_USB_READ 32)]) 32))"
  by (simp add: aw_fel_get_version_def thn_step [OF aw_send_fel_request_ok] bnd_step [OF aw_usb_read_ok]
      thn_step [OF aw_read_fel_status_ok] fel_version_xfers_def)

lemma aw_fel_write_ok:
  "transport_ok e \<Longrightarrow>
   aw_fel_write e buf offset len s = (emit (fel_write_xfers buf offset len) s, Returned ())"
  by (simp add: aw_fel_write_def thn_step [OF aw_send_fel_request_ok] thn_step [OF aw_usb_write_ok]
      aw_read_fel_status_ok fel_write_xfers_def)

lemma aw_fel_execute_ok:
  "transport_ok e \<Longrightarrow>
   aw_fel_execute e offset s = (emit (fel_execute_xfers offset) s, Returned ())"
  by (simp add: aw_fel_execute_def thn_step [OF aw_send_fel_request_ok]
      aw_read_fel_status_ok fel_execute_xfers_def)

text \<open>Inversion: a call that returns has put exactly its transfers on the trace.\<close>

lemma libusb_bulk_out_ret:
  "libusb_bulk e cap AW_USB_FEL_BULK_EP_OUT data len s = (s', Returned x) \<Longrightarrow>
   s' = emit (out_xfers data len) s"
  by (auto simp: libusb_bulk_def out_xfers_def emit_def usb_error_def thn_def bnd_def
      fprintf_stderr_def exit_with_def split: if_splits)

lemma libusb_bulk_in_ret:
  "libusb_bulk e cap AW_USB_FEL_BULK_EP_IN data len s = (s', Returned x) \<Longrightarrow>
   s' = emit (in_xfers len) s"
  by (auto simp: libusb_bulk_def in_xfers_def emit_def usb_error_def thn_def bnd_def
      fprintf_stderr_def exit_with_def split: if_splits)

lemma aw_send_usb_request_ret:
  "aw_send_usb_request e type len s = (s', Returned x) \<Longrightarrow>
   s' = emit [Bulk_out (aw_usb_request type len)] s"
  by (auto simp: aw_send_usb_request_def usb_bulk_send_def thn_Returned out_xfers_def
      aw_usb_request_def htole32_def htole16_def bytes_of_def dest!: libusb_bulk_out_ret)

lemma aw_read_usb_response_ret:
  "aw_read_usb_response e s = (s', Returned x) \<Longrightarrow> s' = emit [Bulk_in 13] s"
  by (auto simp: aw_read_usb_response_def usb_bulk_recv_def bnd_Returned in_xfers_def
      assert_fail_def split: if_splits dest!: libusb_bulk_in_ret)

lemma aw_usb_write_ret:
  "aw_usb_write e data len s = (s', Returned x) \<Longrightarrow> s' = emit (aw_usb_write_xfers data len) s"
  by (auto simp: aw_usb_write_def usb_bulk_send_def thn_Returned aw_usb_write_xfers_def
      dest!: libusb_bulk_out_ret aw_send_usb_request_ret aw_read_usb_response_ret)

lemma aw_usb_read_ret:
  "aw_usb_read e data len s = (s', Returned x) \<Longrightarrow> s' = emit (aw_usb_read_xfers len) s"
  by (auto simp: aw_usb_read_def usb_bulk_send_def thn_Returned bnd_Returned aw_usb_read_xfers_def
      dest!: libusb_bulk_in_ret aw_send_usb_request_ret aw_read_usb_response_ret)

lemma aw_fel_get_version_ret:
  "aw_fel_get_version e s = (s', Returned x) \<Longrightarrow> s' = emit fel_version_xfers s"
  by (auto simp: aw_fel_get_version_def aw_send_fel_request_def aw_read_fel_status_def
      thn_Returned bnd_Returned fel_version_xfers_def fel_request_xfers_def fel_status_xfers_def
      dest!: aw_usb_write_ret aw_usb_read_ret)

lemma aw_fel_read_ret:
  "aw_fel_read e offset len s = (s', Returned x) \<Longrightarrow> s' = emit (fel_read_xfers offset len) s"
  by (auto simp: aw_fel_read_def aw_send_fel_request_def aw_read_fel_status_def
      thn_Returned bnd_Returned fel_read_xfers_def fel_request_xfers_def fel_status_xfers_def
      dest!: aw_usb_write_ret aw_usb_read_ret)

lemma aw_fel_write_ret:
  "aw_fel_write e buf offset len s = (s', Returned x) \<Longrightarrow> s' = emit (fel_write_xfers buf offset len) s"
  by (auto simp: aw_fel_write_def aw_send_fel_request_def aw_read_fel_status_def
      thn_Returned bnd_Returned fel_write_xfers_def fel_request_xfers_def fel_status_xfers_def
      dest!: aw_usb_write_ret aw_usb_read_ret)

lemma aw_fel_execute_ret:
  "aw_fel_execute e offset s = (s', Returned x) \<Longrightarrow> s' = emit (fel_execute_xfers offset) s"
  by (auto simp: aw_fel_execute_def aw_send_fel_request_def aw_read_fel_status_def
      thn_Returned bnd_Returned fel_execute_xfers_def fel_request_xfers_def fel_status_xfers_def
      dest!: aw_usb_write_ret aw_usb_read_ret)

lemma le32toh_htole32:
  "le32toh (ucast w) (ucast (drop_bit 8 w)) (ucast (drop_bit 16 w)) (ucast (drop_bit 24 w)) = (w :: u32)"
  unfolding le32toh_def
  apply (rule bit_word_eqI)
  apply (auto simp: bit_simps)
  subgoal for n by (cases "n < 24") auto
  done

lemma le16_roundtrip:
  "ucast (ucast w :: u8) OR push_bit 8 (ucast (ucast (drop_bit 8 w) :: u8)) = (w :: u16)"
  by (rule bit_word_eqI) (auto simp: bit_simps)

lemma aw_usb_request_length [simp]: "length (aw_usb_request type len) = 32"
  by (simp add: aw_usb_request_def bytes_of_def htole32_def htole16_def)

lemma aw_usb_request_sig [simp]: "take 4 (aw_usb_request type len) = bytes_of ''AWUC''"
  by (simp add: aw_usb_request_def bytes_of_def htole32_def htole16_def)

lemma aw_request_type_request [simp]: "aw_request_type (aw_usb_request type len) = type"
  by (simp add: aw_usb_request_def bytes_of_def htole32_def htole16_def aw_request_type_def le16_roundtrip)

lemma aw_request_len_request [simp]:
  "len < 2 ^ 32 \<Longrightarrow> aw_request_len (aw_usb_request type len) = len"
  by (simp add: aw_usb_request_def bytes_of_def htole32_def htole16_def aw_request_len_def buf32_def
      le32toh_htole32 unat_of_nat)



lemma aw_transactions_txn:
  "wf_txn t \<Longrightarrow> aw_transactions (txn_xfers t @ rest) = map_option (Cons t) (aw_transactions rest)"
  by (cases t)
     (auto simp: aw_usb_write_xfers_def aw_usb_read_xfers_def out_xfers_def in_xfers_def
        AW_USB_READ_def AW_USB_WRITE_def)


lemma aw_transactions_txns:
  "list_all wf_txn ts \<Longrightarrow> aw_transactions (concat (map txn_xfers ts)) = Some ts"
  by (induction ts) (simp_all add: aw_transactions_txn)

lemma aw_fel_request_length [simp]: "length (aw_fel_request type addr len) = 16"
  by (simp add: aw_fel_request_def htole32_def)

lemma fel_read_xfers_txns:
  "fel_read_xfers offset len =
     concat (map txn_xfers [Aw_write (aw_fel_request AW_FEL_1_READ offset (of_nat len)), Aw_read len, Aw_read 8])"
  by (simp add: fel_read_xfers_def fel_request_xfers_def fel_status_xfers_def)

lemma fel_version_xfers_txns:
  "fel_version_xfers =
     concat (map txn_xfers [Aw_write (aw_fel_request AW_FEL_VERSION 0 0), Aw_read 32, Aw_read 8])"
  by (simp add: fel_version_xfers_def fel_request_xfers_def fel_status_xfers_def)

lemma fel_execute_xfers_txns:
  "fel_execute_xfers offset =
     concat (map txn_xfers [Aw_write (aw_fel_request AW_FEL_1_EXEC offset 0), Aw_read 8])"
  by (simp add: fel_execute_xfers_def fel_request_xfers_def fel_status_xfers_def)

lemma fel_write_xfers_txns:
  "len \<le> length buf \<Longrightarrow>
   fel_write_xfers buf offset len =
     concat (map txn_xfers [Aw_write (aw_fel_request AW_FEL_1_WRITE offset (of_nat len)),
                            Aw_write (take len buf), Aw_read 8])"
  by (simp add: fel_write_xfers_def fel_request_xfers_def fel_status_xfers_def
      aw_usb_write_xfers_def out_xfers_def min_def)



lemma length_htole32 [simp]: "length (htole32 w) = 4"
  by (simp add: htole32_def)

lemma words_le_Nil [simp]: "words_le [] = []"
  by (simp add: words_le_def)

lemma words_le_Cons [simp]: "words_le (w # ws) = htole32 w @ words_le ws"
  by (simp add: words_le_def)

lemma words_le_append [simp]: "words_le (xs @ ys) = words_le xs @ words_le ys"
  by (simp add: words_le_def)

lemma length_words_le [simp]: "length (words_le ws) = 4 * length ws"
  by (induction ws) simp_all

lemma take_words_le: "take (4 * n) (words_le ws) = words_le (take n ws)"
proof (induction ws arbitrary: n)
  case Nil
  then show ?case by simp
next
  case (Cons w ws)
  show ?case
  proof (cases n)
    case 0
    then show ?thesis by simp
  next
    case (Suc m)
    then show ?thesis using Cons [of m] by simp
  qed
qed

lemma fold_copy_words:
  "length code = k \<Longrightarrow> count \<le> m \<Longrightarrow>
   fold (\<lambda>i a. a[k + i := src i]) [0..<count] (code @ replicate m z) =
     code @ map src [0..<count] @ replicate (m - count) z"
proof (induction count)
  case 0
  then show ?case by simp
next
  case (Suc count)
  then have "fold (\<lambda>i a. a[k + i := src i]) [0..<Suc count] (code @ replicate m z) =
      (code @ map src [0..<count] @ replicate (m - count) z)[k + count := src count]"
    by simp
  also have "\<dots> = code @ (map src [0..<count] @ replicate (m - count) z)[count := src count]"
    using Suc.prems by (simp add: list_update_append)
  also have "(map src [0..<count] @ replicate (m - count) z)[count := src count] =
      map src [0..<count] @ (replicate (m - count) z)[0 := src count]"
    by (simp add: list_update_append)
  also have "(replicate (m - count) z)[0 := src count] = src count # replicate (m - Suc count) z"
    using Suc.prems by (cases "m - count") (simp_all add: Suc_diff_Suc)
  finally show ?case by simp
qed

lemma libusb_bulk_out_take:
  "bnd (libusb_bulk e cap AW_USB_FEL_BULK_EP_OUT (take len data) len) (\<lambda>_. m) =
   bnd (libusb_bulk e cap AW_USB_FEL_BULK_EP_OUT data len) (\<lambda>_. m)"
  by (auto simp: libusb_bulk_def bnd_def thn_def usb_error_def fprintf_stderr_def exit_with_def
      ret_def fun_eq_iff)

lemma aw_usb_write_take: "aw_usb_write e (take len data) len = aw_usb_write e data len"
  by (simp add: aw_usb_write_def usb_bulk_send_def thn_def libusb_bulk_out_take)

lemma aw_fel_write_take: "aw_fel_write e (take len buf) offset len = aw_fel_write e buf offset len"
  by (simp add: aw_fel_write_def aw_usb_write_take)

lemma length_writel_arm_code [simp]: "length (writel_arm_code addr n) = 12"
  by (simp add: writel_arm_code_def)

lemma length_readl_arm_code [simp]: "length (readl_arm_code addr n) = 12"
  by (simp add: readl_arm_code_def)

lemma writel_scratch_payload:
  assumes "count \<le> 244"
  shows "take ((12 + count) * 4)
           (words_le (fold (\<lambda>i a. a[12 + i := src i]) [0..<count]
                        (writel_arm_code addr count @ replicate 244 0))) =
         writel_payload addr src count"
proof -
  have "fold (\<lambda>i a. a[12 + i := src i]) [0..<count] (writel_arm_code addr count @ replicate 244 0) =
      writel_arm_code addr count @ map src [0..<count] @ replicate (244 - count) 0"
    using assms by (intro fold_copy_words) simp_all
  moreover have "take ((12 + count) * 4) (words_le (writel_arm_code addr count @ map src [0..<count] @ replicate (244 - count) 0)) =
      words_le (take (12 + count) (writel_arm_code addr count @ map src [0..<count] @ replicate (244 - count) 0))"
    using take_words_le [of "12 + count"] by (simp add: mult.commute)
  ultimately show ?thesis by (simp add: writel_payload_def)
qed

lemma thn_fprintf:
  "thn (fprintf_stderr msg) m s = m (s\<lparr>stderr_out := stderr_out s @ [msg]\<rparr>)"
  by (simp add: thn_def bnd_def fprintf_stderr_def)

lemma bnd_thn_assoc: "bnd (thn m n) f = thn m (bnd n f)"
  by (simp add: thn_def bnd_assoc)

lemma thn_thn_assoc: "thn (thn m n) k = thn m (thn n k)"
  by (simp add: thn_def bnd_assoc)

lemma aw_fel_writel_n_pos:
  assumes "0 < count"
  shows "aw_fel_writel_n e addr src count s =
      bnd (aw_fel_get_soc_info e)
        (\<lambda>soc. thn (aw_fel_write e (writel_payload addr src (min count 244)) (scratch_addr soc)
                       (4 * (12 + min count 244)))
                  (aw_fel_execute e (scratch_addr soc)))
        (if count > 244
         then s\<lparr>stderr_out := stderr_out s
                  @ [''ERROR: Max. word count exceeded, truncating aw_fel_writel_n() transfer'']\<rparr>
         else s)"
proof -
  have eq: "aw_fel_write e
          (words_le (fold (\<lambda>i a. a[12 + i := src i]) [0..<n] (writel_arm_code addr n @ replicate 244 0)))
          a (48 + n * 4) =
        aw_fel_write e (writel_payload addr src n) a (48 + 4 * n)" if "n \<le> 244" for n a
    using aw_fel_write_take [of e "(12 + n) * 4"
        "words_le (fold (\<lambda>i a. a[12 + i := src i]) [0..<n] (writel_arm_code addr n @ replicate 244 0))" a]
      writel_scratch_payload [OF that, of src addr]
    by (simp add: mult.commute)
  show ?thesis
  proof (cases "count > 244")
    case True
    then show ?thesis
      using eq [of 244]
      by (simp add: aw_fel_writel_n_def LCODE_MAX_WORDS_def LCODE_MAX_TOTAL_def LCODE_ARM_WORDS_def
          bnd_thn_assoc thn_fprintf)
  next
    case False
    then show ?thesis
      using assms eq [of count]
      by (simp add: aw_fel_writel_n_def LCODE_MAX_WORDS_def LCODE_MAX_TOTAL_def LCODE_ARM_WORDS_def
          bnd_thn_assoc thn_fprintf)
  qed
qed

lemma aw_fel_readl_n_pos:
  assumes "0 < count"
  shows "aw_fel_readl_n e addr count s =
      bnd (aw_fel_get_soc_info e)
        (\<lambda>soc. thn (aw_fel_write e (words_le (readl_arm_code addr (min count 244))) (scratch_addr soc) 48)
                  (thn (aw_fel_execute e (scratch_addr soc))
                     (bnd (aw_fel_read e (scratch_addr soc + 48) (4 * min count 244))
                        (\<lambda>buffer. ret (map (buf32 buffer) [0..<min count 244])))))
        (if count > 244
         then s\<lparr>stderr_out := stderr_out s
                  @ [''ERROR: Max. word count exceeded, truncating aw_fel_readl_n() transfer'']\<rparr>
         else s)"
  using assms
  by (cases "count > 244")
     (simp_all add: aw_fel_readl_n_def LCODE_MAX_WORDS_def LCODE_MAX_TOTAL_def LCODE_ARM_WORDS_def
      LCODE_ARM_SIZE_def bnd_thn_assoc thn_fprintf mult.commute)


lemma fel_rounds_0 [simp]: "fel_rounds addr off 0 = []"
  by (simp add: fel_rounds.simps)

lemma fel_rounds_pos:
  "0 < count \<Longrightarrow>
   fel_rounds addr off count =
     (addr, off, min count 244)
       # fel_rounds (addr + of_nat (4 * min count 244)) (off + min count 244) (count - min count 244)"
  by (subst fel_rounds.simps) simp

lemma lcode_min: "(if count > LCODE_MAX_WORDS then LCODE_MAX_WORDS else count) = min count 244"
  by (simp add: LCODE_MAX_WORDS_def LCODE_MAX_TOTAL_def LCODE_ARM_WORDS_def min_def)

lemma fel_writel_n_unfold:
  "fel_writel_n e addr src count =
     (if count > 0
      then thn (aw_fel_writel_n e addr src (min count 244))
             (fel_writel_n e (addr + of_nat (4 * min count 244)) (\<lambda>i. src (min count 244 + i))
                (count - min count 244))
      else ret ())"
proof (rule ext)
  fix s
  show "fel_writel_n e addr src count s =
     (if count > 0
      then thn (aw_fel_writel_n e addr src (min count 244))
             (fel_writel_n e (addr + of_nat (4 * min count 244)) (\<lambda>i. src (min count 244 + i))
                (count - min count 244))
      else ret ()) s"
  proof (cases "count > 0")
    case True
    then show ?thesis
      by (subst fel_writel_n.simps)
         (simp add: lcode_min Let_def thn_def bnd_def mult.commute split: prod.splits result.splits)
  next
    case False
    then show ?thesis
      by (subst fel_writel_n.simps) (simp add: ret_def)
  qed
qed

lemma fel_readl_n_unfold:
  "fel_readl_n e addr count =
     (if count > 0
      then bnd (aw_fel_readl_n e addr (min count 244))
             (\<lambda>vals. bnd (fel_readl_n e (addr + of_nat (4 * min count 244)) (count - min count 244))
                        (\<lambda>rest. ret (vals @ rest)))
      else ret [])"
proof (rule ext)
  fix s
  show "fel_readl_n e addr count s =
     (if count > 0
      then bnd (aw_fel_readl_n e addr (min count 244))
             (\<lambda>vals. bnd (fel_readl_n e (addr + of_nat (4 * min count 244)) (count - min count 244))
                        (\<lambda>rest. ret (vals @ rest)))
      else ret []) s"
  proof (cases "count > 0")
    case True
    then show ?thesis
      by (subst fel_readl_n.simps)
         (simp add: lcode_min Let_def bnd_def ret_def mult.commute split: prod.splits result.splits)
  next
    case False
    then show ?thesis
      by (subst fel_readl_n.simps) (simp add: ret_def)
  qed
qed

lemma upt_split_shift:
  assumes "n \<le> count"
  shows "[0..<count] = [0..<n] @ map (\<lambda>i. n + i) [0..<count - n]"
proof -
  have "[0..<count] = [0..<n + (count - n)]" using assms by simp
  also have "\<dots> = [0..<n] @ [n..<n + (count - n)]"
    by (rule upt_add_eq_append) simp
  also have "[n..<n + (count - n)] = map (\<lambda>i. n + i) [0..<count - n]"
    using map_add_upt [of n "count - n"] by (simp add: add.commute)
  finally show ?thesis .
qed

lemma fel_writel_n_rounds:
  "fel_writel_n e addr (\<lambda>i. src (off + i)) count = writel_rounds e src (fel_rounds addr off count)"
proof (induction count arbitrary: addr off rule: less_induct)
  case (less count)
  show ?case
  proof (cases "count = 0")
    case True
    then show ?thesis by (simp add: fel_writel_n_unfold)
  next
    case False
    define n where "n = min count 244"
    have n: "count - n < count"
      using False by (auto simp: n_def)
    have IH: "fel_writel_n e (addr + of_nat (4 * n)) (\<lambda>i. src (off + n + i)) (count - n) =
        writel_rounds e src (fel_rounds (addr + of_nat (4 * n)) (off + n) (count - n))"
      using less [OF n, of "addr + of_nat (4 * n)" "off + n"] .
    have "fel_writel_n e addr (\<lambda>i. src (off + i)) count =
        thn (aw_fel_writel_n e addr (\<lambda>i. src (off + i)) n)
          (fel_writel_n e (addr + of_nat (4 * n)) (\<lambda>i. src (off + n + i)) (count - n))"
      using False by (subst fel_writel_n_unfold) (simp add: n_def add.assoc)
    also have "\<dots> = thn (aw_fel_writel_n e addr (\<lambda>i. src (off + i)) n)
          (writel_rounds e src (fel_rounds (addr + of_nat (4 * n)) (off + n) (count - n)))"
      by (simp only: IH)
    also have "\<dots> = writel_rounds e src (fel_rounds addr off count)"
      using False by (simp add: fel_rounds_pos n_def)
    finally show ?thesis .
  qed
qed

lemma fel_readl_n_rounds:
  "fel_readl_n e addr count = readl_rounds e (fel_rounds addr off count)"
proof (induction count arbitrary: addr off rule: less_induct)
  case (less count)
  show ?case
  proof (cases "count = 0")
    case True
    then show ?thesis by (simp add: fel_readl_n_unfold)
  next
    case False
    define n where "n = min count 244"
    have n: "count - n < count"
      using False by (auto simp: n_def)
    have IH: "fel_readl_n e (addr + of_nat (4 * n)) (count - n) =
        readl_rounds e (fel_rounds (addr + of_nat (4 * n)) (off + n) (count - n))"
      using less [OF n, of "addr + of_nat (4 * n)" "off + n"] .
    have "fel_readl_n e addr count =
        bnd (aw_fel_readl_n e addr n)
          (\<lambda>vals. bnd (fel_readl_n e (addr + of_nat (4 * n)) (count - n)) (\<lambda>rest. ret (vals @ rest)))"
      using False by (subst fel_readl_n_unfold) (simp add: n_def)
    also have "\<dots> = bnd (aw_fel_readl_n e addr n)
          (\<lambda>vals. bnd (readl_rounds e (fel_rounds (addr + of_nat (4 * n)) (off + n) (count - n)))
                     (\<lambda>rest. ret (vals @ rest)))"
      by (simp only: IH)
    also have "\<dots> = readl_rounds e (fel_rounds addr off count)"
      using False by (simp add: fel_rounds_pos n_def)
    finally show ?thesis .
  qed
qed

lemma fel_rounds_bound:
  "r \<in> set (fel_rounds addr off count) \<Longrightarrow> 0 < snd (snd r) \<and> snd (snd r) \<le> 244"
proof (induction count arbitrary: addr off rule: less_induct)
  case (less count)
  show ?case
  proof (cases "count = 0")
    case True
    with less.prems show ?thesis by simp
  next
    case False
    then have "count - min count 244 < count" by auto
    from less.IH [OF this] less.prems False show ?thesis
      by (auto simp: fel_rounds_pos)
  qed
qed

lemma fel_rounds_cover:
  "concat (map (\<lambda>r. map (\<lambda>j. (fst r + 4 * of_nat j, fst (snd r) + j)) [0..<snd (snd r)])
             (fel_rounds addr off count)) =
   map (\<lambda>i. (addr + 4 * of_nat i, off + i)) [0..<count]"
proof (induction count arbitrary: addr off rule: less_induct)
  case (less count)
  show ?case
  proof (cases "count = 0")
    case True
    then show ?thesis by simp
  next
    case False
    define n where "n = min count 244"
    have n: "0 < n" "n \<le> count" "count - n < count"
      using False by (auto simp: n_def)
    have split: "[0..<count] = [0..<n] @ map (\<lambda>i. n + i) [0..<count - n]"
      using n(2) by (rule upt_split_shift)
    have "concat (map (\<lambda>r. map (\<lambda>j. (fst r + 4 * of_nat j, fst (snd r) + j)) [0..<snd (snd r)])
             (fel_rounds addr off count)) =
        map (\<lambda>j. (addr + 4 * of_nat j, off + j)) [0..<n]
          @ map (\<lambda>i. (addr + of_nat (4 * n) + 4 * of_nat i, off + n + i)) [0..<count - n]"
      using False less.IH [OF n(3), of "addr + of_nat (4 * n)" "off + n"]
      by (simp add: fel_rounds_pos n_def [symmetric])
    also have "\<dots> = map (\<lambda>i. (addr + 4 * of_nat i, off + i)) [0..<count]"
      by (subst split) (simp add: comp_def algebra_simps)
    finally show ?thesis .
  qed
qed

lemma upt_5: "[0..<5] = [0, 1, 2, 3, 4]"
  by (simp add: upt_rec)

lemma transport_ok_env_quiet: "transport_ok env_quiet"
  by (simp add: transport_ok_def env_quiet_def upt_5 bytes_of_def)

lemma unat_ucast_u32_size_t: "unat (ucast (x::u32) :: size_t) = unat x"
proof -
  have "unat x < 2 ^ 32" using unsigned_less [of x] by simp
  then have "unat x < 2 ^ 64" by simp
  then show ?thesis by (simp add: unsigned_ucast_eq take_bit_nat_eq_self)
qed

lemma aw_write_buffer_guarded:
  "overwrites_uboot s offset len \<Longrightarrow>
   aw_write_buffer e buf offset len s =
     (s\<lparr>stderr_out := stderr_out s @
          [''ERROR: Attempt to overwrite U-Boot! Request 0x%08X-0x%08X overlaps 0x%08X-0x%08X.'']\<rparr>,
      Exited 1)"
  by (simp add: aw_write_buffer_def fatal_def thn_def bnd_def fprintf_stderr_def exit_with_def)

lemma aw_write_buffer_ok:
  "transport_ok e \<Longrightarrow> \<not> overwrites_uboot s offset len \<Longrightarrow>
   aw_write_buffer e buf offset len s =
     (emit (fel_request_xfers AW_FEL_1_WRITE offset (ucast len) @ aw_usb_write_xfers buf (unat len)
              @ fel_status_xfers) s, Returned ())"
  by (simp add: aw_write_buffer_def thn_step [OF aw_send_fel_request_ok] thn_step [OF aw_usb_write_ok]
      aw_read_fel_status_ok)

lemma overwrites_uboot_nat:
  assumes "unat (uboot_entry s) + unat (uboot_size s) < 2 ^ 32"
    and "unat offset + unat len < 2 ^ 64"
  shows "overwrites_uboot s offset len \<longleftrightarrow>
     0 < unat (uboot_size s) \<and> unat offset \<le> unat (uboot_entry s) + unat (uboot_size s)
       \<and> unat (uboot_entry s) \<le> unat offset + unat len"
proof -
  have sum32: "unat (uboot_entry s + uboot_size s) = unat (uboot_entry s) + unat (uboot_size s)"
    using assms(1) by (simp add: unat_word_ariths)
  have sum64: "unat (ucast offset + len :: size_t) = unat offset + unat len"
    using assms(2) unat_ucast_u32_size_t [of offset] by (simp add: unat_word_ariths)
  show ?thesis
    by (simp add: overwrites_uboot_def word_le_nat_alt word_less_nat_alt sum32 sum64
        unat_ucast_u32_size_t)
qed

lemma aw_fel_get_soc_info_cached:
  "soc_result s = Some r \<Longrightarrow> aw_fel_get_soc_info e s = (s, Returned r)"
  by (simp add: aw_fel_get_soc_info_def)

lemma aw_fel_get_soc_info_ok:
  "transport_ok e \<Longrightarrow> soc_result s = None \<Longrightarrow>
   aw_fel_get_soc_info e s =
     ((emit fel_version_xfers s)
        \<lparr>soc_result := Some (get_soc_info_from_version e
           (usb_reply e (usb_trace s @ fel_request_xfers AW_FEL_VERSION 0 0
                           @ [Bulk_out (aw_usb_request AW_USB_READ 32)]) 32))\<rparr>,
      Returned (get_soc_info_from_version e
           (usb_reply e (usb_trace s @ fel_request_xfers AW_FEL_VERSION 0 0
                           @ [Bulk_out (aw_usb_request AW_USB_READ 32)]) 32)))"
  by (simp add: aw_fel_get_soc_info_def bnd_step [OF aw_fel_get_version_ok])

subsection \<open>The rewrites of the restore path\<close>

declare upt_rec_numeral [simp del]

lemma TEXCB_MASK_mask: "TEXCB_MASK = push_bit 12 (mask 3) OR push_bit 2 (mask 2)"
  by (simp add: TEXCB_MASK_def mask_eq_exp_minus_1)

lemma bit_TEXCB_MASK: "bit TEXCB_MASK k \<longleftrightarrow> k \<in> texcb_bits"
  unfolding TEXCB_MASK_mask texcb_bits_def
  by (auto simp: bit_simps)

lemma dram_range:
  "unat (drop_bit 20 DRAM_BASE) = 0x400" "unat (drop_bit 20 (DRAM_BASE + DRAM_SIZE)) = 0xC00"
  by (simp_all add: DRAM_BASE_def DRAM_SIZE_def drop_bit_eq_div)

lemma update_twice:
  "(let t = t[i := f (t ! i)] in t[i := g (t ! i)]) = t[i := g (f (t ! i))]"
  by (cases "i < length t") (simp_all add: list_update_beyond not_less)

lemma fold_update_nth:
  "b \<le> length tt \<Longrightarrow>
   length (fold (\<lambda>i t. t[i := g (t ! i)]) [a..<b] tt) = length tt
   \<and> fold (\<lambda>i t. t[i := g (t ! i)]) [a..<b] tt ! j = (if a \<le> j \<and> j < b then g (tt ! j) else tt ! j)"
proof (induction b)
  case 0
  then show ?case by simp
next
  case (Suc b)
  show ?case
  proof (cases "a \<le> b")
    case True
    with Suc show ?thesis by (auto simp: nth_list_update)
  next
    case False
    then show ?thesis by auto
  qed
qed

lemma mmu_tt_set_dram_fold:
  "mmu_tt_set_dram tt =
     fold (\<lambda>i t. t[i := (t ! i AND NOT TEXCB_MASK) OR push_bit 12 1]) [0x400..<0xC00] tt"
  unfolding mmu_tt_set_dram_def dram_range
    update_twice [of _ _ "\<lambda>x. x AND NOT TEXCB_MASK" "\<lambda>x. x OR push_bit 12 1"] ..

lemma mmu_tt_set_dram_nth:
  assumes "length tt = 4096"
  shows "length (mmu_tt_set_dram tt) = 4096"
    and "mmu_tt_set_dram tt ! j =
      (if 0x400 \<le> j \<and> j < 0xC00 then (tt ! j AND NOT TEXCB_MASK) OR push_bit 12 1 else tt ! j)"
  unfolding mmu_tt_set_dram_fold
  using fold_update_nth [of "0xC00" tt "\<lambda>x. (x AND NOT TEXCB_MASK) OR push_bit 12 1" "0x400" j] assms
  by simp_all

lemma mmu_tt_set_brom_update:
  "mmu_tt_set_brom tt =
     tt[0xFFF := (tt ! 0xFFF AND NOT TEXCB_MASK) OR (push_bit 12 1 OR push_bit 3 1 OR push_bit 2 1)]"
  unfolding mmu_tt_set_brom_def
    update_twice [of _ _ "\<lambda>x. x AND NOT TEXCB_MASK"
      "\<lambda>x. x OR (push_bit 12 1 OR push_bit 3 1 OR push_bit 2 1)"] ..

lemma mmu_tt_set_brom_nth:
  assumes "length tt = 4096"
  shows "length (mmu_tt_set_brom tt) = 4096"
    and "mmu_tt_set_brom tt ! j =
      (if j = 0xFFF then (tt ! j AND NOT TEXCB_MASK) OR (push_bit 12 1 OR push_bit 3 1 OR push_bit 2 1)
       else tt ! j)"
  unfolding mmu_tt_set_brom_update using assms by (simp_all add: nth_list_update)

lemma mmu_tt_restore_nth:
  assumes "length tt = 4096"
  shows "length (mmu_tt_restore tt) = 4096"
    and "mmu_tt_restore tt ! j =
      (if 0x400 \<le> j \<and> j < 0xC00 then (tt ! j AND NOT TEXCB_MASK) OR push_bit 12 1
       else if j = 0xFFF then (tt ! j AND NOT TEXCB_MASK) OR (push_bit 12 1 OR push_bit 3 1 OR push_bit 2 1)
       else tt ! j)"
  using assms
  by (simp_all add: mmu_tt_restore_def mmu_tt_set_brom_nth mmu_tt_set_dram_nth)

lemma bit_texcb_normal:
  "bit (push_bit 12 1 :: u32) k \<longleftrightarrow> k = 12"
  "bit (push_bit 12 1 OR push_bit 3 1 OR push_bit 2 1 :: u32) k \<longleftrightarrow> k = 12 \<or> k = 3 \<or> k = 2"
  by (auto simp add: bit_or_iff bit_push_bit_iff bit_1_iff simp del: push_bit_of_1)

lemma bit_dram_entry:
  "bit ((x AND NOT TEXCB_MASK) OR push_bit 12 1 :: u32) k \<longleftrightarrow>
     (if k \<in> texcb_bits then k = 12 else bit x k)"
  unfolding bit_or_iff bit_and_iff bit_not_iff bit_texcb_normal bit_TEXCB_MASK
  by (auto simp: texcb_bits_def dest: bit_imp_le_length)

lemma bit_brom_entry:
  "bit ((x AND NOT TEXCB_MASK) OR (push_bit 12 1 OR push_bit 3 1 OR push_bit 2 1) :: u32) k \<longleftrightarrow>
     (if k \<in> texcb_bits then k = 12 \<or> k = 3 \<or> k = 2 else bit x k)"
  unfolding bit_or_iff [of "x AND NOT TEXCB_MASK"] bit_and_iff bit_not_iff bit_texcb_normal bit_TEXCB_MASK
  by (auto simp: texcb_bits_def dest: bit_imp_le_length)

lemma shape_of_bits:
  assumes "\<And>k. k \<notin> texcb_bits \<Longrightarrow> bit (y :: u32) k = bit (x :: u32) k"
  shows "drop_bit 20 y = drop_bit 20 x" "drop_bit 1 y AND 1 = drop_bit 1 x AND 1"
    "drop_bit 18 y AND 1 = drop_bit 18 x AND 1"
proof -
  show "drop_bit 20 y = drop_bit 20 x"
    by (rule bit_word_eqI) (simp add: bit_simps assms texcb_bits_def)
  show "drop_bit 1 y AND 1 = drop_bit 1 x AND 1"
    by (rule bit_word_eqI) (auto simp: bit_simps assms texcb_bits_def)
  show "drop_bit 18 y AND 1 = drop_bit 18 x AND 1"
    by (rule bit_word_eqI) (auto simp: bit_simps assms texcb_bits_def)
qed

lemma aw_generate_mmu_translation_table_nth:
  "length aw_generate_mmu_translation_table = 4096"
  "i < 4096 \<Longrightarrow>
   aw_generate_mmu_translation_table ! i =
     (if i = 0 \<or> i = 0xFFF then 0x00000DE2 OR push_bit 20 (of_nat i) OR 0x1000
      else 0x00000DE2 OR push_bit 20 (of_nat i))"
  by (auto simp: aw_generate_mmu_translation_table_def Let_def nth_list_update)

lemma aw_restore_and_enable_mmu_upload:
  "aw_restore_and_enable_mmu e soc tt =
     bnd (aw_get_ttbr0 e soc)
       (\<lambda>ttbr0.
          thn (aw_fel_write e (words_le (mmu_tt_restore tt)) ttbr0 (16 * 1024))
            (thn (aw_fel_write e
                    (words_le [0xe3a00000, 0xee080f17, 0xee070f15, 0xee070fd5, 0xf57ff04f,
                               0xf57ff06f, 0xee110f10, 0xe3800001, 0xe3800a01, 0xe3800b02,
                               0xee010f10, 0xe12fff1e])
                    (scratch_addr soc) 48)
               (aw_fel_execute e (scratch_addr soc))))"
  unfolding aw_restore_and_enable_mmu_def mmu_tt_restore_def Let_def ..

subsection \<open>Coprocessor registers and the generated table\<close>

lemma aw_read_arm_cp_reg_ok:
  "transport_ok e \<Longrightarrow>
   aw_read_arm_cp_reg e soc coproc opc1 crn crm opc2 s =
     (emit (cp_read_xfers soc (mrc_opcode coproc opc1 crn crm opc2)) s,
      Returned (buf32 (usb_reply e (usb_trace s
                 @ cp_read_history soc (mrc_opcode coproc opc1 crn crm opc2)) 4) 0))"
  by (simp add: aw_read_arm_cp_reg_def thn_step [OF aw_fel_write_ok] thn_step [OF aw_fel_execute_ok]
      bnd_step [OF aw_fel_read_ok] cp_read_xfers_def cp_read_history_def ret_def)

lemma aw_write_arm_cp_reg_ok:
  "transport_ok e \<Longrightarrow>
   aw_write_arm_cp_reg e soc coproc opc1 crn crm opc2 val s =
     (emit (cp_write_xfers soc (mcr_opcode coproc opc1 crn crm opc2) val) s, Returned ())"
  by (simp add: aw_write_arm_cp_reg_def thn_step [OF aw_fel_write_ok] aw_fel_execute_ok
      cp_write_xfers_def)

lemma mcr_opcodes:
  "mcr_opcode 15 0 3 0 0 = 0xEE030F10"
  "mcr_opcode 15 0 2 0 2 = 0xEE020F50"
  "mcr_opcode 15 0 2 0 0 = 0xEE020F10"
  by (simp_all add: mcr_opcode_def)

lemma mrc_opcodes:
  "mrc_opcode 15 0 1 0 0 = 0xEE110F10"
  "mrc_opcode 15 0 3 0 0 = 0xEE130F10"
  "mrc_opcode 15 0 2 0 2 = 0xEE120F50"
  "mrc_opcode 15 0 2 0 0 = 0xEE120F10"
  by (simp_all add: mrc_opcode_def)

lemma nat_bit_bound:
  assumes "i < 2 ^ m" and "bit (i::nat) n"
  shows "n < m"
proof -
  from assms(1) have "take_bit m i = i" by (simp add: take_bit_nat_eq_self)
  then have "bit i n \<longleftrightarrow> n < m \<and> bit i n" by (metis bit_take_bit_iff)
  with assms(2) show ?thesis by simp
qed

lemma bit_of_nat_small:
  "i < 2 ^ m \<Longrightarrow> bit (of_nat i :: u32) n \<Longrightarrow> n < m"
proof -
  assume a: "i < 2 ^ m" "bit (of_nat i :: u32) n"
  from a(2) have "bit i n" by (simp add: bit_of_nat_iff)
  with a(1) show ?thesis by (rule nat_bit_bound)
qed

lemma drop_push_20: "i < 4096 \<Longrightarrow> drop_bit 20 (push_bit 20 (of_nat i) :: u32) = of_nat i"
proof (rule bit_word_eqI)
  fix n assume i: "i < 4096" and n: "n < LENGTH(32)"
  have "bit (of_nat i :: u32) n \<Longrightarrow> n < 12"
    using bit_of_nat_small [of i 12 n] i by simp
  then show "bit (drop_bit 20 (push_bit 20 (of_nat i) :: u32)) n \<longleftrightarrow> bit (of_nat i :: u32) n"
    using n by (auto simp: bit_simps)
qed

lemma section_entry_shape:
  "drop_bit 1 (0x00000DE2 OR push_bit 20 x :: u32) AND 1 = 1"
  "drop_bit 18 (0x00000DE2 OR push_bit 20 x :: u32) AND 1 = 0"
  "drop_bit 1 (0x00000DE2 OR push_bit 20 x OR 0x1000 :: u32) AND 1 = 1"
  "drop_bit 18 (0x00000DE2 OR push_bit 20 x OR 0x1000 :: u32) AND 1 = 0"
  by (rule bit_word_eqI, auto simp: bit_simps)+

lemma section_entry_index:
  "i < 4096 \<Longrightarrow> drop_bit 20 (0x00000DE2 OR push_bit 20 (of_nat i) :: u32) = of_nat i"
  "i < 4096 \<Longrightarrow> drop_bit 20 (0x00000DE2 OR push_bit 20 (of_nat i) OR 0x1000 :: u32) = of_nat i"
  by (simp_all add: drop_push_20)

lemma generated_table_shape:
  assumes "i < 4096"
  shows "mmu_section_shape aw_generate_mmu_translation_table i"
proof (cases "i = 0 \<or> i = 0xFFF")
  case True
  then have "aw_generate_mmu_translation_table ! i = 0x00000DE2 OR push_bit 20 (of_nat i) OR 0x1000"
    using aw_generate_mmu_translation_table_nth(2) [OF assms] by (simp only: if_True)
  then show ?thesis
    unfolding mmu_section_shape_def
    by (simp only: section_entry_shape section_entry_index [OF assms] simp_thms)
next
  case False
  then have "aw_generate_mmu_translation_table ! i = 0x00000DE2 OR push_bit 20 (of_nat i)"
    using aw_generate_mmu_translation_table_nth(2) [OF assms] by (simp only: if_False)
  then show ?thesis
    unfolding mmu_section_shape_def
    by (simp only: section_entry_shape section_entry_index [OF assms] simp_thms)
qed

subsection \<open>The backup path\<close>

lemma fatal_eq: "fatal msg s = (s\<lparr>stderr_out := stderr_out s @ [msg]\<rparr>, Exited 1)"
  by (simp add: fatal_def thn_def bnd_def fprintf_stderr_def exit_with_def)

lemma mmu_tt_check_None:
  "mmu_tt_check tt idx = None \<longleftrightarrow> (\<forall>i \<in> set idx. mmu_section_shape tt i)"
  by (induction idx) (auto simp: mmu_section_shape_def)

lemma mmu_tt_check_all:
  "mmu_tt_check tt [0..<n] = None \<longleftrightarrow> (\<forall>i<n. mmu_section_shape tt i)"
  by (auto simp: mmu_tt_check_None)

lemma sctlr_mask: "push_bit 11 0x7 OR push_bit 6 1 OR 1 = sctlr_ignored_bits"
  by (simp add: sctlr_ignored_bits_def)

lemma and_1_eq_0_iff: "(w :: u32) AND 1 = 0 \<longleftrightarrow> \<not> bit w 0"
  by (simp add: and_one_eq bit_0 mod_2_eq_odd)

lemma backup_sctlr:
  assumes "aw_get_sctlr e soc s = (s1, Returned sctlr)"
  shows "aw_backup_and_disable_mmu e soc s =
     (if sctlr AND NOT sctlr_ignored_bits \<noteq> 0x00C50038
      then (s1\<lparr>stderr_out := stderr_out s1 @ [''Unexpected SCTLR (%08X)'']\<rparr>, Exited 1)
      else if \<not> bit sctlr 0 then (s1, Returned None)
      else
        bnd (aw_get_dacr e soc)
          (\<lambda>dacr.
             if dacr \<noteq> 0x55555555 then fatal ''Unexpected DACR (%08X)''
             else
               bnd (aw_get_ttbcr e soc)
                 (\<lambda>ttbcr.
                    if ttbcr \<noteq> 0x00000000 then fatal ''Unexpected TTBCR (%08X)''
                    else
                      bnd (aw_get_ttbr0 e soc)
                        (\<lambda>ttbr0.
                           if ttbr0 AND 0x3FFF \<noteq> 0 then fatal ''Unexpected TTBR0 (%08X)''
                           else
                             bnd (aw_fel_read e ttbr0 (16 * 1024))
                               (\<lambda>raw.
                                  case mmu_tt_check (map (buf32 raw) [0..<4096]) [0..<4096] of
                                    Some msg \<Rightarrow> fatal msg
                                  | None \<Rightarrow>
                                      thn (aw_fel_write e
                                             (words_le [0xee110f10, 0xe3c00001, 0xe3c00a01,
                                                        0xe3c00b02, 0xee010f10, 0xe12fff1e])
                                             (scratch_addr soc) 24)
                                        (thn (aw_fel_execute e (scratch_addr soc))
                                           (ret (Some (map (buf32 raw) [0..<4096])))))))) s1)"
  unfolding aw_backup_and_disable_mmu_def sctlr_mask Let_def
  by (subst bnd_step [where m = "aw_get_sctlr e soc", OF assms])
     (simp add: fatal_eq and_1_eq_0_iff ret_def)

lemma backup_after_reads:
  assumes "aw_get_dacr e soc s1 = (s2, Returned dacr)"
    and "aw_get_ttbcr e soc s2 = (s3, Returned ttbcr)"
    and "aw_get_ttbr0 e soc s3 = (s4, Returned ttbr0)"
    and "aw_fel_read e ttbr0 (16 * 1024) s4 = (s5, Returned raw)"
    and "dacr = 0x55555555" "ttbcr = 0" "ttbr0 AND 0x3FFF = 0"
  shows "bnd (aw_get_dacr e soc)
          (\<lambda>dacr.
             if dacr \<noteq> 0x55555555 then fatal ''Unexpected DACR (%08X)''
             else
               bnd (aw_get_ttbcr e soc)
                 (\<lambda>ttbcr.
                    if ttbcr \<noteq> 0x00000000 then fatal ''Unexpected TTBCR (%08X)''
                    else
                      bnd (aw_get_ttbr0 e soc)
                        (\<lambda>ttbr0.
                           if ttbr0 AND 0x3FFF \<noteq> 0 then fatal ''Unexpected TTBR0 (%08X)''
                           else bnd (aw_fel_read e ttbr0 (16 * 1024)) k))) s1 = k raw s5"
  by (simp add: assms(5-7) bnd_step [where m = "aw_get_dacr e soc", OF assms(1) [unfolded assms(5)]]
      bnd_step [where m = "aw_get_ttbcr e soc", OF assms(2) [unfolded assms(6)]]
      bnd_step [where m = "aw_get_ttbr0 e soc", OF assms(3)]
      bnd_step [where m = "aw_fel_read e ttbr0 16384", OF assms(4) [simplified]])

lemma backup_Some_shape:
  assumes "aw_backup_and_disable_mmu e soc s = (s', Returned (Some tt))"
  shows "length tt = 4096 \<and> (\<forall>i<4096. mmu_section_shape tt i)"
proof -
  from assms obtain raw where tt: "tt = map (buf32 raw) [0..<4096]"
    and chk: "mmu_tt_check (map (buf32 raw) [0..<4096]) [0..<4096] = None"
    unfolding aw_backup_and_disable_mmu_def Let_def
    by (auto simp: bnd_Returned thn_Returned fatal_eq split: if_splits option.splits)
  from chk have "\<forall>i<4096. mmu_section_shape tt i"
    unfolding tt by (simp only: mmu_tt_check_all)
  then show ?thesis by (simp add: tt)
qed

subsection \<open>The eGON header\<close>

lemma fold_minus_sum:
  "fold (\<lambda>i c. c - f i) idx (c :: u32) = c - sum_list (map f idx)"
  by (induction idx arbitrary: c) (simp_all add: algebra_simps)

lemma spl_checksum_loop_sum:
  "spl_checksum_loop buf len c = c - sum_list (map (buf32 buf) [0..<len div 4])"
  by (simp add: spl_checksum_loop_def fold_minus_sum)

lemma word_mod4: "(w :: u32) mod 4 = 0 \<longleftrightarrow> unat w mod 4 = 0"
proof -
  have "unat (w mod 4) = unat w mod 4" by (simp add: unat_mod)
  then show ?thesis by (metis unat_eq_zero unsigned_0)
qed

lemma spl_header_checks:
  assumes "aw_fel_get_soc_info e s = (s1, Returned soc)" and "swap_buffers soc = Some swaps"
  shows "aw_fel_write_and_execute_spl e buf s =
     (if length buf < 32 \<or> take 8 (drop 4 buf) \<noteq> bytes_of ''eGON.BT0''
      then (s1\<lparr>stderr_out := stderr_out s1 @ [''SPL: eGON header is not found'']\<rparr>, Exited 1)
      else if unat (buf32 buf 4) > length buf \<or> unat (buf32 buf 4) mod 4 \<noteq> 0
      then (s1\<lparr>stderr_out := stderr_out s1 @ [''SPL: bad length in the eGON header'']\<rparr>, Exited 1)
      else if 2 * buf32 buf 3 - 0x5F0A6C39
                - sum_list (map (buf32 buf) [0..<unat (buf32 buf 4) div 4]) \<noteq> 0
      then (s1\<lparr>stderr_out := stderr_out s1 @ [''SPL: checksum check failed'']\<rparr>, Exited 1)
      else spl_upload_and_run e soc swaps (buf32 buf 4) buf s1)"
  unfolding aw_fel_write_and_execute_spl_def Let_def
  by (subst bnd_step [where m = "aw_fel_get_soc_info e", OF assms(1)])
     (simp add: assms(2) fatal_eq spl_checksum_loop_sum word_mod4)

lemma length_fel_write_xfers:
  "0 < n \<Longrightarrow> length (fel_write_xfers buf a n) = 9"
  by (simp add: fel_write_xfers_def fel_request_xfers_def aw_usb_write_xfers_def out_xfers_def
      fel_status_xfers_def aw_usb_read_xfers_def in_xfers_def)

subsection \<open>The sample devices and images\<close>

lemma transport_ok_env_regs: "transport_ok (env_regs regs)"
  by (simp add: transport_ok_def env_regs_def upt_5 bytes_of_def)

lemma length_fel_xfers [simp]:
  "length (fel_request_xfers t a l) = 3"
  "length fel_status_xfers = 3"
  "length (fel_execute_xfers a) = 6"
  by (simp_all add: fel_request_xfers_def aw_usb_write_xfers_def out_xfers_def
      fel_status_xfers_def aw_usb_read_xfers_def in_xfers_def fel_execute_xfers_def)

lemma length_fel_read_xfers [simp]: "0 < n \<Longrightarrow> length (fel_read_xfers a n) = 9"
  by (simp add: fel_read_xfers_def aw_usb_read_xfers_def in_xfers_def)

lemma length_cp_xfers [simp]:
  "length (cp_read_history soc opc) = 19"
  "length (cp_read_xfers soc opc) = 24"
  "length (cp_write_xfers soc opc v) = 15"
  by (simp_all add: cp_read_history_def cp_read_xfers_def cp_write_xfers_def length_fel_write_xfers)

lemma buf32_htole32: "buf32 (htole32 w) 0 = w"
  by (simp add: buf32_def htole32_def le32toh_htole32)

lemma usb_reply_regs4: "usb_reply (env_regs regs) h 4 = htole32 (regs (length h))"
  by (rule nth_equalityI) (simp_all add: usb_reply_def env_regs_def)

lemma cp_read_regs:
  "aw_read_arm_cp_reg (env_regs regs) soc coproc opc1 crn crm opc2 s =
     (emit (cp_read_xfers soc (mrc_opcode coproc opc1 crn crm opc2)) s,
      Returned (regs (length (usb_trace s) + 19)))"
  by (simp add: aw_read_arm_cp_reg_ok [OF transport_ok_env_regs] usb_reply_regs4 buf32_htole32)

lemma buf32_append4:
  "length xs = 4 \<Longrightarrow> buf32 (xs @ ys) (Suc i) = buf32 ys i"
  by (simp add: buf32_def nth_append add.commute)

lemma buf32_append0:
  "length xs = 4 \<Longrightarrow> buf32 (xs @ ys) 0 = buf32 xs 0"
  by (simp add: buf32_def nth_append)

lemma buf32_words_le: "i < length ws \<Longrightarrow> buf32 (words_le ws) i = ws ! i"
proof (induction ws arbitrary: i)
  case Nil
  then show ?case by simp
next
  case (Cons w ws)
  show ?case
  proof (cases i)
    case 0
    then show ?thesis by (simp add: buf32_append0 buf32_htole32)
  next
    case (Suc j)
    with Cons show ?thesis by (simp add: buf32_append4)
  qed
qed

lemma usb_reply_regs_table:
  "usb_reply (env_regs regs) h 16384 = words_le aw_generate_mmu_translation_table"
  by (rule nth_equalityI)
     (simp_all add: usb_reply_def env_regs_def aw_generate_mmu_translation_table_nth(1))

lemma table_of_reply:
  "map (buf32 (words_le aw_generate_mmu_translation_table)) [0..<4096]
     = aw_generate_mmu_translation_table"
  by (rule nth_equalityI)
     (simp_all add: aw_generate_mmu_translation_table_nth(1) buf32_words_le)

lemma sctlr_mmu_off:
  "aw_get_sctlr (env_regs regs_mmu_off) soc_sample st_probed =
     (emit (cp_read_xfers soc_sample (mrc_opcode 15 0 1 0 0)) st_probed, Returned 0x00C50038)"
  by (simp add: aw_get_sctlr_def cp_read_regs regs_mmu_off_def)

lemma backup_mmu_off:
  "aw_backup_and_disable_mmu (env_regs regs_mmu_off) soc_sample st_probed =
     (emit (cp_read_xfers soc_sample (mrc_opcode 15 0 1 0 0)) st_probed, Returned None)"
  by (simp add: backup_sctlr [OF sctlr_mmu_off] sctlr_ignored_bits_def)

lemma sample_tt_addr: "mmu_tt_addr soc_sample = 0x44000"
  by (simp add: soc_sample_def)

lemma generated_table_samples:
  "aw_generate_mmu_translation_table ! 5 = 0x00500DE2"
  "aw_generate_mmu_translation_table ! 0x400 = 0x40000DE2"
  "aw_generate_mmu_translation_table ! 0xFFF = 0xFFF01DE2"
  by (simp_all add: aw_generate_mmu_translation_table_nth)

lemma st_mmu_lengths:
  "length (usb_trace st_probed) = 0"
  "length (usb_trace st_sctlr) = 24"
  "length (usb_trace st_dacr) = 48"
  "length (usb_trace st_ttbcr) = 72"
  by (simp_all add: st_sctlr_def st_dacr_def st_ttbcr_def st_probed_def st_init_def)

lemma regs_mmu_on_reads:
  "aw_get_sctlr (env_regs regs_mmu_on) soc_sample st_probed = (st_sctlr, Returned 0x00C50039)"
  "aw_get_dacr (env_regs regs_mmu_on) soc_sample st_sctlr = (st_dacr, Returned 0x55555555)"
  "aw_get_ttbcr (env_regs regs_mmu_on) soc_sample st_dacr = (st_ttbcr, Returned 0)"
  "aw_get_ttbr0 (env_regs regs_mmu_on) soc_sample st_ttbcr = (st_ttbr0, Returned 0x20000)"
  "aw_fel_read (env_regs regs_mmu_on) 0x20000 (16 * 1024) st_ttbr0 =
     (st_table, Returned (words_le aw_generate_mmu_translation_table))"
  by (simp_all add: aw_get_sctlr_def aw_get_dacr_def aw_get_ttbcr_def aw_get_ttbr0_def
      cp_read_regs st_mmu_lengths regs_mmu_on_def aw_fel_read_ok [OF transport_ok_env_regs]
      usb_reply_regs_table
      st_sctlr_def [symmetric] st_dacr_def [symmetric] st_ttbcr_def [symmetric]
      st_ttbr0_def [symmetric] st_table_def [symmetric])

lemma sctlr_zero:
  "aw_get_sctlr (env_regs (\<lambda>n. 0)) soc_sample st_probed = (st_sctlr, Returned 0)"
  by (simp add: aw_get_sctlr_def cp_read_regs st_sctlr_def)

lemma sctlr_samples:
  "(0x00C50039 :: u32) AND NOT sctlr_ignored_bits = 0x00C50038" "bit (0x00C50039 :: u32) 0"
  "(0x00C50038 :: u32) AND NOT sctlr_ignored_bits = 0x00C50038" "\<not> bit (0x00C50038 :: u32) 0"
  "(0 :: u32) AND NOT sctlr_ignored_bits \<noteq> 0x00C50038"
  by (simp_all add: sctlr_ignored_bits_def)

lemma sample_scratch: "scratch_addr soc_sample = 0x1000"
  by (simp add: soc_sample_def)

lemma st_sctlr_stderr: "stderr_out st_sctlr = []"
  by (simp add: st_sctlr_def st_probed_def st_init_def)

lemma soc_probed: "aw_fel_get_soc_info e st_probed = (st_probed, Returned soc_sample)"
  by (simp add: aw_fel_get_soc_info_cached st_probed_def)

lemma sample_swaps: "swap_buffers soc_sample = Some swaps_sample"
  by (simp add: soc_sample_def swaps_sample_def)

lemma st_probed_stderr: "stderr_out st_probed = []"
  by (simp add: st_probed_def st_init_def)

lemma upt_8: "[0..<8] = [0, 1, 2, 3, 4, 5, 6, 7]"
  by (simp add: upt_rec)

lemma egon_sample_words:
  "length egon_sample = 32"
  "take 8 (drop 4 egon_sample) = bytes_of ''eGON.BT0''"
  "buf32 egon_sample 3 = 0xDDADF5EC"
  "buf32 egon_sample 4 = 0x20"
  "map (buf32 egon_sample) [0..<8] = [0, 0x4E4F4765, 0x3054422E, 0xDDADF5EC, 0x20, 0, 0, 0]"
  by (simp_all add: egon_sample_def bytes_of_def byte_of_char_def htole32_def buf32_def
      le32toh_def upt_8)

lemma egon_sample_len: "buf32 egon_sample 4 = 0x20"
  by (rule egon_sample_words(4))

lemma egon_sample_accepts: "egon_accepts egon_sample"
  by (simp add: egon_accepts_def egon_sample_words)

lemma egon_zero_sig: "replicate 8 (0 :: u8) \<noteq> bytes_of ''eGON.BT0''"
proof
  assume "replicate 8 (0 :: u8) = bytes_of ''eGON.BT0''"
  then have "replicate 8 (0 :: u8) ! 0 = bytes_of ''eGON.BT0'' ! 0"
    by (rule arg_cong)
  then show False
    by (simp add: bytes_of_def byte_of_char_def)
qed

lemma egon_zero_rejected: "\<not> egon_accepts (replicate 32 0)"
  by (simp add: egon_accepts_def egon_zero_sig)

subsection \<open>The upload loop\<close>

lemma writes_xfers_simps [simp]:
  "writes_xfers [] = []"
  "writes_xfers (w # ws) = fel_write_xfers (snd w) (fst w) (length (snd w)) @ writes_xfers ws"
  "writes_xfers (xs @ ys) = writes_xfers xs @ writes_xfers ys"
  by (simp_all add: writes_xfers_def)

lemma write_at_Nil [simp]: "write_at a [] = []"
  by (simp add: write_at_def)

lemma fel_write_xfers_take:
  "n \<le> length buf \<Longrightarrow> fel_write_xfers (take n buf) a (length (take n buf)) = fel_write_xfers buf a n"
  by (simp add: fel_write_xfers_def aw_usb_write_xfers_def out_xfers_def min_def)

lemma swap_step_writes_ascending:
  assumes sz: "size sw \<noteq> 0" and asc: "rem = [] \<or> unat cur \<le> unat (buf1 sw)"
  defines "n1 \<equiv> min (unat (buf1 sw) - unat cur) (length rem)"
  defines "n2 \<equiv> min (unat (size sw)) (length (drop n1 rem))"
  shows "fst (swap_step_writes sw cur rem) =
           write_at cur (take n1 rem) @ write_at (buf2 sw) (take n2 (drop n1 rem))"
    and "snd (snd (swap_step_writes sw cur rem)) = drop n2 (drop n1 rem)"
    and "drop n2 (drop n1 rem) = [] \<or> fst (snd (swap_step_writes sw cur rem)) = buf1 sw + of_nat n2"
proof -
  have "fst (swap_step_writes sw cur rem) =
           write_at cur (take n1 rem) @ write_at (buf2 sw) (take n2 (drop n1 rem))
      \<and> snd (snd (swap_step_writes sw cur rem)) = drop n2 (drop n1 rem)
      \<and> (drop n2 (drop n1 rem) = [] \<or> fst (snd (swap_step_writes sw cur rem)) = buf1 sw + of_nat n2)"
  proof (cases "rem = []")
    case True
    then show ?thesis by (simp add: swap_step_writes_def n1_def n2_def)
  next
    case False
    with asc have le: "unat cur \<le> unat (buf1 sw)" by simp
    then have cle: "cur \<le> buf1 sw" by (simp add: word_le_nat_alt)
    have sub: "unat (buf1 sw - cur) = unat (buf1 sw) - unat cur"
      using cle by (simp add: unat_sub)
    show ?thesis
    proof (cases "cur = buf1 sw")
      case True
      then show ?thesis
        using False by (simp add: swap_step_writes_def n1_def n2_def Let_def)
    next
      case ne: False
      with cle have lt: "cur < buf1 sw" by simp
      have n1: "(if rem \<noteq> [] \<and> cur < buf1 sw then min (unat (buf1 sw - cur)) (length rem) else 0) = n1"
        using False lt by (simp add: n1_def sub)
      show ?thesis
      proof (cases "unat (buf1 sw) - unat cur \<le> length rem")
        case True
        then have n1v: "n1 = unat (buf1 sw - cur)" by (simp add: n1_def sub)
        have c1: "cur + of_nat n1 = buf1 sw" by (simp add: n1v)
        have n2: "(if drop n1 rem \<noteq> [] \<and> cur + of_nat n1 = buf1 sw
                   then min (unat (size sw)) (length (drop n1 rem)) else 0) = n2"
          unfolding c1 n2_def by simp
        show ?thesis
          unfolding swap_step_writes_def Let_def n1 n2 fst_conv snd_conv
          by (simp add: c1)
      next
        case short: False
        then have n1v: "n1 = length rem" by (simp add: n1_def)
        have d: "drop n1 rem = []" by (simp add: n1v)
        have n2v: "n2 = 0" by (simp add: n2_def d)
        show ?thesis
          unfolding swap_step_writes_def Let_def n1 fst_conv snd_conv
          by (simp add: d n2v)
      qed
    qed
  qed
  then show "fst (swap_step_writes sw cur rem) =
           write_at cur (take n1 rem) @ write_at (buf2 sw) (take n2 (drop n1 rem))"
    and "snd (snd (swap_step_writes sw cur rem)) = drop n2 (drop n1 rem)"
    and "drop n2 (drop n1 rem) = [] \<or> fst (snd (swap_step_writes sw cur rem)) = buf1 sw + of_nat n2"
    by blast+
qed

lemma unat_add_of_nat_le: "unat (a + of_nat n :: u32) \<le> unat a + n"
proof -
  have "unat (a + of_nat n :: u32) \<le> unat a + unat (of_nat n :: u32)"
    by (simp add: unat_word_ariths)
  also have "\<dots> \<le> unat a + n"
    by (simp add: unat_of_nat)
  finally show ?thesis .
qed

lemma thn_ret_unit: "thn m (ret ()) = (m :: unit fel)"
proof
  fix s show "thn m (ret ()) s = m s"
    by (cases "m s") (auto simp: thn_def bnd_def ret_def split: result.splits)
qed

lemma bnd_thn_ret: "bnd (thn m (ret x)) f = thn m (f x)"
  by (simp add: bnd_thn_assoc)

lemma do_writes_append: "do_writes e (xs @ ys) = thn (do_writes e xs) (do_writes e ys)"
  by (induction xs) (simp_all add: thn_thn_assoc)

lemma do_writes_ok:
  "transport_ok e \<Longrightarrow> do_writes e ws s = (emit (writes_xfers ws) s, Returned ())"
  by (induction ws arbitrary: s) (simp_all add: ret_def thn_step [OF aw_fel_write_ok])

lemma do_writes_write_at:
  assumes "0 < n" and "n \<le> length buf"
  shows "do_writes e (write_at a (take n buf)) = aw_fel_write e buf a n"
proof -
  have "take n buf \<noteq> []" using assms by auto
  then show ?thesis
    using assms(2) by (simp add: write_at_def thn_ret_unit aw_fel_write_take min_def)
qed

lemma cond_write_eq:
  assumes inv: "rest_len c \<le> length (rest_buf c)"
    and tmp: "P \<Longrightarrow> 0 < tmp \<and> tmp \<le> rest_len c"
  shows "(if P then thn (aw_fel_write e (rest_buf c) A tmp)
                       (ret (c\<lparr>cur_addr := cur_addr c + of_nat tmp,
                                 rest_buf := drop tmp (rest_buf c),
                                 rest_len := rest_len c - tmp\<rparr>))
          else ret c)
     = thn (do_writes e (write_at A (take (if P then tmp else 0) (take (rest_len c) (rest_buf c)))))
         (ret (c\<lparr>cur_addr := cur_addr c + of_nat (if P then tmp else 0),
                  rest_buf := drop (if P then tmp else 0) (rest_buf c),
                  rest_len := rest_len c - (if P then tmp else 0)\<rparr>))"
proof (cases P)
  case True
  from tmp [OF True] inv have le: "0 < tmp" "tmp \<le> length (rest_buf c)" "tmp \<le> rest_len c" by auto
  have "take tmp (take (rest_len c) (rest_buf c)) = take tmp (rest_buf c)"
    using le(3) by (simp add: min_def)
  then show ?thesis
    using True by (simp add: do_writes_write_at [OF le(1,2)])
next
  case False
  then show ?thesis by simp
qed

lemma spl_swap_walk_Nil [simp]:
  "fst (spl_swap_walk swaps cur []) = []" "snd (snd (spl_swap_walk swaps cur [])) = []"
  by (induction swaps arbitrary: cur) (simp_all add: Let_def)

lemma spl_swap_step_eq:
  assumes inv: "rest_len c \<le> length (rest_buf c)"
    and sz: "size sw \<noteq> 0"
  shows "\<exists>c'. spl_swap_step e soc sw c =
            thn (do_writes e (fst (swap_step_writes sw (cur_addr c) (take (rest_len c) (rest_buf c)))))
              (ret c')
     \<and> cur_addr c' = fst (snd (swap_step_writes sw (cur_addr c) (take (rest_len c) (rest_buf c))))
     \<and> take (rest_len c') (rest_buf c') = snd (snd (swap_step_writes sw (cur_addr c) (take (rest_len c) (rest_buf c))))
     \<and> rest_len c' \<le> length (rest_buf c')
     \<and> swap_index c' = swap_index c
     \<and> spl_len_limit c' =
          (if buf2 sw \<ge> spl_addr soc \<and> buf2 sw < spl_addr soc + spl_len_limit c
           then buf2 sw - spl_addr soc else spl_len_limit c)"
proof -
  define c0 where "c0 = (if buf2 sw \<ge> spl_addr soc \<and> buf2 sw < spl_addr soc + spl_len_limit c
               then c\<lparr>spl_len_limit := buf2 sw - spl_addr soc\<rparr> else c)"
  have c0: "cur_addr c0 = cur_addr c" "rest_buf c0 = rest_buf c" "rest_len c0 = rest_len c"
    "swap_index c0 = swap_index c"
    "spl_len_limit c0 = (if buf2 sw \<ge> spl_addr soc \<and> buf2 sw < spl_addr soc + spl_len_limit c
           then buf2 sw - spl_addr soc else spl_len_limit c)"
    by (simp_all add: c0_def)
  define P1 where "P1 \<longleftrightarrow> rest_len c0 > 0 \<and> cur_addr c0 < buf1 sw"
  define t1 where "t1 = min (unat (buf1 sw - cur_addr c0)) (rest_len c0)"
  have t1_alt: "t1 = (if unat (buf1 sw - cur_addr c0) > rest_len c0 then rest_len c0
                      else unat (buf1 sw - cur_addr c0))"
    by (simp add: t1_def min_def)
  define n1 where "n1 = (if P1 then t1 else 0)"
  define c1 where "c1 = c0\<lparr>cur_addr := cur_addr c0 + of_nat n1,
               rest_buf := drop n1 (rest_buf c0),
               rest_len := rest_len c0 - n1\<rparr>"
  define P2 where "P2 \<longleftrightarrow> rest_len c1 > 0 \<and> cur_addr c1 = buf1 sw"
  define t2 where "t2 = min (unat (size sw)) (rest_len c1)"
  have t2_alt: "t2 = (if unat (size sw) > rest_len c1 then rest_len c1 else unat (size sw))"
    by (simp add: t2_def min_def)
  define n2 where "n2 = (if P2 then t2 else 0)"
  define c2 where "c2 = c1\<lparr>cur_addr := cur_addr c1 + of_nat n2,
               rest_buf := drop n2 (rest_buf c1),
               rest_len := rest_len c1 - n2\<rparr>"
  have inv0: "rest_len c0 \<le> length (rest_buf c0)" using inv c0 by simp
  have pos1: "P1 \<Longrightarrow> 0 < t1 \<and> t1 \<le> rest_len c0"
  proof -
    assume P1
    then have "cur_addr c0 < buf1 sw" "0 < rest_len c0" by (simp_all add: P1_def)
    then have "buf1 sw - cur_addr c0 \<noteq> 0" by auto
    then have "0 < unat (buf1 sw - cur_addr c0)" by (simp add: unat_gt_0)
    with \<open>0 < rest_len c0\<close> show ?thesis by (simp add: t1_def)
  qed
  have n1le: "n1 \<le> rest_len c0" using pos1 by (auto simp: n1_def)
  have inv1: "rest_len c1 \<le> length (rest_buf c1)" using inv0 by (simp add: c1_def)
  have pos2: "P2 \<Longrightarrow> 0 < t2 \<and> t2 \<le> rest_len c1"
  proof -
    assume P2
    then have "0 < rest_len c1" by (simp add: P2_def)
    moreover have "0 < unat (size sw)" using sz by (simp add: unat_gt_0)
    ultimately show ?thesis by (simp add: t2_def)
  qed
  have n2le: "n2 \<le> rest_len c1" using pos2 by (auto simp: n2_def)
  have ph1: "(if P1 then thn (aw_fel_write e (rest_buf c0) (cur_addr c0) t1)
                       (ret (c0\<lparr>cur_addr := cur_addr c0 + of_nat t1,
                                 rest_buf := drop t1 (rest_buf c0),
                                 rest_len := rest_len c0 - t1\<rparr>))
                 else ret c0)
      = thn (do_writes e (write_at (cur_addr c0) (take n1 (take (rest_len c0) (rest_buf c0))))) (ret c1)"
    unfolding n1_def c1_def by (rule cond_write_eq [OF inv0 pos1])
  have ph2: "(if P2 then thn (aw_fel_write e (rest_buf c1) (buf2 sw) t2)
                       (ret (c1\<lparr>cur_addr := cur_addr c1 + of_nat t2,
                                 rest_buf := drop t2 (rest_buf c1),
                                 rest_len := rest_len c1 - t2\<rparr>))
                 else ret c1)
      = thn (do_writes e (write_at (buf2 sw) (take n2 (take (rest_len c1) (rest_buf c1))))) (ret c2)"
    unfolding n2_def c2_def by (rule cond_write_eq [OF inv1 pos2])
  define rem where "rem = take (rest_len c) (rest_buf c)"
  have len_rem: "length rem = rest_len c" using inv by (simp add: rem_def)
  have rem_ne: "rem \<noteq> [] \<longleftrightarrow> 0 < rest_len c" using len_rem by (cases rem) auto
  have rem1: "take (rest_len c1) (rest_buf c1) = drop n1 rem"
    using n1le c0 by (simp add: c1_def rem_def drop_take)
  have len_rem1: "length (drop n1 rem) = rest_len c1" using len_rem c0 by (simp add: c1_def)
  have rem1_ne: "drop n1 rem \<noteq> [] \<longleftrightarrow> 0 < rest_len c1"
    using len_rem1 by (cases "drop n1 rem") auto
  have n1_eq: "n1 = (if rem \<noteq> [] \<and> cur_addr c < buf1 sw
                     then min (unat (buf1 sw - cur_addr c)) (length rem) else 0)"
    by (simp add: n1_def P1_def t1_def c0 rem_ne len_rem)
  have n2_eq: "n2 = (if drop n1 rem \<noteq> [] \<and> cur_addr c + of_nat n1 = buf1 sw
                     then min (unat (size sw)) (length (drop n1 rem)) else 0)"
    unfolding rem1_ne len_rem1 by (simp add: n2_def P2_def t2_def c1_def c0)
  have W: "swap_step_writes sw (cur_addr c) rem =
      (write_at (cur_addr c) (take n1 rem) @ write_at (buf2 sw) (take n2 (drop n1 rem)),
       cur_addr c + of_nat n1 + of_nat n2, drop n2 (drop n1 rem))"
    unfolding swap_step_writes_def Let_def n1_eq [symmetric] n2_eq [symmetric] ..
  have step: "spl_swap_step e soc sw c =
      bnd (thn (do_writes e (write_at (cur_addr c0) (take n1 (take (rest_len c0) (rest_buf c0))))) (ret c1))
        (\<lambda>c. if rest_len c > 0 \<and> cur_addr c = buf1 sw then
               (let tmp = unat (size sw);
                    tmp = (if tmp > rest_len c then rest_len c else tmp)
                in thn (aw_fel_write e (rest_buf c) (buf2 sw) tmp)
                     (ret (c\<lparr>cur_addr := cur_addr c + of_nat tmp,
                               rest_buf := drop tmp (rest_buf c),
                               rest_len := rest_len c - tmp\<rparr>)))
             else ret c)"
    unfolding spl_swap_step_def c0_def [symmetric] Let_def
    using ph1 unfolding P1_def t1_alt by simp
  have "spl_swap_step e soc sw c =
      thn (do_writes e (write_at (cur_addr c0) (take n1 (take (rest_len c0) (rest_buf c0)))))
        (thn (do_writes e (write_at (buf2 sw) (take n2 (take (rest_len c1) (rest_buf c1))))) (ret c2))"
    unfolding step bnd_thn_ret
    using ph2 unfolding P2_def t2_alt Let_def by simp
  then have A: "spl_swap_step e soc sw c =
      thn (do_writes e (write_at (cur_addr c) (take n1 rem) @ write_at (buf2 sw) (take n2 (drop n1 rem))))
        (ret c2)"
    unfolding rem1 c0 rem_def [symmetric] by (simp add: do_writes_append thn_thn_assoc)
  have B: "cur_addr c2 = cur_addr c + of_nat n1 + of_nat n2"
    by (simp add: c2_def c1_def c0)
  have "take (rest_len c2) (rest_buf c2) = drop n2 (take (rest_len c1) (rest_buf c1))"
    using n2le by (simp add: c2_def drop_take)
  then have r': "take (rest_len c2) (rest_buf c2) = drop n2 (drop n1 rem)"
    by (simp add: rem1)
  have D: "rest_len c2 \<le> length (rest_buf c2)"
    using inv by (simp add: c2_def c1_def c0)
  have E: "swap_index c2 = swap_index c"
    by (simp add: c2_def c1_def c0)
  have F: "spl_len_limit c2 =
          (if buf2 sw \<ge> spl_addr soc \<and> buf2 sw < spl_addr soc + spl_len_limit c
           then buf2 sw - spl_addr soc else spl_len_limit c)"
    by (simp add: c2_def c1_def c0)
  show ?thesis
    unfolding rem_def [symmetric] W fst_conv snd_conv
    using A B r' D E F by blast
qed

lemma spl_swap_loop_eq:
  assumes "rest_len c \<le> length (rest_buf c)"
    and "take (rest_len c) (rest_buf c) = [] \<or> (swaps_ascending lo swaps \<and> unat (cur_addr c) \<le> lo)"
  shows "\<exists>c'. spl_swap_loop e soc swaps c =
            thn (do_writes e (spl_swap_writes swaps (cur_addr c) (take (rest_len c) (rest_buf c))))
              (ret c')
     \<and> rest_len c' \<le> length (rest_buf c')
     \<and> take (rest_len c') (rest_buf c')
          = snd (snd (spl_swap_walk swaps (cur_addr c) (take (rest_len c) (rest_buf c))))
     \<and> (take (rest_len c') (rest_buf c') = []
          \<or> cur_addr c' = fst (snd (spl_swap_walk swaps (cur_addr c) (take (rest_len c) (rest_buf c)))))
     \<and> swap_index c' = swap_index c + length (takeWhile (\<lambda>sw. size sw \<noteq> 0) swaps)
     \<and> spl_len_limit c' = swap_limit soc swaps (spl_len_limit c)"
  using assms
proof (induction swaps arbitrary: c lo)
  case Nil
  then show ?case
    by (intro exI [of _ c]) (simp add: spl_swap_writes_def)
next
  case (Cons sw rest)
  show ?case
  proof (cases "size sw = 0")
    case True
    with Cons.prems show ?thesis
      by (intro exI [of _ c]) (simp add: spl_swap_writes_def)
  next
    case sz: False
    define rem where "rem = take (rest_len c) (rest_buf c)"
    define n1 where "n1 = min (unat (buf1 sw) - unat (cur_addr c)) (length rem)"
    define n2 where "n2 = min (unat (size sw)) (length (drop n1 rem))"
    from spl_swap_step_eq [OF Cons.prems(1) sz, of e soc, folded rem_def] obtain c1 where
      st: "spl_swap_step e soc sw c =
             thn (do_writes e (fst (swap_step_writes sw (cur_addr c) rem))) (ret c1)"
      and R: "cur_addr c1 = fst (snd (swap_step_writes sw (cur_addr c) rem))"
        "take (rest_len c1) (rest_buf c1) = snd (snd (swap_step_writes sw (cur_addr c) rem))"
        "rest_len c1 \<le> length (rest_buf c1)"
        "swap_index c1 = swap_index c"
        "spl_len_limit c1 =
          (if buf2 sw \<ge> spl_addr soc \<and> buf2 sw < spl_addr soc + spl_len_limit c
           then buf2 sw - spl_addr soc else spl_len_limit c)"
      by blast
    have asc1: "rem = [] \<or> unat (cur_addr c) \<le> unat (buf1 sw)"
      using Cons.prems(2) sz by (auto simp: rem_def)
    note S = swap_step_writes_ascending [OF sz asc1, folded n1_def, folded n2_def]
    define c1' where "c1' = c1\<lparr>swap_index := swap_index c1 + 1\<rparr>"
    have f: "rest_len c1' = rest_len c1" "rest_buf c1' = rest_buf c1" "cur_addr c1' = cur_addr c1"
      "swap_index c1' = swap_index c + 1" "spl_len_limit c1' = spl_len_limit c1"
      using R by (simp_all add: c1'_def)
    have rem': "take (rest_len c1') (rest_buf c1') = drop n2 (drop n1 rem)"
      using R S(2) by (simp add: f)
    have inv': "rest_len c1' \<le> length (rest_buf c1')"
      using R by (simp add: f)
    have cur': "drop n2 (drop n1 rem) = [] \<or> cur_addr c1' = buf1 sw + of_nat n2"
      using R S(3) by (simp add: f)
    define lo' where "lo' = unat (buf1 sw) + unat (size sw)"
    have pre: "take (rest_len c1') (rest_buf c1') = []
         \<or> (swaps_ascending lo' rest \<and> unat (cur_addr c1') \<le> lo')"
    proof (cases "drop n2 (drop n1 rem) = []")
      case True
      then show ?thesis by (simp add: rem')
    next
      case False
      then have "rem \<noteq> []" by auto
      with Cons.prems(2) sz have a: "swaps_ascending lo' rest"
        by (auto simp: rem_def lo'_def)
      from False cur' have "cur_addr c1' = buf1 sw + of_nat n2" by simp
      moreover have "unat (buf1 sw + of_nat n2) \<le> unat (buf1 sw) + n2"
        by (rule unat_add_of_nat_le)
      moreover have "n2 \<le> unat (size sw)" by (simp add: n2_def)
      ultimately have "unat (cur_addr c1') \<le> lo'" by (simp add: lo'_def)
      with a show ?thesis by simp
    qed
    from Cons.IH [OF inv' pre] obtain c' where
      lp: "spl_swap_loop e soc rest c1' =
            thn (do_writes e (spl_swap_writes rest (cur_addr c1') (take (rest_len c1') (rest_buf c1'))))
              (ret c')"
      and L: "rest_len c' \<le> length (rest_buf c')"
        "take (rest_len c') (rest_buf c')
          = snd (snd (spl_swap_walk rest (cur_addr c1') (take (rest_len c1') (rest_buf c1'))))"
        "take (rest_len c') (rest_buf c') = []
          \<or> cur_addr c' = fst (snd (spl_swap_walk rest (cur_addr c1') (take (rest_len c1') (rest_buf c1'))))"
        "swap_index c' = swap_index c1' + length (takeWhile (\<lambda>sw. size sw \<noteq> 0) rest)"
        "spl_len_limit c' = swap_limit soc rest (spl_len_limit c1')"
      by blast
    have walk_tail: "spl_swap_walk rest (cur_addr c1') (take (rest_len c1') (rest_buf c1'))
        = spl_swap_walk rest (buf1 sw + of_nat n2) (drop n2 (drop n1 rem))
      \<or> (drop n2 (drop n1 rem) = [])"
      using cur' by (auto simp: rem')
    have tailW: "spl_swap_writes rest (cur_addr c1') (take (rest_len c1') (rest_buf c1'))
        = fst (spl_swap_walk rest (buf1 sw + of_nat n2) (drop n2 (drop n1 rem)))"
      using walk_tail by (auto simp: spl_swap_writes_def rem')
    have tailR: "snd (snd (spl_swap_walk rest (cur_addr c1') (take (rest_len c1') (rest_buf c1'))))
        = snd (snd (spl_swap_walk rest (buf1 sw + of_nat n2) (drop n2 (drop n1 rem))))"
      using walk_tail by (auto simp: rem')
    have tailC: "take (rest_len c') (rest_buf c') = []
          \<or> cur_addr c' = fst (snd (spl_swap_walk rest (buf1 sw + of_nat n2) (drop n2 (drop n1 rem))))"
      using L(2,3) walk_tail by (auto simp: rem')
    have walk: "spl_swap_walk (sw # rest) (cur_addr c) rem
        = (write_at (cur_addr c) (take n1 rem) @ write_at (buf2 sw) (take n2 (drop n1 rem))
             @ fst (spl_swap_walk rest (buf1 sw + of_nat n2) (drop n2 (drop n1 rem))),
           snd (spl_swap_walk rest (buf1 sw + of_nat n2) (drop n2 (drop n1 rem))))"
      using sz by (simp add: Let_def n1_def n2_def)
    let ?W1 = "write_at (cur_addr c) (take n1 rem) @ write_at (buf2 sw) (take n2 (drop n1 rem))"
    let ?Wt = "fst (spl_swap_walk rest (buf1 sw + of_nat n2) (drop n2 (drop n1 rem)))"
    have "spl_swap_loop e soc (sw # rest) c =
        bnd (spl_swap_step e soc sw c)
          (\<lambda>c. spl_swap_loop e soc rest (c\<lparr>swap_index := swap_index c + 1\<rparr>))"
      using sz by simp
    also have "\<dots> = thn (do_writes e ?W1) (spl_swap_loop e soc rest c1')"
      unfolding st S(1) bnd_thn_ret c1'_def ..
    also have "\<dots> = thn (do_writes e ?W1) (thn (do_writes e ?Wt) (ret c'))"
      unfolding lp tailW ..
    also have "\<dots> = thn (do_writes e (?W1 @ ?Wt)) (ret c')"
      by (simp only: do_writes_append thn_thn_assoc)
    also have "?W1 @ ?Wt = spl_swap_writes (sw # rest) (cur_addr c) rem"
      by (simp only: spl_swap_writes_def walk fst_conv append_assoc)
    finally have run: "spl_swap_loop e soc (sw # rest) c =
        thn (do_writes e (spl_swap_writes (sw # rest) (cur_addr c) rem)) (ret c')" .
    have lim: "spl_len_limit c' = swap_limit soc (sw # rest) (spl_len_limit c)"
      using sz L(5) R(5) by (simp add: f)
    have idx: "swap_index c' = swap_index c + length (takeWhile (\<lambda>sw. size sw \<noteq> 0) (sw # rest))"
      using L(4) sz by (simp add: f)
    have rest: "take (rest_len c') (rest_buf c') = snd (snd (spl_swap_walk (sw # rest) (cur_addr c) rem))"
      using L(2) tailR by (simp only: walk snd_conv)
    have cur: "take (rest_len c') (rest_buf c') = []
          \<or> cur_addr c' = fst (snd (spl_swap_walk (sw # rest) (cur_addr c) rem))"
      using tailC by (simp only: walk snd_conv)
    show ?thesis
      unfolding rem_def [symmetric]
      using run L(1) rest cur idx lim by blast
  qed
qed

lemma spl_write_image_eq:
  assumes len: "unat spl_len \<le> length buf"
    and asc: "swaps_ascending (unat (spl_addr soc)) swaps"
  shows "spl_write_image e soc swaps spl_len buf =
     thn (do_writes e (spl_swap_writes swaps (spl_addr soc) (take (unat spl_len) buf)))
       (if spl_len > spl_size_limit soc swaps
        then fatal ''SPL: too large (need %d, have %d)''
        else thn (do_writes e (spl_rest_write swaps (spl_addr soc) (take (unat spl_len) buf)))
               (ret (length (takeWhile (\<lambda>sw. size sw \<noteq> 0) swaps))))"
proof -
  define c0 where "c0 = \<lparr>swap_index = 0, spl_len_limit = SPL_LEN_LIMIT, cur_addr = spl_addr soc,
             rest_buf = buf, rest_len = unat spl_len\<rparr>"
  have inv0: "rest_len c0 \<le> length (rest_buf c0)" using len by (simp add: c0_def)
  have pre: "take (rest_len c0) (rest_buf c0) = []
       \<or> (swaps_ascending (unat (spl_addr soc)) swaps \<and> unat (cur_addr c0) \<le> unat (spl_addr soc))"
    using asc by (simp add: c0_def)
  define img where "img = take (unat spl_len) buf"
  from spl_swap_loop_eq [OF inv0 pre, of e soc] obtain c where
    lp: "spl_swap_loop e soc swaps c0 = thn (do_writes e (spl_swap_writes swaps (spl_addr soc) img)) (ret c)"
    and L: "rest_len c \<le> length (rest_buf c)"
      "take (rest_len c) (rest_buf c) = snd (snd (spl_swap_walk swaps (spl_addr soc) img))"
      "take (rest_len c) (rest_buf c) = [] \<or> cur_addr c = fst (snd (spl_swap_walk swaps (spl_addr soc) img))"
      "swap_index c = length (takeWhile (\<lambda>sw. size sw \<noteq> 0) swaps)"
      "spl_len_limit c = swap_limit soc swaps SPL_LEN_LIMIT"
    by (auto simp: c0_def img_def)
  have lim: "(if thunk_addr soc < spl_len_limit c then thunk_addr soc else spl_len_limit c)
      = spl_size_limit soc swaps"
    by (simp add: spl_size_limit_def L(5))
  have fin: "(if rest_len c > 0 then aw_fel_write e (rest_buf c) (cur_addr c) (rest_len c) else ret ())
      = do_writes e (spl_rest_write swaps (spl_addr soc) img)"
  proof (cases "rest_len c > 0")
    case True
    with L(1) have ne: "take (rest_len c) (rest_buf c) \<noteq> []" by auto
    with L(3) have cur: "cur_addr c = fst (snd (spl_swap_walk swaps (spl_addr soc) img))" by simp
    have "do_writes e (write_at (cur_addr c) (take (rest_len c) (rest_buf c)))
        = aw_fel_write e (rest_buf c) (cur_addr c) (rest_len c)"
      by (rule do_writes_write_at [OF True L(1)])
    then show ?thesis
      using True by (simp add: spl_rest_write_def L(2) [symmetric] cur [symmetric])
  next
    case False
    then have "take (rest_len c) (rest_buf c) = []" by simp
    then show ?thesis
      using False by (simp add: spl_rest_write_def L(2) [symmetric])
  qed
  show ?thesis
    unfolding spl_write_image_def c0_def [symmetric] img_def [symmetric] lp bnd_thn_ret Let_def lim fin L(4)
    ..
qed

lemma spl_write_image_ok:
  assumes "unat spl_len \<le> length buf" and "swaps_ascending (unat (spl_addr soc)) swaps"
    and "transport_ok e" and "spl_len \<le> spl_size_limit soc swaps"
  shows "spl_write_image e soc swaps spl_len buf s =
     (emit (writes_xfers (spl_image_writes swaps (spl_addr soc) (take (unat spl_len) buf))) s,
      Returned (length (takeWhile (\<lambda>sw. size sw \<noteq> 0) swaps)))"
proof -
  have "\<not> spl_len > spl_size_limit soc swaps" using assms(4) by simp
  then show ?thesis
    by (simp add: spl_write_image_eq [OF assms(1,2)] thn_step [OF do_writes_ok [OF assms(3)]]
        ret_def spl_image_writes_def)
qed

lemma spl_write_image_too_large:
  assumes "unat spl_len \<le> length buf" and "swaps_ascending (unat (spl_addr soc)) swaps"
    and "transport_ok e" and "spl_len > spl_size_limit soc swaps"
  shows "spl_write_image e soc swaps spl_len buf s =
     ((emit (writes_xfers (spl_swap_writes swaps (spl_addr soc) (take (unat spl_len) buf))) s)
        \<lparr>stderr_out := stderr_out s @ [''SPL: too large (need %d, have %d)'']\<rparr>,
      Exited 1)"
  using assms(4)
  by (simp add: spl_write_image_eq [OF assms(1,2)] thn_step [OF do_writes_ok [OF assms(3)]]
      fatal_eq)

lemma spl_swap_walk_example:
  assumes "0x2400 \<le> length img"
  shows "spl_swap_walk [\<lparr>buf1 = 0x2000, buf2 = 0xA000, size = 0x400\<rparr>,
                        \<lparr>buf1 = b1, buf2 = b2, size = 0\<rparr>] 0 img
     = ([(0, take 0x2000 img), (0xA000, take 0x400 (drop 0x2000 img))], 0x2400, drop 0x2400 img)"
proof -
  have a: "take 0x2000 img \<noteq> []" "take 0x400 (drop 0x2000 img) \<noteq> []"
    using assms by auto
  have m: "min (8192::nat) (length img) = 8192" "min (1024::nat) (length img - 8192) = 1024"
    using assms by simp_all
  show ?thesis
    using a assms by (auto simp: Let_def write_at_def m)
qed

lemma spl_limit_samples:
  "spl_size_limit soc_sample swaps_sample = 0x8000"
  "spl_size_limit soc_tight swaps_tight = 0x20"
  by (simp_all add: spl_size_limit_def swaps_sample_def swaps_tight_def soc_sample_def soc_tight_def
      SPL_LEN_LIMIT_def)

lemma swaps_samples_ascending:
  "swaps_ascending (unat (spl_addr soc_sample)) swaps_sample"
  "swaps_ascending (unat (spl_addr soc_tight)) swaps_tight"
  "swaps_ascending 0 swaps_sample"
  "swaps_ascending 0 swaps_tight"
  by (simp_all add: swaps_sample_def swaps_tight_def soc_sample_def soc_tight_def)

lemma spl_addr_samples:
  "spl_addr soc_sample = 0" "spl_addr soc_tight = 0" "spl_addr soc_unsorted = 0"
  by (simp_all add: soc_sample_def soc_tight_def soc_unsorted_def)

lemma takeWhile_samples:
  "length (takeWhile (\<lambda>sw. size sw \<noteq> 0) swaps_sample) = 1"
  "length (takeWhile (\<lambda>sw. size sw \<noteq> 0) swaps_tight) = 1"
  by (simp_all add: swaps_sample_def swaps_tight_def)

subsection \<open>The rounds on a working transport\<close>

lemma soc_info_run:
  "transport_ok e \<Longrightarrow> aw_fel_get_soc_info e s = (soc_state e s, Returned (soc_rec e s))"
  by (cases "soc_result s")
     (simp_all add: aw_fel_get_soc_info_ok aw_fel_get_soc_info_cached soc_state_def soc_rec_def)

lemma soc_state_cached [simp]:
  "soc_result (soc_state e s) = Some (soc_rec e s)"
  by (cases "soc_result s") (simp_all add: soc_state_def soc_rec_def)

lemma soc_of_cached:
  "soc_result s = Some r \<Longrightarrow> soc_state e s = s"
  "soc_result s = Some r \<Longrightarrow> soc_rec e s = r"
  by (simp_all add: soc_state_def soc_rec_def)

lemma soc_after_emit [simp]:
  "soc_state e (emit xs (soc_state e s)) = emit xs (soc_state e s)"
  "soc_rec e (emit xs (soc_state e s)) = soc_rec e s"
  by (simp_all add: soc_of_cached [where r = "soc_rec e s"])

lemma writel_round_ok:
  assumes "transport_ok e" and "0 < snd (snd r)" and "snd (snd r) \<le> 244"
  shows "aw_fel_writel_n e (fst r) (\<lambda>i. src (fst (snd r) + i)) (snd (snd r)) s =
     (emit (writel_round_xfers (soc_rec e s) src r) (soc_state e s), Returned ())"
proof -
  have m: "min (snd (snd r)) 244 = snd (snd r)" "\<not> snd (snd r) > 244" using assms(3) by simp_all
  show ?thesis
    by (simp add: aw_fel_writel_n_pos [OF assms(2)] m bnd_step [OF soc_info_run [OF assms(1)]]
        thn_step [OF aw_fel_write_ok [OF assms(1)]] aw_fel_execute_ok [OF assms(1)]
        writel_round_xfers_def writel_payload_def)
qed

lemma readl_round_ok:
  assumes "transport_ok e" and "0 < snd (snd r)" and "snd (snd r) \<le> 244"
  shows "aw_fel_readl_n e (fst r) (snd (snd r)) s =
     (emit (readl_round_xfers (soc_rec e s) r) (soc_state e s),
      Returned (map (buf32 (usb_reply e (usb_trace (soc_state e s) @ readl_round_asked (soc_rec e s) r)
                              (4 * snd (snd r)))) [0..<snd (snd r)]))"
proof -
  have m: "min (snd (snd r)) 244 = snd (snd r)" "\<not> snd (snd r) > 244" using assms(3) by simp_all
  show ?thesis
    by (simp add: aw_fel_readl_n_pos [OF assms(2)] m bnd_step [OF soc_info_run [OF assms(1)]]
        thn_step [OF aw_fel_write_ok [OF assms(1)]] thn_step [OF aw_fel_execute_ok [OF assms(1)]]
        bnd_step [OF aw_fel_read_ok [OF assms(1)]] ret_def
        readl_round_xfers_def readl_round_asked_def)
qed

lemma writel_rounds_ok:
  assumes "transport_ok e" and "\<forall>r \<in> set rs. 0 < snd (snd r) \<and> snd (snd r) \<le> 244"
  shows "writel_rounds e src rs s =
     (if rs = [] then s
      else emit (concat (map (writel_round_xfers (soc_rec e s) src) rs)) (soc_state e s),
      Returned ())"
  using assms(2)
proof (induction rs arbitrary: s)
  case Nil
  then show ?case by (simp add: ret_def)
next
  case (Cons r rs)
  then have r: "0 < snd (snd r)" "snd (snd r) \<le> 244"
    and rs: "\<forall>r \<in> set rs. 0 < snd (snd r) \<and> snd (snd r) \<le> 244"
    by simp_all
  show ?case
    by (simp add: thn_step [OF writel_round_ok [OF assms(1) r, where src = src]] Cons.IH [OF rs])
qed

lemma readl_rounds_ok:
  assumes "transport_ok e" and "\<forall>r \<in> set rs. 0 < snd (snd r) \<and> snd (snd r) \<le> 244"
  shows "readl_rounds e rs s =
     (if rs = [] then s
      else emit (concat (map (readl_round_xfers (soc_rec e s)) rs)) (soc_state e s),
      Returned (readl_rounds_words e (soc_rec e s) (usb_trace (soc_state e s)) rs))"
  using assms(2)
proof (induction rs arbitrary: s)
  case Nil
  then show ?case by (simp add: ret_def)
next
  case (Cons r rs)
  then have r: "0 < snd (snd r)" "snd (snd r) \<le> 244"
    and rs: "\<forall>r \<in> set rs. 0 < snd (snd r) \<and> snd (snd r) \<le> 244"
    by simp_all
  show ?case
    by (simp add: bnd_step [OF readl_round_ok [OF assms(1) r]] Cons.IH [OF rs] bnd_def ret_def)
qed

lemma length_readl_rounds_words:
  "length (readl_rounds_words e soc h rs) = sum_list (map (\<lambda>r. snd (snd r)) rs)"
  by (induction rs arbitrary: h) simp_all

lemma fel_rounds_total:
  "sum_list (map (\<lambda>r. snd (snd r)) (fel_rounds addr off count)) = count"
proof -
  have "length (concat (map (\<lambda>r. map (\<lambda>j. (fst r + 4 * of_nat j, fst (snd r) + j)) [0..<snd (snd r)])
             (fel_rounds addr off count))) = count"
    by (simp only: fel_rounds_cover length_map length_upt minus_nat.diff_0)
  then show ?thesis
    by (simp add: length_concat comp_def)
qed

lemma fel_rounds_Nil: "fel_rounds addr off count = [] \<longleftrightarrow> count = 0"
  by (cases "count = 0") (simp_all add: fel_rounds_pos)

lemma fel_rounds_words:
  "concat (map (\<lambda>r. map (\<lambda>i. src (fst (snd r) + i)) [0..<snd (snd r)]) (fel_rounds addr 0 count))
     = map src [0..<count]"
proof -
  have "map (\<lambda>p. src (snd p))
          (concat (map (\<lambda>r. map (\<lambda>j. (fst r + 4 * of_nat j, fst (snd r) + j)) [0..<snd (snd r)])
             (fel_rounds addr 0 count)))
      = map (\<lambda>p. src (snd p)) (map (\<lambda>i. (addr + 4 * of_nat i, 0 + i)) [0..<count])"
    by (simp only: fel_rounds_cover)
  then show ?thesis
    by (simp add: map_concat comp_def)
qed

lemma st_probed_soc:
  "soc_state e st_probed = st_probed" "soc_rec e st_probed = soc_sample" "usb_trace st_probed = []"
  by (simp_all add: soc_state_def soc_rec_def st_probed_def st_init_def)

lemma fel_rounds_245:
  "fel_rounds 0x40000000 0 245 = [(0x40000000, 0, 244), (0x400003D0, 244, 1)]"
  by (simp add: fel_rounds_pos)

subsection \<open>Accepted images and their upload\<close>

lemma length_egon_image: "20 \<le> n \<Longrightarrow> length (egon_image n) = n"
  by (simp add: egon_image_def)

lemma buf32_words_le_append: "i < length ws \<Longrightarrow> buf32 (words_le ws @ zs) i = ws ! i"
proof (induction ws arbitrary: i)
  case Nil
  then show ?case by simp
next
  case (Cons w ws)
  show ?case
  proof (cases i)
    case 0
    then show ?thesis by (simp add: buf32_append0 buf32_htole32)
  next
    case (Suc j)
    with Cons show ?thesis by (simp add: buf32_append4)
  qed
qed

lemma buf32_zero_tail:
  assumes "length xs \<le> 4 * i" and "4 * i + 3 < length xs + k"
  shows "buf32 (xs @ replicate k 0) i = 0"
  using assms by (simp add: buf32_def nth_append le32toh_def)

lemma egon_image_words:
  "buf32 (egon_image n) 0 = 0"
  "buf32 (egon_image n) 1 = 0x4E4F4765"
  "buf32 (egon_image n) 2 = 0x3054422E"
  "buf32 (egon_image n) 3 = 0xDDADF5CC + of_nat n"
  "buf32 (egon_image n) 4 = of_nat n"
  "buf32 (egon_image n) (Suc 0) = 0x4E4F4765"
proof -
  define ws where "ws = [0, 0x4E4F4765, 0x3054422E, 0xDDADF5CC + of_nat n, of_nat n :: u32]"
  have l: "length ws = 5" by (simp add: ws_def)
  have e: "egon_image n = words_le ws @ replicate (n - 20) 0"
    by (simp add: egon_image_def ws_def)
  have w: "buf32 (egon_image n) i = ws ! i" if "i < 5" for i
    unfolding e by (rule buf32_words_le_append) (simp add: l that)
  show "buf32 (egon_image n) 0 = 0" using w [of 0] by (simp add: ws_def)
  show "buf32 (egon_image n) 1 = 0x4E4F4765" using w [of 1] by (simp add: ws_def)
  show "buf32 (egon_image n) 2 = 0x3054422E" using w [of 2] by (simp add: ws_def)
  show "buf32 (egon_image n) 3 = 0xDDADF5CC + of_nat n" using w [of 3] by (simp add: ws_def)
  show "buf32 (egon_image n) 4 = of_nat n" using w [of 4] by (simp add: ws_def)
  show "buf32 (egon_image n) (Suc 0) = 0x4E4F4765" using w [of 1] by (simp add: ws_def)
qed

lemma egon_image_zero:
  assumes "5 \<le> i" and "i < n div 4"
  shows "buf32 (egon_image n) i = 0"
  unfolding egon_image_def
  by (rule buf32_zero_tail) (use assms in simp_all)

lemma egon_image_sig: "take 8 (drop 4 (egon_image n)) = bytes_of ''eGON.BT0''"
  by (simp add: egon_image_def htole32_def bytes_of_def byte_of_char_def)

lemma sum_list_zero: "(\<And>x. x \<in> set xs \<Longrightarrow> f x = (0 :: u32)) \<Longrightarrow> sum_list (map f xs) = 0"
  by (induction xs) simp_all

lemma upt_5_split: "5 \<le> m \<Longrightarrow> [0..<m] = [0, 1, 2, 3, 4] @ [5..<m]"
proof -
  assume m: "5 \<le> m"
  have "[0..<5 + (m - 5)] = [0..<5] @ [5..<5 + (m - 5)]"
    by (rule upt_add_eq_append) simp
  with m show ?thesis by (simp add: upt_5)
qed

lemma egon_image_sum:
  assumes "32 \<le> n"
  shows "sum_list (map (buf32 (egon_image n)) [0..<n div 4])
     = 0x4E4F4765 + 0x3054422E + (0xDDADF5CC + of_nat n) + of_nat n"
proof -
  have m: "5 \<le> n div 4" using assms by simp
  have z: "sum_list (map (buf32 (egon_image n)) [5..<n div 4]) = 0"
    by (rule sum_list_zero) (simp add: egon_image_zero)
  show ?thesis
    unfolding upt_5_split [OF m]
    by (simp add: z egon_image_words)
qed

lemma egon_image_accepts:
  assumes "32 \<le> n" and "n mod 4 = 0" and "n < 2 ^ 32"
  shows "egon_accepts (egon_image n)"
proof -
  have u: "unat (of_nat n :: u32) = n"
    using assms(3) by (simp add: unat_of_nat)
  show ?thesis
    using assms
    by (simp add: egon_accepts_def length_egon_image egon_image_sig egon_image_words u egon_image_sum)
qed

lemma egon_accepts_len: "egon_accepts buf \<Longrightarrow> unat (buf32 buf 4) \<le> length buf"
  by (simp add: egon_accepts_def)

lemma spl_swap_walk_tight:
  assumes "0x18 \<le> length img"
  shows "spl_swap_walk swaps_tight 0 img
     = ([(0, take 0x10 img), (0x20, take 8 (drop 0x10 img))], 0x18, drop 0x18 img)"
proof -
  have a: "take 0x10 img \<noteq> []" "take 8 (drop 0x10 img) \<noteq> []"
    using assms by auto
  have m: "min (16::nat) (length img) = 16" "min (8::nat) (length img - 16) = 8"
    using assms by simp_all
  show ?thesis
    using a assms by (auto simp: swaps_tight_def Let_def write_at_def m)
qed

lemma spl_swap_walk_unsorted:
  assumes "0x2500 \<le> length img"
  shows "spl_swap_walk swaps_unsorted 0 img
     = ([(0, take 0x2000 img), (0xA000, take 0x400 (drop 0x2000 img)),
         (0xB000, take 0x100 (drop 0x2400 img))], 0x1100, drop 0x2500 img)"
proof -
  have a: "take 0x2000 img \<noteq> []" "take 0x400 (drop 0x2000 img) \<noteq> []"
    "take 0x100 (drop 0x2400 img) \<noteq> []"
    using assms by auto
  have m: "min (8192::nat) (length img) = 8192" "min (1024::nat) (length img - 8192) = 1024"
    "min (256::nat) (length img - 9216) = 256"
    using assms by simp_all
  show ?thesis
    using a assms by (auto simp: swaps_unsorted_def Let_def write_at_def m)
qed

lemma egon_image_len:
  "length (egon_image 0x2800) = 0x2800" "length (egon_image 0x40) = 0x40"
  "buf32 (egon_image 0x2800) 4 = 0x2800" "buf32 (egon_image 0x40) 4 = 0x40"
  by (simp_all add: length_egon_image egon_image_words)

lemma egon_images_accepted:
  "egon_accepts (egon_image 0x2800)" "egon_accepts (egon_image 0x40)"
  by (rule egon_image_accepts; simp)+

lemma spl_write_image_unsorted_img:
  "spl_write_image env_quiet soc_unsorted swaps_unsorted 0x2800 (egon_image 0x2800) st_probed
     = (emit (writes_xfers [(0, take 0x2000 (egon_image 0x2800)),
                            (0xA000, take 0x400 (drop 0x2000 (egon_image 0x2800))),
                            (0x2400, drop 0x2400 (egon_image 0x2800))]) st_probed, Returned 2)"
  by (simp add: spl_write_image_def swaps_unsorted_def spl_swap_step_def soc_sample_def
      soc_unsorted_def SPL_LEN_LIMIT_def Let_def egon_image_len
      thn_step [OF aw_fel_write_ok [OF transport_ok_env_quiet]]
      aw_fel_write_ok [OF transport_ok_env_quiet]
      bnd_def thn_def ret_def fel_write_xfers_def aw_usb_write_xfers_def out_xfers_def)

lemma spl_write_image_tight_img:
  "spl_write_image env_quiet soc_tight swaps_tight 0x40 (egon_image 0x40) st_probed
     = ((emit (writes_xfers [(0, take 0x10 (egon_image 0x40)),
                             (0x20, take 8 (drop 0x10 (egon_image 0x40)))]) st_probed)
          \<lparr>stderr_out := [''SPL: too large (need %d, have %d)'']\<rparr>, Exited 1)"
  using spl_write_image_too_large [where e = env_quiet and soc = soc_tight and swaps = swaps_tight
      and spl_len = "0x40" and buf = "egon_image 0x40" and s = st_probed]
  by (simp add: swaps_samples_ascending transport_ok_env_quiet spl_limit_samples spl_addr_samples
      spl_swap_writes_def spl_swap_walk_tight egon_image_len st_probed_stderr)

lemma spl_image_writes_imgs:
  "spl_image_writes swaps_tight 0 (egon_image 0x40)
     = [(0, take 0x10 (egon_image 0x40)), (0x20, take 8 (drop 0x10 (egon_image 0x40))),
        (0x18, drop 0x18 (egon_image 0x40))]"
  "spl_image_writes swaps_unsorted 0 (egon_image 0x2800)
     = [(0, take 0x2000 (egon_image 0x2800)), (0xA000, take 0x400 (drop 0x2000 (egon_image 0x2800))),
        (0xB000, take 0x100 (drop 0x2400 (egon_image 0x2800))),
        (0x1100, drop 0x2500 (egon_image 0x2800))]"
proof -
  have a: "drop 0x18 (egon_image 0x40) \<noteq> []" "drop 0x2500 (egon_image 0x2800) \<noteq> []"
    by (simp_all add: egon_image_len)
  show "spl_image_writes swaps_tight 0 (egon_image 0x40)
     = [(0, take 0x10 (egon_image 0x40)), (0x20, take 8 (drop 0x10 (egon_image 0x40))),
        (0x18, drop 0x18 (egon_image 0x40))]"
    using a(1)
    by (simp add: spl_image_writes_def spl_swap_writes_def spl_rest_write_def
        spl_swap_walk_tight egon_image_len write_at_def)
  show "spl_image_writes swaps_unsorted 0 (egon_image 0x2800)
     = [(0, take 0x2000 (egon_image 0x2800)), (0xA000, take 0x400 (drop 0x2000 (egon_image 0x2800))),
        (0xB000, take 0x100 (drop 0x2400 (egon_image 0x2800))),
        (0x1100, drop 0x2500 (egon_image 0x2800))]"
    using a(2)
    by (simp add: spl_image_writes_def spl_swap_writes_def spl_rest_write_def
        spl_swap_walk_unsorted egon_image_len write_at_def)
qed

subsection \<open>From the header checks to the upload\<close>

lemma thn_stackinfo_ok:
  "transport_ok e \<Longrightarrow> thn (aw_get_stackinfo e soc) n s = n (emit (stackinfo_xfers soc) s)"
  by (simp add: aw_get_stackinfo_def thn_thn_assoc thn_step [OF aw_fel_write_ok]
      thn_step [OF aw_fel_execute_ok] bnd_step [OF aw_fel_read_ok] thn_def [of "bnd _ _"] bnd_assoc
      stackinfo_xfers_def ret_def bnd_def [of "\<lambda>s. (s, _)"])

lemma spl_upload_and_run_at_upload:
  assumes "thn (if needs_l2en soc then aw_enable_l2_cache e soc else ret ())
             (thn (aw_get_stackinfo e soc) (spl_prepare_mmu e soc)) s1 = (s2, Returned tt)"
  shows "spl_upload_and_run e soc swaps spl_len buf s1 =
     bnd (spl_write_image e soc swaps spl_len buf) (spl_run_thunk e soc swaps tt) s2"
proof -
  have "spl_upload_and_run e soc swaps spl_len buf =
      bnd (thn (if needs_l2en soc then aw_enable_l2_cache e soc else ret ())
             (thn (aw_get_stackinfo e soc) (spl_prepare_mmu e soc)))
        (\<lambda>tt. bnd (spl_write_image e soc swaps spl_len buf) (spl_run_thunk e soc swaps tt))"
    unfolding spl_upload_and_run_def by (simp only: bnd_thn_assoc)
  then show ?thesis
    by (simp only: bnd_step [where m = "thn (if needs_l2en soc then aw_enable_l2_cache e soc else ret ())
             (thn (aw_get_stackinfo e soc) (spl_prepare_mmu e soc))", OF assms])
qed

lemma sctlr_mmu_off_any:
  "aw_get_sctlr (env_regs regs_mmu_off) soc s =
     (emit (cp_read_xfers soc (mrc_opcode 15 0 1 0 0)) s, Returned 0x00C50038)"
  by (simp add: aw_get_sctlr_def cp_read_regs regs_mmu_off_def)

lemma backup_mmu_off_any:
  "aw_backup_and_disable_mmu (env_regs regs_mmu_off) soc s =
     (emit (cp_read_xfers soc (mrc_opcode 15 0 1 0 0)) s, Returned None)"
  by (simp add: backup_sctlr [OF sctlr_mmu_off_any] sctlr_ignored_bits_def)

lemma spl_prepare_mmu_off:
  "spl_prepare_mmu (env_regs regs_mmu_off) soc_sample s =
     (emit (cp_read_xfers soc_sample (mrc_opcode 15 0 1 0 0)
              @ cp_write_xfers soc_sample (mcr_opcode 15 0 3 0 0) 0x55555555
              @ cp_write_xfers soc_sample (mcr_opcode 15 0 2 0 2) 0
              @ cp_write_xfers soc_sample (mcr_opcode 15 0 2 0 0) 0x44000) s,
      Returned (Some aw_generate_mmu_translation_table))"
  by (simp add: spl_prepare_mmu_def bnd_step [OF backup_mmu_off_any] sample_tt_addr
      aw_set_dacr_def aw_set_ttbcr_def aw_set_ttbr0_def
      thn_step [OF aw_write_arm_cp_reg_ok [OF transport_ok_env_regs]] ret_def)

lemma spl_before_upload_sample:
  "thn (if needs_l2en soc_sample then aw_enable_l2_cache (env_regs regs_mmu_off) soc_sample else ret ())
     (thn (aw_get_stackinfo (env_regs regs_mmu_off) soc_sample)
        (spl_prepare_mmu (env_regs regs_mmu_off) soc_sample)) st_probed
   = (st_upload, Returned (Some aw_generate_mmu_translation_table))"
proof -
  have l2: "needs_l2en soc_sample = False" by (simp add: soc_sample_def)
  show ?thesis
    by (simp add: l2 thn_stackinfo_ok [OF transport_ok_env_regs] spl_prepare_mmu_off st_upload_def)
qed

section \<open>The claims\<close>

subsection \<open>C1: the order of the SPL upload\<close>

text \<open>
  Claim C1, as amended. For an image that \<^verbatim>\<open>aw_fel_write_and_execute_spl\<close> accepts
  (its first \<open>spl_len\<close> bytes are what is uploaded) and a swap list that is ascending
  from \<^verbatim>\<open>spl_addr\<close>, the upload is this sequence of calls: the FEL writes of
  \<open>spl_swap_writes\<close>, in order (for each swap entry the part of the remaining image
  from the cursor up to \<open>buf1\<close>, then the next \<open>min size remaining\<close> bytes at \<open>buf2\<close>,
  the cursor moving that far past \<open>buf1\<close>); then the check of the length against the
  size limit, which exits with status 1 when the image is larger; and only then the
  write of the remaining bytes at the cursor. On a transport that works the trace
  gets exactly the transfers of these writes: all of them for an image within the
  limit, those of the swap entries alone, followed by the exit, for a larger one.
  For the one entry \<open>{buf1 = 0x2000, buf2 = 0xA000, size = 0x400}\<close> with
  \<^verbatim>\<open>spl_addr = 0\<close> and an image of at least \<open>0x2400\<close> bytes, bytes \<open>[0, 0x2000)\<close> go
  to address 0, bytes \<open>[0x2000, 0x2400)\<close> to \<open>0xA000\<close>, and the rest to \<open>0x2400\<close>.
  Once the steps before the upload (L2 cache, stack pointers, MMU) have returned,
  \<^verbatim>\<open>aw_fel_write_and_execute_spl\<close> goes on with exactly this upload, and after it with
  the thunk.
\<close>

theorem spl_upload_swap_order:
  assumes "egon_accepts buf" and "swaps_ascending (unat (spl_addr soc)) swaps"
  shows "spl_write_image e soc swaps (buf32 buf 4) buf =
       thn (do_writes e (spl_swap_writes swaps (spl_addr soc) (take (unat (buf32 buf 4)) buf)))
         (if buf32 buf 4 > spl_size_limit soc swaps
          then fatal ''SPL: too large (need %d, have %d)''
          else thn (do_writes e (spl_rest_write swaps (spl_addr soc) (take (unat (buf32 buf 4)) buf)))
                 (ret (length (takeWhile (\<lambda>sw. size sw \<noteq> 0) swaps))))
     \<and> (transport_ok e \<and> buf32 buf 4 \<le> spl_size_limit soc swaps \<longrightarrow>
          spl_write_image e soc swaps (buf32 buf 4) buf s =
            (emit (writes_xfers
                     (spl_swap_writes swaps (spl_addr soc) (take (unat (buf32 buf 4)) buf)
                        @ spl_rest_write swaps (spl_addr soc) (take (unat (buf32 buf 4)) buf))) s,
             Returned (length (takeWhile (\<lambda>sw. size sw \<noteq> 0) swaps))))
     \<and> (transport_ok e \<and> buf32 buf 4 > spl_size_limit soc swaps \<longrightarrow>
          spl_write_image e soc swaps (buf32 buf 4) buf s =
            ((emit (writes_xfers
                      (spl_swap_writes swaps (spl_addr soc) (take (unat (buf32 buf 4)) buf))) s)
               \<lparr>stderr_out := stderr_out s @ [''SPL: too large (need %d, have %d)'']\<rparr>,
             Exited 1))
     \<and> (swaps = [\<lparr>buf1 = 0x2000, buf2 = 0xA000, size = 0x400\<rparr>, \<lparr>buf1 = 0, buf2 = 0, size = 0\<rparr>]
          \<and> spl_addr soc = 0 \<and> 0x2400 \<le> unat (buf32 buf 4) \<longrightarrow>
        spl_swap_writes swaps (spl_addr soc) (take (unat (buf32 buf 4)) buf)
          = [(0, take 0x2000 buf), (0xA000, take 0x400 (drop 0x2000 buf))]
        \<and> spl_rest_write swaps (spl_addr soc) (take (unat (buf32 buf 4)) buf)
          = write_at 0x2400 (drop 0x2400 (take (unat (buf32 buf 4)) buf)))
     \<and> (aw_fel_get_soc_info e s0 = (s1, Returned soc) \<and> swap_buffers soc = Some swaps
          \<and> thn (if needs_l2en soc then aw_enable_l2_cache e soc else ret ())
                (thn (aw_get_stackinfo e soc) (spl_prepare_mmu e soc)) s1 = (s2, Returned tt) \<longrightarrow>
        aw_fel_write_and_execute_spl e buf s0 =
          bnd (spl_write_image e soc swaps (buf32 buf 4) buf) (spl_run_thunk e soc swaps tt) s2)"
proof (intro conjI impI)
  note len = egon_accepts_len [OF assms(1)]
  show "spl_write_image e soc swaps (buf32 buf 4) buf =
       thn (do_writes e (spl_swap_writes swaps (spl_addr soc) (take (unat (buf32 buf 4)) buf)))
         (if buf32 buf 4 > spl_size_limit soc swaps
          then fatal ''SPL: too large (need %d, have %d)''
          else thn (do_writes e (spl_rest_write swaps (spl_addr soc) (take (unat (buf32 buf 4)) buf)))
                 (ret (length (takeWhile (\<lambda>sw. size sw \<noteq> 0) swaps))))"
    by (rule spl_write_image_eq [OF len assms(2)])
next
  note len = egon_accepts_len [OF assms(1)]
  assume "transport_ok e \<and> buf32 buf 4 \<le> spl_size_limit soc swaps"
  then show "spl_write_image e soc swaps (buf32 buf 4) buf s =
            (emit (writes_xfers
                     (spl_swap_writes swaps (spl_addr soc) (take (unat (buf32 buf 4)) buf)
                        @ spl_rest_write swaps (spl_addr soc) (take (unat (buf32 buf 4)) buf))) s,
             Returned (length (takeWhile (\<lambda>sw. size sw \<noteq> 0) swaps)))"
    using spl_write_image_ok [OF len assms(2), of e s] by (simp add: spl_image_writes_def)
next
  note len = egon_accepts_len [OF assms(1)]
  assume "transport_ok e \<and> buf32 buf 4 > spl_size_limit soc swaps"
  then show "spl_write_image e soc swaps (buf32 buf 4) buf s =
            ((emit (writes_xfers
                      (spl_swap_writes swaps (spl_addr soc) (take (unat (buf32 buf 4)) buf))) s)
               \<lparr>stderr_out := stderr_out s @ [''SPL: too large (need %d, have %d)'']\<rparr>,
             Exited 1)"
    using spl_write_image_too_large [OF len assms(2), of e s] by simp
next
  note len = egon_accepts_len [OF assms(1)]
  assume ex: "swaps = [\<lparr>buf1 = 0x2000, buf2 = 0xA000, size = 0x400\<rparr>, \<lparr>buf1 = 0, buf2 = 0, size = 0\<rparr>]
          \<and> spl_addr soc = 0 \<and> 0x2400 \<le> unat (buf32 buf 4)"
  define img where "img = take (unat (buf32 buf 4)) buf"
  from ex have n: "0x2400 \<le> unat (buf32 buf 4)" by simp
  have l: "0x2400 \<le> length img" using n len by (simp add: img_def)
  have t: "take 0x2000 img = take 0x2000 buf" "take 0x400 (drop 0x2000 img) = take 0x400 (drop 0x2000 buf)"
    using n by (simp_all add: img_def drop_take min_def)
  have w: "spl_swap_walk swaps (spl_addr soc) img
     = ([(0, take 0x2000 buf), (0xA000, take 0x400 (drop 0x2000 buf))], 0x2400, drop 0x2400 img)"
    using ex spl_swap_walk_example [OF l, of 0 0] by (simp only: t)
  show "spl_swap_writes swaps (spl_addr soc) (take (unat (buf32 buf 4)) buf)
          = [(0, take 0x2000 buf), (0xA000, take 0x400 (drop 0x2000 buf))]"
    unfolding img_def [symmetric] spl_swap_writes_def w by simp
  show "spl_rest_write swaps (spl_addr soc) (take (unat (buf32 buf 4)) buf)
          = write_at 0x2400 (drop 0x2400 (take (unat (buf32 buf 4)) buf))"
    unfolding img_def [symmetric] spl_rest_write_def w by simp
next
  assume h: "aw_fel_get_soc_info e s0 = (s1, Returned soc) \<and> swap_buffers soc = Some swaps
          \<and> thn (if needs_l2en soc then aw_enable_l2_cache e soc else ret ())
                (thn (aw_get_stackinfo e soc) (spl_prepare_mmu e soc)) s1 = (s2, Returned tt)"
  then have soc: "aw_fel_get_soc_info e s0 = (s1, Returned soc)"
    and sw: "swap_buffers soc = Some swaps"
    and pre: "thn (if needs_l2en soc then aw_enable_l2_cache e soc else ret ())
                (thn (aw_get_stackinfo e soc) (spl_prepare_mmu e soc)) s1 = (s2, Returned tt)"
    by simp_all
  have "aw_fel_write_and_execute_spl e buf s0 = spl_upload_and_run e soc swaps (buf32 buf 4) buf s1"
    using assms(1) unfolding spl_header_checks [OF soc sw] egon_accepts_def
    by (auto simp: not_le)
  then show "aw_fel_write_and_execute_spl e buf s0 =
          bnd (spl_write_image e soc swaps (buf32 buf 4) buf) (spl_run_thunk e soc swaps tt) s2"
    by (simp only: spl_upload_and_run_at_upload [OF pre])
qed

text \<open>
  On a working transport, two accepted images: one of \<open>0x2800\<close> bytes with the swap
  list of the example, which is uploaded in three writes, and one of \<open>0x40\<close> bytes
  where \<open>buf2\<close> leaves room for \<open>0x20\<close>, which is refused after two. And the whole
  function on a device with the MMU off, up to the thunk: the three writes follow
  the transfers of the stack pointer read and of the MMU step.
\<close>

theorem spl_upload_swap_order_witness:
  "egon_accepts (egon_image 0x2800)
   \<and> swaps_ascending (unat (spl_addr soc_sample)) swaps_sample
   \<and> transport_ok env_quiet
   \<and> buf32 (egon_image 0x2800) 4 \<le> spl_size_limit soc_sample swaps_sample
   \<and> spl_write_image env_quiet soc_sample swaps_sample (buf32 (egon_image 0x2800) 4)
        (egon_image 0x2800) st_probed
       = (emit (writes_xfers [(0, take 0x2000 (egon_image 0x2800)),
                              (0xA000, take 0x400 (drop 0x2000 (egon_image 0x2800))),
                              (0x2400, drop 0x2400 (egon_image 0x2800))]) st_probed, Returned 1)
   \<and> egon_accepts (egon_image 0x40)
   \<and> swaps_ascending (unat (spl_addr soc_tight)) swaps_tight
   \<and> buf32 (egon_image 0x40) 4 > spl_size_limit soc_tight swaps_tight
   \<and> spl_write_image env_quiet soc_tight swaps_tight (buf32 (egon_image 0x40) 4)
        (egon_image 0x40) st_probed
       = ((emit (writes_xfers [(0, take 0x10 (egon_image 0x40)),
                               (0x20, take 8 (drop 0x10 (egon_image 0x40)))]) st_probed)
            \<lparr>stderr_out := [''SPL: too large (need %d, have %d)'']\<rparr>, Exited 1)
   \<and> aw_fel_get_soc_info (env_regs regs_mmu_off) st_probed = (st_probed, Returned soc_sample)
   \<and> swap_buffers soc_sample = Some swaps_sample
   \<and> thn (if needs_l2en soc_sample
            then aw_enable_l2_cache (env_regs regs_mmu_off) soc_sample else ret ())
         (thn (aw_get_stackinfo (env_regs regs_mmu_off) soc_sample)
            (spl_prepare_mmu (env_regs regs_mmu_off) soc_sample)) st_probed
       = (st_upload, Returned (Some aw_generate_mmu_translation_table))
   \<and> aw_fel_write_and_execute_spl (env_regs regs_mmu_off) (egon_image 0x2800) st_probed
       = spl_run_thunk (env_regs regs_mmu_off) soc_sample swaps_sample
           (Some aw_generate_mmu_translation_table) 1
           (emit (writes_xfers [(0, take 0x2000 (egon_image 0x2800)),
                                (0xA000, take 0x400 (drop 0x2000 (egon_image 0x2800))),
                                (0x2400, drop 0x2400 (egon_image 0x2800))]) st_upload)"
proof -
  have a: "drop 0x2400 (egon_image 0x2800) \<noteq> []"
    by (simp add: egon_image_len)
  have w: "spl_swap_walk swaps_sample 0 (egon_image 0x2800)
     = ([(0, take 0x2000 (egon_image 0x2800)), (0xA000, take 0x400 (drop 0x2000 (egon_image 0x2800)))],
        0x2400, drop 0x2400 (egon_image 0x2800))"
    unfolding swaps_sample_def by (rule spl_swap_walk_example) (simp add: egon_image_len)
  note up = spl_upload_swap_order [where e = "env_regs regs_mmu_off" and soc = soc_sample
        and swaps = swaps_sample and buf = "egon_image 0x2800" and s = st_upload
        and ?s0.0 = st_probed and ?s1.0 = st_probed and ?s2.0 = st_upload
        and tt = "Some aw_generate_mmu_translation_table", THEN conjunct2]
  show ?thesis
    using spl_upload_swap_order [where e = env_quiet and soc = soc_sample and swaps = swaps_sample
        and buf = "egon_image 0x2800" and s = st_probed, THEN conjunct2, THEN conjunct1]
      spl_upload_swap_order [where e = env_quiet and soc = soc_tight and swaps = swaps_tight
        and buf = "egon_image 0x40" and s = st_probed, THEN conjunct2, THEN conjunct2, THEN conjunct1]
      up [THEN conjunct1]
      up [THEN conjunct2, THEN conjunct2, THEN conjunct2]
      a
    by (simp add: swaps_samples_ascending transport_ok_env_quiet transport_ok_env_regs
        spl_limit_samples spl_addr_samples
        spl_swap_writes_def spl_rest_write_def w spl_swap_walk_tight egon_image_len
        egon_images_accepted st_probed_stderr write_at_def takeWhile_samples
        soc_probed sample_swaps spl_before_upload_sample
        bnd_step [where m = "spl_write_image (env_regs regs_mmu_off) soc_sample swaps_sample 0x2800 (egon_image 0x2800)"])
qed

text \<open>
  As stated, for every upload with a swap list, the claim fails twice. The remaining
  bytes are written only after the size check: the image of \<open>0x40\<close> bytes above gets
  its two swap writes and then the exit, where the wording of the claim has a third
  write, of \<open>0x28\<close> bytes at \<open>0x18\<close>. And the loop relocates an entry only when the
  cursor arrives exactly at its \<open>buf1\<close>: with a second entry whose \<open>buf1\<close>
  (\<open>0x1000\<close>) lies below the cursor (\<open>0x2400\<close>), the code writes nothing to its
  \<open>buf2\<close> and sends the rest to \<open>0x2400\<close>, where the wording of the claim has
  \<open>0x100\<close> bytes go to \<open>0xB000\<close> and the rest to \<open>0x1100\<close>.
\<close>

theorem spl_upload_order_counterexample:
  "egon_accepts (egon_image 0x40)
   \<and> spl_write_image env_quiet soc_tight swaps_tight (buf32 (egon_image 0x40) 4)
        (egon_image 0x40) st_probed
     = ((emit (writes_xfers [(0, take 0x10 (egon_image 0x40)),
                             (0x20, take 8 (drop 0x10 (egon_image 0x40)))]) st_probed)
          \<lparr>stderr_out := [''SPL: too large (need %d, have %d)'']\<rparr>, Exited 1)
   \<and> spl_image_writes swaps_tight (spl_addr soc_tight)
         (take (unat (buf32 (egon_image 0x40) 4)) (egon_image 0x40))
     = [(0, take 0x10 (egon_image 0x40)), (0x20, take 8 (drop 0x10 (egon_image 0x40))),
        (0x18, drop 0x18 (egon_image 0x40))]
   \<and> egon_accepts (egon_image 0x2800)
   \<and> spl_write_image env_quiet soc_unsorted swaps_unsorted (buf32 (egon_image 0x2800) 4)
        (egon_image 0x2800) st_probed
     = (emit (writes_xfers [(0, take 0x2000 (egon_image 0x2800)),
                            (0xA000, take 0x400 (drop 0x2000 (egon_image 0x2800))),
                            (0x2400, drop 0x2400 (egon_image 0x2800))]) st_probed, Returned 2)
   \<and> spl_image_writes swaps_unsorted (spl_addr soc_unsorted)
         (take (unat (buf32 (egon_image 0x2800) 4)) (egon_image 0x2800))
     = [(0, take 0x2000 (egon_image 0x2800)), (0xA000, take 0x400 (drop 0x2000 (egon_image 0x2800))),
        (0xB000, take 0x100 (drop 0x2400 (egon_image 0x2800))),
        (0x1100, drop 0x2500 (egon_image 0x2800))]
   \<and> writes_xfers [(0, take 0x2000 (egon_image 0x2800)),
                    (0xA000, take 0x400 (drop 0x2000 (egon_image 0x2800))),
                    (0x2400, drop 0x2400 (egon_image 0x2800))]
     \<noteq> writes_xfers [(0, take 0x2000 (egon_image 0x2800)),
                      (0xA000, take 0x400 (drop 0x2000 (egon_image 0x2800))),
                      (0xB000, take 0x100 (drop 0x2400 (egon_image 0x2800))),
                      (0x1100, drop 0x2500 (egon_image 0x2800))]"
proof -
  let ?A = "writes_xfers [(0, take 0x2000 (egon_image 0x2800)),
                    (0xA000, take 0x400 (drop 0x2000 (egon_image 0x2800))),
                    (0x2400, drop 0x2400 (egon_image 0x2800))]"
  let ?B = "writes_xfers [(0, take 0x2000 (egon_image 0x2800)),
                      (0xA000, take 0x400 (drop 0x2000 (egon_image 0x2800))),
                      (0xB000, take 0x100 (drop 0x2400 (egon_image 0x2800))),
                      (0x1100, drop 0x2500 (egon_image 0x2800))]"
  have l1: "length ?A = 27"
    by (simp add: length_fel_write_xfers egon_image_len)
  have l2: "length ?B = 36"
    by (simp add: length_fel_write_xfers egon_image_len)
  have ne: "?A \<noteq> ?B"
  proof
    assume "?A = ?B"
    then have "length ?A = length ?B" by (rule arg_cong)
    then show False unfolding l1 l2 by simp
  qed
  have t: "take 0x40 (egon_image 0x40) = egon_image 0x40"
    "take 0x2800 (egon_image 0x2800) = egon_image 0x2800"
    by (simp_all add: egon_image_len)
  show ?thesis
    using ne spl_write_image_unsorted_img spl_write_image_tight_img
    by (simp add: spl_addr_samples spl_image_writes_imgs egon_image_len egon_images_accepted t)
qed

subsection \<open>C2: the eGON header\<close>

text \<open>
  Claim C2. With the SoC record resolved and its swap list present,
  \<^verbatim>\<open>aw_fel_write_and_execute_spl\<close> goes on to the upload exactly when the buffer has
  at least 32 bytes, bytes 4..11 are "eGON.BT0", the stored length is at most the
  buffer length and a multiple of 4, and twice the stored checksum minus
  \<open>0x5F0A6C39\<close> minus the sum of the first \<open>spl_len / 4\<close> words is 0 modulo \<open>2^32\<close>.
  When one of these fails it prints a diagnostic and exits with status 1, and the
  state is the one after the SoC lookup but for the line on stderr: no transfer for
  the SPL has been made.
\<close>

theorem spl_header_validation:
  assumes "aw_fel_get_soc_info e s = (s1, Returned soc)" and "swap_buffers soc = Some swaps"
  shows "(\<not> egon_accepts buf \<longrightarrow>
            (\<exists>msg. aw_fel_write_and_execute_spl e buf s =
                     (s1\<lparr>stderr_out := stderr_out s1 @ [msg]\<rparr>, Exited 1)))
       \<and> (egon_accepts buf \<longrightarrow>
            aw_fel_write_and_execute_spl e buf s =
              spl_upload_and_run e soc swaps (buf32 buf 4) buf s1)"
proof (intro conjI impI)
  assume "\<not> egon_accepts buf"
  then show "\<exists>msg. aw_fel_write_and_execute_spl e buf s =
                     (s1\<lparr>stderr_out := stderr_out s1 @ [msg]\<rparr>, Exited 1)"
    unfolding spl_header_checks [OF assms] egon_accepts_def
    by (auto simp: not_le)
next
  assume "egon_accepts buf"
  then show "aw_fel_write_and_execute_spl e buf s =
              spl_upload_and_run e soc swaps (buf32 buf 4) buf s1"
    unfolding spl_header_checks [OF assms] egon_accepts_def
    by (auto simp: not_le)
qed

text \<open>
  With the SoC record cached: 32 zero bytes are rejected for the missing signature,
  and a 32-byte image with a valid header goes on to the upload.
\<close>

theorem spl_header_validation_witness:
  "aw_fel_get_soc_info env_quiet st_probed = (st_probed, Returned soc_sample)
   \<and> swap_buffers soc_sample = Some swaps_sample
   \<and> \<not> egon_accepts (replicate 32 0)
   \<and> aw_fel_write_and_execute_spl env_quiet (replicate 32 0) st_probed =
       (st_probed\<lparr>stderr_out := [''SPL: eGON header is not found'']\<rparr>, Exited 1)
   \<and> egon_accepts egon_sample
   \<and> aw_fel_write_and_execute_spl env_quiet egon_sample st_probed =
       spl_upload_and_run env_quiet soc_sample swaps_sample 0x20 egon_sample st_probed"
  using spl_header_validation [where e = env_quiet and s = st_probed and ?s1.0 = st_probed
      and soc = soc_sample and swaps = swaps_sample and buf = "replicate 32 0"]
    spl_header_validation [where e = env_quiet and s = st_probed and ?s1.0 = st_probed
      and soc = soc_sample and swaps = swaps_sample and buf = egon_sample]
    spl_header_checks [where e = env_quiet and s = st_probed and ?s1.0 = st_probed
      and soc = soc_sample and swaps = swaps_sample and buf = "replicate 32 0"]
    soc_probed sample_swaps egon_sample_accepts egon_zero_rejected egon_sample_len
  by (simp add: st_probed_stderr egon_zero_sig)

subsection \<open>C3: the checks of the MMU backup\<close>

text \<open>
  Claim C3. After the read of SCTLR, \<^verbatim>\<open>aw_backup_and_disable_mmu\<close> exits with status
  1 and a diagnostic unless SCTLR without its bits 13, 12, 11, 6 and 0 is
  \<open>0x00C50038\<close>. With bit 0 of SCTLR clear it returns no table, in the state right
  after the SCTLR read (no other register and no table is read). Otherwise it exits
  with status 1 and a diagnostic unless DACR is \<open>0x55555555\<close>, TTBCR is 0, the low
  14 bits of TTBR0 are zero, and every one of the 4096 entries read from TTBR0 has
  bit 1 set, bit 18 clear and its index in bits 31..20; when all this holds it
  uploads and runs the thunk that disables the MMU and returns the table. A table
  it returns always has 4096 entries of that shape.
\<close>

theorem aw_backup_and_disable_mmu_checks:
  assumes "aw_get_sctlr e soc s = (s1, Returned sctlr)"
  shows
    "(sctlr AND NOT sctlr_ignored_bits \<noteq> 0x00C50038 \<longrightarrow>
        aw_backup_and_disable_mmu e soc s =
          (s1\<lparr>stderr_out := stderr_out s1 @ [''Unexpected SCTLR (%08X)'']\<rparr>, Exited 1))
     \<and> (sctlr AND NOT sctlr_ignored_bits = 0x00C50038 \<and> \<not> bit sctlr 0 \<longrightarrow>
        aw_backup_and_disable_mmu e soc s = (s1, Returned None))
     \<and> (sctlr AND NOT sctlr_ignored_bits = 0x00C50038 \<and> bit sctlr 0
          \<and> aw_get_dacr e soc s1 = (s2, Returned dacr) \<longrightarrow>
        (dacr \<noteq> 0x55555555 \<longrightarrow>
           aw_backup_and_disable_mmu e soc s =
             (s2\<lparr>stderr_out := stderr_out s2 @ [''Unexpected DACR (%08X)'']\<rparr>, Exited 1))
        \<and> (dacr = 0x55555555 \<and> aw_get_ttbcr e soc s2 = (s3, Returned ttbcr) \<longrightarrow>
           (ttbcr \<noteq> 0 \<longrightarrow>
              aw_backup_and_disable_mmu e soc s =
                (s3\<lparr>stderr_out := stderr_out s3 @ [''Unexpected TTBCR (%08X)'']\<rparr>, Exited 1))
           \<and> (ttbcr = 0 \<and> aw_get_ttbr0 e soc s3 = (s4, Returned ttbr0) \<longrightarrow>
              (ttbr0 AND 0x3FFF \<noteq> 0 \<longrightarrow>
                 aw_backup_and_disable_mmu e soc s =
                   (s4\<lparr>stderr_out := stderr_out s4 @ [''Unexpected TTBR0 (%08X)'']\<rparr>, Exited 1))
              \<and> (ttbr0 AND 0x3FFF = 0 \<and> aw_fel_read e ttbr0 (16 * 1024) s4 = (s5, Returned raw) \<longrightarrow>
                 (if \<forall>i<4096. mmu_section_shape (map (buf32 raw) [0..<4096]) i
                  then aw_backup_and_disable_mmu e soc s =
                         thn (aw_fel_write e
                                (words_le [0xee110f10, 0xe3c00001, 0xe3c00a01,
                                           0xe3c00b02, 0xee010f10, 0xe12fff1e])
                                (scratch_addr soc) 24)
                           (thn (aw_fel_execute e (scratch_addr soc))
                              (ret (Some (map (buf32 raw) [0..<4096])))) s5
                  else (\<exists>msg. aw_backup_and_disable_mmu e soc s =
                         (s5\<lparr>stderr_out := stderr_out s5 @ [msg]\<rparr>, Exited 1)))))))
     \<and> (\<forall>s' tt. aw_backup_and_disable_mmu e soc s = (s', Returned (Some tt)) \<longrightarrow>
           length tt = 4096 \<and> (\<forall>i<4096. mmu_section_shape tt i))"
proof -
  note start = backup_sctlr [OF assms]
  have a: "aw_backup_and_disable_mmu e soc s =
          (s1\<lparr>stderr_out := stderr_out s1 @ [''Unexpected SCTLR (%08X)'']\<rparr>, Exited 1)"
    if "sctlr AND NOT sctlr_ignored_bits \<noteq> 0x00C50038"
    using that by (simp add: start)
  have b: "aw_backup_and_disable_mmu e soc s = (s1, Returned None)"
    if "sctlr AND NOT sctlr_ignored_bits = 0x00C50038 \<and> \<not> bit sctlr 0"
    using that by (simp add: start)
  have c: "aw_backup_and_disable_mmu e soc s =
             (s2\<lparr>stderr_out := stderr_out s2 @ [''Unexpected DACR (%08X)'']\<rparr>, Exited 1)"
    if "sctlr AND NOT sctlr_ignored_bits = 0x00C50038 \<and> bit sctlr 0
          \<and> aw_get_dacr e soc s1 = (s2, Returned dacr)" "dacr \<noteq> 0x55555555"
    using that
    by (simp add: start bnd_step [where m = "aw_get_dacr e soc" and s = s1 and ?s1.0 = s2 and x = dacr]
        fatal_eq)
  have d: "aw_backup_and_disable_mmu e soc s =
                (s3\<lparr>stderr_out := stderr_out s3 @ [''Unexpected TTBCR (%08X)'']\<rparr>, Exited 1)"
    if "sctlr AND NOT sctlr_ignored_bits = 0x00C50038 \<and> bit sctlr 0
          \<and> aw_get_dacr e soc s1 = (s2, Returned dacr)"
      "dacr = 0x55555555 \<and> aw_get_ttbcr e soc s2 = (s3, Returned ttbcr)" "ttbcr \<noteq> 0"
    using that
    by (simp add: start bnd_step [where m = "aw_get_dacr e soc" and s = s1 and ?s1.0 = s2]
        bnd_step [where m = "aw_get_ttbcr e soc" and s = s2 and ?s1.0 = s3 and x = ttbcr]
        fatal_eq)
  have f: "aw_backup_and_disable_mmu e soc s =
                   (s4\<lparr>stderr_out := stderr_out s4 @ [''Unexpected TTBR0 (%08X)'']\<rparr>, Exited 1)"
    if "sctlr AND NOT sctlr_ignored_bits = 0x00C50038 \<and> bit sctlr 0
          \<and> aw_get_dacr e soc s1 = (s2, Returned dacr)"
      "dacr = 0x55555555 \<and> aw_get_ttbcr e soc s2 = (s3, Returned ttbcr)"
      "ttbcr = 0 \<and> aw_get_ttbr0 e soc s3 = (s4, Returned ttbr0)" "ttbr0 AND 0x3FFF \<noteq> 0"
    using that
    by (simp add: start bnd_step [where m = "aw_get_dacr e soc" and s = s1 and ?s1.0 = s2]
        bnd_step [where m = "aw_get_ttbcr e soc" and s = s2 and ?s1.0 = s3]
        bnd_step [where m = "aw_get_ttbr0 e soc" and s = s3 and ?s1.0 = s4 and x = ttbr0]
        fatal_eq)
  have g: "if \<forall>i<4096. mmu_section_shape (map (buf32 raw) [0..<4096]) i
                  then aw_backup_and_disable_mmu e soc s =
                         thn (aw_fel_write e
                                (words_le [0xee110f10, 0xe3c00001, 0xe3c00a01,
                                           0xe3c00b02, 0xee010f10, 0xe12fff1e])
                                (scratch_addr soc) 24)
                           (thn (aw_fel_execute e (scratch_addr soc))
                              (ret (Some (map (buf32 raw) [0..<4096])))) s5
                  else (\<exists>msg. aw_backup_and_disable_mmu e soc s =
                         (s5\<lparr>stderr_out := stderr_out s5 @ [msg]\<rparr>, Exited 1))"
    if h: "sctlr AND NOT sctlr_ignored_bits = 0x00C50038 \<and> bit sctlr 0
          \<and> aw_get_dacr e soc s1 = (s2, Returned dacr)"
      "dacr = 0x55555555 \<and> aw_get_ttbcr e soc s2 = (s3, Returned ttbcr)"
      "ttbcr = 0 \<and> aw_get_ttbr0 e soc s3 = (s4, Returned ttbr0)"
      "ttbr0 AND 0x3FFF = 0 \<and> aw_fel_read e ttbr0 (16 * 1024) s4 = (s5, Returned raw)"
  proof -
    have run: "aw_backup_and_disable_mmu e soc s =
        (case mmu_tt_check (map (buf32 raw) [0..<4096]) [0..<4096] of
           Some msg \<Rightarrow> fatal msg
         | None \<Rightarrow>
             thn (aw_fel_write e
                    (words_le [0xee110f10, 0xe3c00001, 0xe3c00a01,
                               0xe3c00b02, 0xee010f10, 0xe12fff1e])
                    (scratch_addr soc) 24)
               (thn (aw_fel_execute e (scratch_addr soc))
                  (ret (Some (map (buf32 raw) [0..<4096]))))) s5"
      using h backup_after_reads [of e soc s1 s2 dacr s3 ttbcr s4 ttbr0 s5 raw]
      by (simp add: start)
    show ?thesis
    proof (cases "mmu_tt_check (map (buf32 raw) [0..<4096]) [0..<4096]")
      case None
      then show ?thesis
        using mmu_tt_check_all [of "map (buf32 raw) [0..<4096]" 4096] by (simp add: run)
    next
      case (Some msg)
      then show ?thesis
        using mmu_tt_check_all [of "map (buf32 raw) [0..<4096]" 4096] by (auto simp: run fatal_eq)
    qed
  qed
  show ?thesis
    apply (intro conjI impI allI)
    subgoal by (rule a)
    subgoal by (rule b)
    subgoal by (rule c)
    subgoal by (rule d)
    subgoal by (rule f)
    subgoal by (rule g)
    subgoal using backup_Some_shape by blast
    subgoal using backup_Some_shape by blast
    done
qed

text \<open>
  Three devices: one with the MMU on and the registers and table of the boot ROM,
  which gives the table; one with bit 0 of SCTLR clear, which gives no table; one
  whose SCTLR reads 0, which is fatal.
\<close>

theorem aw_backup_and_disable_mmu_checks_witness:
  "aw_get_sctlr (env_regs regs_mmu_on) soc_sample st_probed = (st_sctlr, Returned 0x00C50039)
   \<and> aw_get_dacr (env_regs regs_mmu_on) soc_sample st_sctlr = (st_dacr, Returned 0x55555555)
   \<and> aw_get_ttbcr (env_regs regs_mmu_on) soc_sample st_dacr = (st_ttbcr, Returned 0)
   \<and> aw_get_ttbr0 (env_regs regs_mmu_on) soc_sample st_ttbcr = (st_ttbr0, Returned 0x20000)
   \<and> aw_fel_read (env_regs regs_mmu_on) 0x20000 (16 * 1024) st_ttbr0 =
        (st_table, Returned (words_le aw_generate_mmu_translation_table))
   \<and> aw_backup_and_disable_mmu (env_regs regs_mmu_on) soc_sample st_probed =
       (emit (fel_write_xfers (words_le [0xee110f10, 0xe3c00001, 0xe3c00a01,
                                         0xe3c00b02, 0xee010f10, 0xe12fff1e]) 0x1000 24
                @ fel_execute_xfers 0x1000) st_table,
        Returned (Some aw_generate_mmu_translation_table))
   \<and> aw_backup_and_disable_mmu (env_regs regs_mmu_off) soc_sample st_probed = (st_sctlr, Returned None)
   \<and> aw_backup_and_disable_mmu (env_regs (\<lambda>n. 0)) soc_sample st_probed =
       (st_sctlr\<lparr>stderr_out := [''Unexpected SCTLR (%08X)'']\<rparr>, Exited 1)"
  using aw_backup_and_disable_mmu_checks [where e = "env_regs regs_mmu_on" and soc = soc_sample
      and s = st_probed and ?s1.0 = st_sctlr and sctlr = "0x00C50039"
      and ?s2.0 = st_dacr and dacr = "0x55555555" and ?s3.0 = st_ttbcr and ttbcr = 0
      and ?s4.0 = st_ttbr0 and ?ttbr0.0 = "0x20000" and ?s5.0 = st_table
      and raw = "words_le aw_generate_mmu_translation_table"]
    aw_backup_and_disable_mmu_checks [where e = "env_regs regs_mmu_off" and soc = soc_sample
      and s = st_probed and ?s1.0 = st_sctlr and sctlr = "0x00C50038"]
    aw_backup_and_disable_mmu_checks [where e = "env_regs (\<lambda>n. 0)" and soc = soc_sample
      and s = st_probed and ?s1.0 = st_sctlr and sctlr = 0]
    sctlr_mmu_off sctlr_zero
  by (simp add: regs_mmu_on_reads regs_mmu_on_reads(5) [simplified] ret_def
      sctlr_samples table_of_reply generated_table_shape
      st_sctlr_def [symmetric]
      thn_step [OF aw_fel_write_ok [OF transport_ok_env_regs]]
      thn_step [OF aw_fel_execute_ok [OF transport_ok_env_regs]] sample_scratch st_sctlr_stderr)

subsection \<open>C4: what the restore path changes in the table\<close>

text \<open>
  Claim C4. For a table of 4096 entries, the table that \<^verbatim>\<open>aw_restore_and_enable_mmu\<close>
  uploads (\<open>mmu_tt_restore tt\<close>, as little-endian words, to TTBR0) has 4096 entries
  and differs from \<open>tt\<close> only in the bits 14..12 (TEX), 3 (C) and 2 (B) of the
  entries \<open>0x400..0xBFF\<close> and \<open>0xFFF\<close>: every other bit of every entry, and every
  other entry, is unchanged; in the DRAM range TEX/C/B become 00100 (bit 12 alone),
  at \<open>0xFFF\<close> 00111 (bits 12, 3 and 2). An entry with the shape of the backup path
  (bit 1 set, bit 18 clear, index in bits 31..20) keeps it.
\<close>

theorem mmu_restore_changes_only_texcb:
  assumes "length tt = 4096" and "i < 4096"
  shows "length (mmu_tt_restore tt) = 4096
    \<and> (\<forall>k. k \<notin> texcb_bits \<longrightarrow> bit (mmu_tt_restore tt ! i) k = bit (tt ! i) k)
    \<and> (\<not> (0x400 \<le> i \<and> i \<le> 0xBFF) \<and> i \<noteq> 0xFFF \<longrightarrow> mmu_tt_restore tt ! i = tt ! i)
    \<and> (0x400 \<le> i \<and> i \<le> 0xBFF \<longrightarrow>
          (\<forall>k \<in> texcb_bits. bit (mmu_tt_restore tt ! i) k \<longleftrightarrow> k = 12))
    \<and> (i = 0xFFF \<longrightarrow>
          (\<forall>k \<in> texcb_bits. bit (mmu_tt_restore tt ! i) k \<longleftrightarrow> k = 12 \<or> k = 3 \<or> k = 2))
    \<and> (mmu_section_shape tt i \<longrightarrow> mmu_section_shape (mmu_tt_restore tt) i)
    \<and> aw_restore_and_enable_mmu e soc tt =
        bnd (aw_get_ttbr0 e soc)
          (\<lambda>ttbr0.
             thn (aw_fel_write e (words_le (mmu_tt_restore tt)) ttbr0 (16 * 1024))
               (thn (aw_fel_write e
                       (words_le [0xe3a00000, 0xee080f17, 0xee070f15, 0xee070fd5, 0xf57ff04f,
                                  0xf57ff06f, 0xee110f10, 0xe3800001, 0xe3800a01, 0xe3800b02,
                                  0xee010f10, 0xe12fff1e])
                       (scratch_addr soc) 48)
                  (aw_fel_execute e (scratch_addr soc))))"
proof -
  let ?new = "mmu_tt_restore tt ! i"
  have new: "?new =
      (if 0x400 \<le> i \<and> i < 0xC00 then (tt ! i AND NOT TEXCB_MASK) OR push_bit 12 1
       else if i = 0xFFF then (tt ! i AND NOT TEXCB_MASK) OR (push_bit 12 1 OR push_bit 3 1 OR push_bit 2 1)
       else tt ! i)"
    by (rule mmu_tt_restore_nth(2) [OF assms(1)])
  have bits: "bit ?new k =
      (if k \<in> texcb_bits
       then (if 0x400 \<le> i \<and> i < 0xC00 then k = 12
             else if i = 0xFFF then k = 12 \<or> k = 3 \<or> k = 2 else bit (tt ! i) k)
       else bit (tt ! i) k)" for k
    unfolding new by (auto simp add: bit_dram_entry bit_brom_entry simp del: push_bit_of_1)
  have frame: "k \<notin> texcb_bits \<Longrightarrow> bit ?new k = bit (tt ! i) k" for k
    by (simp add: bits)
  have shape: "drop_bit 20 ?new = drop_bit 20 (tt ! i)" "drop_bit 1 ?new AND 1 = drop_bit 1 (tt ! i) AND 1"
    "drop_bit 18 ?new AND 1 = drop_bit 18 (tt ! i) AND 1"
    using shape_of_bits [of ?new "tt ! i"] frame by blast+
  show ?thesis
  proof (intro conjI allI impI ballI)
    show "length (mmu_tt_restore tt) = 4096"
      by (rule mmu_tt_restore_nth(1) [OF assms(1)])
    show "bit ?new k = bit (tt ! i) k" if "k \<notin> texcb_bits" for k
      using that by (rule frame)
    show "?new = tt ! i" if "\<not> (0x400 \<le> i \<and> i \<le> 0xBFF) \<and> i \<noteq> 0xFFF"
      using that unfolding new by auto
    show "bit ?new k \<longleftrightarrow> k = 12" if "0x400 \<le> i \<and> i \<le> 0xBFF" "k \<in> texcb_bits" for k
      using that bits [of k] by simp
    show "bit ?new k \<longleftrightarrow> k = 12 \<or> k = 3 \<or> k = 2" if "i = 0xFFF" "k \<in> texcb_bits" for k
      using that bits [of k] by simp
    show "mmu_section_shape (mmu_tt_restore tt) i" if "mmu_section_shape tt i"
      using that shape by (simp add: mmu_section_shape_def)
    show "aw_restore_and_enable_mmu e soc tt =
        bnd (aw_get_ttbr0 e soc)
          (\<lambda>ttbr0.
             thn (aw_fel_write e (words_le (mmu_tt_restore tt)) ttbr0 (16 * 1024))
               (thn (aw_fel_write e
                       (words_le [0xe3a00000, 0xee080f17, 0xee070f15, 0xee070fd5, 0xf57ff04f,
                                  0xf57ff06f, 0xee110f10, 0xe3800001, 0xe3800a01, 0xe3800b02,
                                  0xee010f10, 0xe12fff1e])
                       (scratch_addr soc) 48)
                  (aw_fel_execute e (scratch_addr soc))))"
      by (rule aw_restore_and_enable_mmu_upload)
  qed
qed

text \<open>The generated table, at a DRAM entry, at the last entry, and at entry 5.\<close>

theorem mmu_restore_changes_only_texcb_witness:
  "length aw_generate_mmu_translation_table = 4096
   \<and> mmu_section_shape aw_generate_mmu_translation_table 0x400
   \<and> length (mmu_tt_restore aw_generate_mmu_translation_table) = 4096
   \<and> bit (mmu_tt_restore aw_generate_mmu_translation_table ! 0x400) 12
   \<and> \<not> bit (mmu_tt_restore aw_generate_mmu_translation_table ! 0x400) 13
   \<and> \<not> bit (mmu_tt_restore aw_generate_mmu_translation_table ! 0x400) 14
   \<and> \<not> bit (mmu_tt_restore aw_generate_mmu_translation_table ! 0x400) 3
   \<and> \<not> bit (mmu_tt_restore aw_generate_mmu_translation_table ! 0x400) 2
   \<and> bit (mmu_tt_restore aw_generate_mmu_translation_table ! 0x400) 1
   \<and> mmu_section_shape (mmu_tt_restore aw_generate_mmu_translation_table) 0x400
   \<and> bit (mmu_tt_restore aw_generate_mmu_translation_table ! 0xFFF) 12
   \<and> bit (mmu_tt_restore aw_generate_mmu_translation_table ! 0xFFF) 3
   \<and> bit (mmu_tt_restore aw_generate_mmu_translation_table ! 0xFFF) 2
   \<and> \<not> bit (mmu_tt_restore aw_generate_mmu_translation_table ! 0xFFF) 13
   \<and> mmu_tt_restore aw_generate_mmu_translation_table ! 5 = 0x00500DE2"
  using mmu_restore_changes_only_texcb [of aw_generate_mmu_translation_table "0x400" env_quiet soc_sample]
    mmu_restore_changes_only_texcb [of aw_generate_mmu_translation_table "0xFFF" env_quiet soc_sample]
    mmu_restore_changes_only_texcb [of aw_generate_mmu_translation_table 5 env_quiet soc_sample]
    generated_table_shape [of "0x400"]
  by (simp add: aw_generate_mmu_translation_table_nth(1) generated_table_samples texcb_bits_def)

subsection \<open>C5: the synthesized table\<close>

text \<open>
  Claim C5. When \<^verbatim>\<open>aw_backup_and_disable_mmu\<close> returns no table and \<^verbatim>\<open>mmu_tt_addr\<close>
  is nonzero and 16K-aligned, the loader writes \<open>0x55555555\<close> to DACR, 0 to TTBCR
  and \<^verbatim>\<open>mmu_tt_addr\<close> to TTBR0, in this order, and goes on with the generated table.
  That table has exactly 4096 entries; entry \<open>i\<close> is \<open>0x00000DE2 | (i << 20)\<close>, with
  bit 12 set as well for \<open>i = 0\<close> and \<open>i = 0xFFF\<close>, and every entry is a
  direct-mapped section.
\<close>

theorem spl_mmu_synthesis:
  assumes "aw_backup_and_disable_mmu e soc s = (s1, Returned None)"
    and "mmu_tt_addr soc \<noteq> 0" and "mmu_tt_addr soc AND 0x3FFF = 0"
  shows "spl_prepare_mmu e soc s =
      thn (aw_write_arm_cp_reg e soc 15 0 3 0 0 0x55555555)
        (thn (aw_write_arm_cp_reg e soc 15 0 2 0 2 0)
           (thn (aw_write_arm_cp_reg e soc 15 0 2 0 0 (mmu_tt_addr soc))
              (ret (Some aw_generate_mmu_translation_table)))) s1
    \<and> length aw_generate_mmu_translation_table = 4096
    \<and> (\<forall>i<4096. aw_generate_mmu_translation_table ! i =
          (if i = 0 \<or> i = 0xFFF then 0x00000DE2 OR push_bit 20 (of_nat i) OR push_bit 12 1
           else 0x00000DE2 OR push_bit 20 (of_nat i)))
    \<and> (\<forall>i<4096. mmu_section_shape aw_generate_mmu_translation_table i)"
  using assms
  by (simp add: spl_prepare_mmu_def bnd_step [where m = "aw_backup_and_disable_mmu e soc", OF assms(1)]
      aw_set_dacr_def aw_set_ttbcr_def aw_set_ttbr0_def aw_generate_mmu_translation_table_nth
      generated_table_shape)

text \<open>A device with the MMU off and the SoC record of the samples.\<close>

theorem spl_mmu_synthesis_witness:
  "aw_backup_and_disable_mmu (env_regs regs_mmu_off) soc_sample st_probed =
     (emit (cp_read_xfers soc_sample (mrc_opcode 15 0 1 0 0)) st_probed, Returned None)
   \<and> mmu_tt_addr soc_sample \<noteq> 0 \<and> mmu_tt_addr soc_sample AND 0x3FFF = 0
   \<and> spl_prepare_mmu (env_regs regs_mmu_off) soc_sample st_probed =
       (emit (cp_read_xfers soc_sample (mrc_opcode 15 0 1 0 0)
                @ cp_write_xfers soc_sample (mcr_opcode 15 0 3 0 0) 0x55555555
                @ cp_write_xfers soc_sample (mcr_opcode 15 0 2 0 2) 0
                @ cp_write_xfers soc_sample (mcr_opcode 15 0 2 0 0) 0x44000) st_probed,
        Returned (Some aw_generate_mmu_translation_table))
   \<and> aw_generate_mmu_translation_table ! 0 = 0x00001DE2
   \<and> aw_generate_mmu_translation_table ! 1 = 0x00100DE2
   \<and> aw_generate_mmu_translation_table ! 0xFFF = 0xFFF01DE2
   \<and> mmu_section_shape aw_generate_mmu_translation_table 0x400"
  using spl_mmu_synthesis [where e = "env_regs regs_mmu_off" and soc = soc_sample and s = st_probed
      and ?s1.0 = "emit (cp_read_xfers soc_sample (mrc_opcode 15 0 1 0 0)) st_probed"]
    backup_mmu_off
  by (simp add: sample_tt_addr thn_step [OF aw_write_arm_cp_reg_ok [OF transport_ok_env_regs]])

subsection \<open>C6: writes into the recorded U-Boot region\<close>

text \<open>
  Claim C6. Once a U-Boot region is recorded (\<^verbatim>\<open>uboot_size > 0\<close>), a call of
  \<^verbatim>\<open>aw_write_buffer\<close> whose range \<open>[offset, offset + len)\<close> intersects
  \<open>[uboot_entry, uboot_entry + uboot_size)\<close> is to print the error and exit with
  status 1 with no USB transfer. The code does so, the state being the old one but
  for the line on stderr, wherever neither sum of its guard wraps around: the
  recorded region ends below \<open>2^32\<close> and the request below \<open>2^64\<close>.
\<close>

theorem aw_write_buffer_rejects_overlap:
  assumes "0 < uboot_size s"
    and "unat (uboot_entry s) + unat (uboot_size s) < 2 ^ 32"
    and "unat offset + unat len < 2 ^ 64"
    and "{unat offset ..< unat offset + unat len} \<inter>
         {unat (uboot_entry s) ..< unat (uboot_entry s) + unat (uboot_size s)} \<noteq> {}"
  shows "aw_write_buffer e buf offset len s =
     (s\<lparr>stderr_out := stderr_out s @
          [''ERROR: Attempt to overwrite U-Boot! Request 0x%08X-0x%08X overlaps 0x%08X-0x%08X.'']\<rparr>,
      Exited 1)"
proof -
  from assms(4) have "unat offset < unat (uboot_entry s) + unat (uboot_size s)"
    "unat (uboot_entry s) < unat offset + unat len"
    by auto
  moreover have "0 < unat (uboot_size s)"
    using assms(1) by (simp add: word_less_nat_alt)
  ultimately have "overwrites_uboot s offset len"
    by (simp add: overwrites_uboot_nat [OF assms(2,3)])
  then show ?thesis by (rule aw_write_buffer_guarded)
qed

text \<open>
  The spec's scenario: U-Boot at \<open>0x4A000000\<close>, \<open>0x80000\<close> bytes, then a write at
  \<open>0x4A040000\<close>.
\<close>

theorem aw_write_buffer_rejects_overlap_witness:
  "aw_write_buffer env_quiet (replicate 4096 0) 0x4A040000 0x1000 st_uboot =
     (st_uboot\<lparr>stderr_out :=
          [''ERROR: Attempt to overwrite U-Boot! Request 0x%08X-0x%08X overlaps 0x%08X-0x%08X.'']\<rparr>,
      Exited 1)"
  using aw_write_buffer_rejects_overlap [of st_uboot "0x4A040000" "0x1000" env_quiet "replicate 4096 0"]
  by (simp add: st_uboot_def st_init_def)

text \<open>
  Where the sum wraps the code does not protect the region: for a region that ends at
  the top of the address space the 32-bit sum \<^verbatim>\<open>uboot_entry + uboot_size\<close> is 0, the
  guard is false for a write into the middle of the region, and the write is sent.
  The check, which the source calls a safeguard against overwriting an already
  loaded U-Boot binary, misses this input by the overflow of its own addition.
\<close>

theorem aw_write_buffer_overlap_counterexample:
  "0 < uboot_size st_top
   \<and> unat (0xFFF80000 :: u32) \<in>
       {unat (0xFFF80000 :: u32) ..< unat (0xFFF80000 :: u32) + unat (0x1000 :: size_t)} \<inter>
       {unat (uboot_entry st_top) ..< unat (uboot_entry st_top) + unat (uboot_size st_top)}
   \<and> aw_write_buffer env_quiet (replicate 4096 0) 0xFFF80000 0x1000 st_top =
       (emit (fel_write_xfers (replicate 4096 0) 0xFFF80000 4096) st_top, Returned ())"
proof -
  have "\<not> overwrites_uboot st_top 0xFFF80000 0x1000"
    by (simp add: overwrites_uboot_def st_top_def st_init_def)
  then show ?thesis
    by (simp add: aw_write_buffer_ok [OF transport_ok_env_quiet] fel_write_xfers_def)
       (simp add: st_top_def st_init_def)
qed

subsection \<open>C10: requests that abut the region\<close>

text \<open>
  Claim C10, as amended. The guard is closed at both ends: with \<^verbatim>\<open>uboot_size > 0\<close>, a
  request that ends exactly where the region starts, or starts exactly where it ends,
  does not intersect the region and is rejected all the same (error message, exit
  status 1, no transfer). This holds when the recorded region ends below \<open>2^32\<close> and
  the request below \<open>2^64\<close>, so that neither sum of the guard wraps around.
\<close>

theorem aw_write_buffer_rejects_abutting:
  assumes "0 < uboot_size s"
    and "unat (uboot_entry s) + unat (uboot_size s) < 2 ^ 32"
    and "unat offset + unat len < 2 ^ 64"
    and "unat offset + unat len = unat (uboot_entry s)
         \<or> unat offset = unat (uboot_entry s) + unat (uboot_size s)"
  shows "{unat offset ..< unat offset + unat len} \<inter>
         {unat (uboot_entry s) ..< unat (uboot_entry s) + unat (uboot_size s)} = {}
     \<and> aw_write_buffer e buf offset len s =
         (s\<lparr>stderr_out := stderr_out s @
            [''ERROR: Attempt to overwrite U-Boot! Request 0x%08X-0x%08X overlaps 0x%08X-0x%08X.'']\<rparr>,
          Exited 1)"
proof -
  have "0 < unat (uboot_size s)"
    using assms(1) by (simp add: word_less_nat_alt)
  with assms(4) have "overwrites_uboot s offset len"
    by (auto simp: overwrites_uboot_nat [OF assms(2,3)])
  then have "aw_write_buffer e buf offset len s =
         (s\<lparr>stderr_out := stderr_out s @
            [''ERROR: Attempt to overwrite U-Boot! Request 0x%08X-0x%08X overlaps 0x%08X-0x%08X.'']\<rparr>,
          Exited 1)"
    by (rule aw_write_buffer_guarded)
  moreover from assms(4) have "{unat offset ..< unat offset + unat len} \<inter>
         {unat (uboot_entry s) ..< unat (uboot_entry s) + unat (uboot_size s)} = {}"
    by auto
  ultimately show ?thesis by simp
qed

text \<open>A write that starts at the end of the region of the spec's scenario.\<close>

theorem aw_write_buffer_rejects_abutting_witness:
  "{unat (0x4A080000 :: u32) ..< unat (0x4A080000 :: u32) + unat (0x1000 :: size_t)} \<inter>
         {unat (uboot_entry st_uboot) ..< unat (uboot_entry st_uboot) + unat (uboot_size st_uboot)} = {}
   \<and> aw_write_buffer env_quiet (replicate 4096 0) 0x4A080000 0x1000 st_uboot =
     (st_uboot\<lparr>stderr_out :=
          [''ERROR: Attempt to overwrite U-Boot! Request 0x%08X-0x%08X overlaps 0x%08X-0x%08X.'']\<rparr>,
      Exited 1)"
  using aw_write_buffer_rejects_abutting [of st_uboot "0x4A080000" "0x1000" env_quiet "replicate 4096 0"]
  by (simp add: st_uboot_def st_init_def)

text \<open>
  As stated the claim fails where the 32-bit sum wraps: the request below ends exactly
  at \<^verbatim>\<open>uboot_entry\<close>, the region ends at the top of the address space, and the write
  is sent.
\<close>

theorem aw_write_buffer_abutting_counterexample:
  "0 < uboot_size st_top
   \<and> unat (0xFFE00000 :: u32) + unat (0x100000 :: size_t) = unat (uboot_entry st_top)
   \<and> aw_write_buffer env_quiet (replicate 0x100000 0) 0xFFE00000 0x100000 st_top =
       (emit (fel_write_xfers (replicate 0x100000 0) 0xFFE00000 0x100000) st_top, Returned ())"
proof -
  have "\<not> overwrites_uboot st_top 0xFFE00000 0x100000"
    by (simp add: overwrites_uboot_def st_top_def st_init_def)
  then show ?thesis
    by (simp add: aw_write_buffer_ok [OF transport_ok_env_quiet] fel_write_xfers_def)
       (simp add: st_top_def st_init_def)
qed


subsection \<open>C7: the scratch buffer of readl and writel\<close>

text \<open>
  Claim C7. \<^verbatim>\<open>aw_fel_readl_n\<close> and \<^verbatim>\<open>aw_fel_writel_n\<close> with a count of 0 return
  at once and leave the state as it is (no transfer). With a positive count they
  behave as with \<open>min count 244\<close>, after a warning on stderr when the count was
  larger, and do not exit on their own: \<^verbatim>\<open>aw_fel_writel_n\<close> uploads to
  \<^verbatim>\<open>scratch_addr\<close> exactly the 12 code words followed by the first \<open>min count 244\<close>
  source words, at most 256 words, and executes; \<^verbatim>\<open>aw_fel_readl_n\<close> uploads the 12
  code words (48 bytes), executes, and reads \<open>min count 244\<close> words back from
  \<^verbatim>\<open>scratch_addr + 48\<close>, so that code and data stay within 1024 bytes.
\<close>

theorem aw_fel_readl_writel_n_scratch_bound:
  "aw_fel_readl_n e addr 0 s = (s, Returned [])
   \<and> aw_fel_writel_n e addr src 0 s = (s, Returned ())
   \<and> (0 < count \<longrightarrow>
        aw_fel_writel_n e addr src count s =
          bnd (aw_fel_get_soc_info e)
            (\<lambda>soc. thn (aw_fel_write e (writel_payload addr src (min count 244)) (scratch_addr soc)
                           (4 * (12 + min count 244)))
                      (aw_fel_execute e (scratch_addr soc)))
            (if count > 244
             then s\<lparr>stderr_out := stderr_out s
                      @ [''ERROR: Max. word count exceeded, truncating aw_fel_writel_n() transfer'']\<rparr>
             else s)
        \<and> length (writel_payload addr src (min count 244)) = 4 * (12 + min count 244)
        \<and> 12 + min count 244 \<le> 256
        \<and> aw_fel_readl_n e addr count s =
          bnd (aw_fel_get_soc_info e)
            (\<lambda>soc. thn (aw_fel_write e (words_le (readl_arm_code addr (min count 244)))
                           (scratch_addr soc) 48)
                      (thn (aw_fel_execute e (scratch_addr soc))
                         (bnd (aw_fel_read e (scratch_addr soc + 48) (4 * min count 244))
                            (\<lambda>buffer. ret (map (buf32 buffer) [0..<min count 244])))))
            (if count > 244
             then s\<lparr>stderr_out := stderr_out s
                      @ [''ERROR: Max. word count exceeded, truncating aw_fel_readl_n() transfer'']\<rparr>
             else s)
        \<and> length (words_le (readl_arm_code addr (min count 244))) = 48
        \<and> 48 + 4 * min count 244 \<le> 1024)"
proof (intro conjI impI)
  show "aw_fel_readl_n e addr 0 s = (s, Returned [])"
    by (simp add: aw_fel_readl_n_def ret_def)
  show "aw_fel_writel_n e addr src 0 s = (s, Returned ())"
    by (simp add: aw_fel_writel_n_def ret_def)
  show "length (writel_payload addr src (min count 244)) = 4 * (12 + min count 244)"
    by (simp add: writel_payload_def)
  show "12 + min count 244 \<le> 256" by simp
  show "length (words_le (readl_arm_code addr (min count 244))) = 48" by simp
  show "48 + 4 * min count 244 \<le> 1024" by simp
next
  assume "0 < count"
  then show "aw_fel_writel_n e addr src count s =
          bnd (aw_fel_get_soc_info e)
            (\<lambda>soc. thn (aw_fel_write e (writel_payload addr src (min count 244)) (scratch_addr soc)
                           (4 * (12 + min count 244)))
                      (aw_fel_execute e (scratch_addr soc)))
            (if count > 244
             then s\<lparr>stderr_out := stderr_out s
                      @ [''ERROR: Max. word count exceeded, truncating aw_fel_writel_n() transfer'']\<rparr>
             else s)"
    by (rule aw_fel_writel_n_pos)
next
  assume "0 < count"
  then show "aw_fel_readl_n e addr count s =
          bnd (aw_fel_get_soc_info e)
            (\<lambda>soc. thn (aw_fel_write e (words_le (readl_arm_code addr (min count 244)))
                           (scratch_addr soc) 48)
                      (thn (aw_fel_execute e (scratch_addr soc))
                         (bnd (aw_fel_read e (scratch_addr soc + 48) (4 * min count 244))
                            (\<lambda>buffer. ret (map (buf32 buffer) [0..<min count 244])))))
            (if count > 244
             then s\<lparr>stderr_out := stderr_out s
                      @ [''ERROR: Max. word count exceeded, truncating aw_fel_readl_n() transfer'']\<rparr>
             else s)"
    by (rule aw_fel_readl_n_pos)
qed

text \<open>A write of 300 words on a working transport: the warning, and 1024 bytes uploaded.\<close>

theorem aw_fel_readl_writel_n_scratch_bound_witness:
  "aw_fel_writel_n env_quiet 0x40000000 (\<lambda>i. of_nat i) 300 st_probed =
     (emit (fel_write_xfers (writel_payload 0x40000000 (\<lambda>i. of_nat i) 244) 0x1000 1024
              @ fel_execute_xfers 0x1000)
        (st_probed\<lparr>stderr_out :=
           [''ERROR: Max. word count exceeded, truncating aw_fel_writel_n() transfer'']\<rparr>),
      Returned ())
   \<and> length (writel_payload 0x40000000 (\<lambda>i. of_nat i) 244) = 1024"
  using aw_fel_readl_writel_n_scratch_bound [of env_quiet "0x40000000" st_probed "\<lambda>i. of_nat i" 300]
  by (simp add: aw_fel_get_soc_info_cached [of _ soc_sample] st_probed_def st_init_def
      bnd_step [OF aw_fel_get_soc_info_cached [of _ soc_sample]]
      thn_step [OF aw_fel_write_ok [OF transport_ok_env_quiet]]
      aw_fel_execute_ok [OF transport_ok_env_quiet] soc_sample_def)


subsection \<open>C8: the wrappers for large transfers\<close>

text \<open>
  Claim C8. \<^verbatim>\<open>fel_writel_n\<close> and \<^verbatim>\<open>fel_readl_n\<close> run \<^verbatim>\<open>aw_fel_writel_n\<close> and
  \<^verbatim>\<open>aw_fel_readl_n\<close> over the rounds of \<open>fel_rounds\<close>, in order. Every round has
  between 1 and 244 words; the word addresses and buffer indices of the rounds, one
  after the other, are exactly \<open>addr + 4 * i\<close> and \<open>i\<close> for \<open>i < count\<close>, in order
  (addresses modulo \<open>2^32\<close>); and a count of 0 has no round. On a transport that
  works the trace gets, round by round, the upload of the thunk that carries the
  address and the number of words of the round (for a write with the words of the
  round behind it), its execution, and for a read the read of that many words; a
  count of 0 transfers nothing. The words written, round after round, are
  \<open>src 0, \<dots>, src (count - 1)\<close>, and a read returns \<open>count\<close> words: those the
  device answers to the rounds, in order.
\<close>

theorem fel_readl_writel_n_rounds:
  "fel_writel_n e addr src count = writel_rounds e src (fel_rounds addr 0 count)
   \<and> fel_readl_n e addr count = readl_rounds e (fel_rounds addr 0 count)
   \<and> (\<forall>r \<in> set (fel_rounds addr 0 count). 0 < snd (snd r) \<and> snd (snd r) \<le> 244)
   \<and> concat (map (\<lambda>r. map (\<lambda>j. (fst r + 4 * of_nat j, fst (snd r) + j)) [0..<snd (snd r)])
                (fel_rounds addr 0 count)) =
       map (\<lambda>i. (addr + 4 * of_nat i, i)) [0..<count]
   \<and> fel_rounds addr 0 0 = []
   \<and> (transport_ok e \<longrightarrow>
        fel_writel_n e addr src count s =
          (if count = 0 then s
           else emit (concat (map (writel_round_xfers (soc_rec e s) src) (fel_rounds addr 0 count)))
                  (soc_state e s),
           Returned ())
        \<and> fel_readl_n e addr count s =
          (if count = 0 then s
           else emit (concat (map (readl_round_xfers (soc_rec e s)) (fel_rounds addr 0 count)))
                  (soc_state e s),
           Returned (readl_rounds_words e (soc_rec e s) (usb_trace (soc_state e s))
                       (fel_rounds addr 0 count))))
   \<and> length (readl_rounds_words e soc h (fel_rounds addr 0 count)) = count
   \<and> concat (map (\<lambda>r. map (\<lambda>i. src (fst (snd r) + i)) [0..<snd (snd r)])
                (fel_rounds addr 0 count)) = map src [0..<count]"
proof -
  have w: "fel_writel_n e addr src count = writel_rounds e src (fel_rounds addr 0 count)"
    using fel_writel_n_rounds [of e addr src 0 count] by simp
  have r: "fel_readl_n e addr count = readl_rounds e (fel_rounds addr 0 count)"
    by (rule fel_readl_n_rounds)
  have b: "\<forall>r \<in> set (fel_rounds addr 0 count). 0 < snd (snd r) \<and> snd (snd r) \<le> 244"
    using fel_rounds_bound [of _ addr 0 count] by blast
  have c: "concat (map (\<lambda>r. map (\<lambda>j. (fst r + 4 * of_nat j, fst (snd r) + j)) [0..<snd (snd r)])
                (fel_rounds addr 0 count)) =
       map (\<lambda>i. (addr + 4 * of_nat i, i)) [0..<count]"
    using fel_rounds_cover [of addr 0 count] by simp
  have z: "fel_rounds addr 0 0 = []" by simp
  have tw: "fel_writel_n e addr src count s =
          (if count = 0 then s
           else emit (concat (map (writel_round_xfers (soc_rec e s) src) (fel_rounds addr 0 count)))
                  (soc_state e s),
           Returned ())" if "transport_ok e"
    unfolding w writel_rounds_ok [OF that b] fel_rounds_Nil ..
  have tr: "fel_readl_n e addr count s =
          (if count = 0 then s
           else emit (concat (map (readl_round_xfers (soc_rec e s)) (fel_rounds addr 0 count)))
                  (soc_state e s),
           Returned (readl_rounds_words e (soc_rec e s) (usb_trace (soc_state e s))
                       (fel_rounds addr 0 count)))" if "transport_ok e"
    unfolding r readl_rounds_ok [OF that b] fel_rounds_Nil ..
  have l: "length (readl_rounds_words e soc h (fel_rounds addr 0 count)) = count"
    by (simp only: length_readl_rounds_words fel_rounds_total)
  have d: "concat (map (\<lambda>r. map (\<lambda>i. src (fst (snd r) + i)) [0..<snd (snd r)])
                (fel_rounds addr 0 count)) = map src [0..<count]"
    by (rule fel_rounds_words)
  from w r b c z tw tr l d show ?thesis by blast
qed


text \<open>
  245 words are two rounds, of 244 words and of 1 word, each with its transfers; no
  word is no transfer.
\<close>

theorem fel_readl_writel_n_rounds_witness:
  "transport_ok env_quiet
   \<and> fel_writel_n env_quiet 0x40000000 (\<lambda>i. of_nat i) 245 st_probed =
       (emit (writel_round_xfers soc_sample (\<lambda>i. of_nat i) (0x40000000, 0, 244)
                @ writel_round_xfers soc_sample (\<lambda>i. of_nat i) (0x400003D0, 244, 1)) st_probed,
        Returned ())
   \<and> fel_readl_n env_quiet 0x40000000 245 st_probed =
       (emit (readl_round_xfers soc_sample (0x40000000, 0, 244)
                @ readl_round_xfers soc_sample (0x400003D0, 244, 1)) st_probed,
        Returned (readl_rounds_words env_quiet soc_sample []
                    [(0x40000000, 0, 244), (0x400003D0, 244, 1)]))
   \<and> length (readl_rounds_words env_quiet soc_sample []
                [(0x40000000, 0, 244), (0x400003D0, 244, 1)]) = 245
   \<and> fel_writel_n env_quiet 0x40000000 (\<lambda>i. of_nat i) 0 st_init = (st_init, Returned ())
   \<and> fel_readl_n env_quiet 0x40000000 0 st_init = (st_init, Returned [])"
  using fel_readl_writel_n_rounds [where e = env_quiet and addr = "0x40000000"
      and src = "\<lambda>i. of_nat i" and count = 245 and s = st_probed and soc = soc_sample and h = "[]",
      THEN conjunct2, THEN conjunct2]
    fel_readl_writel_n_rounds [where e = env_quiet and addr = "0x40000000"
      and src = "\<lambda>i. of_nat i" and count = 0 and s = st_init,
      THEN conjunct2, THEN conjunct2]
  by (simp add: transport_ok_env_quiet st_probed_soc fel_rounds_245)

subsection \<open>C9: the AW-USB transactions of a FEL operation\<close>

text \<open>
  Claim C9, as amended. A FEL operation that returns has added to the trace exactly
  these AW-USB transactions (each a framing request, its payload and the 13-byte
  status), in this order and with nothing in between: one AW-USB WRITE carrying the
  16-byte FEL request; then the payload transaction, if the operation has one (an
  AW-USB READ for version and read, an AW-USB WRITE for write, none for execute);
  then one AW-USB READ of the 8-byte FEL status. That is three transactions for
  version, read and write, and two for execute. Lengths are below \<open>2^32\<close>, the width of
  the length fields, and a written buffer holds the bytes to write.
\<close>

theorem fel_operation_transactions:
  "(aw_fel_get_version e s = (s', Returned v) \<longrightarrow>
      (\<exists>new. usb_trace s' = usb_trace s @ new \<and>
         aw_transactions new =
           Some [Aw_write (aw_fel_request AW_FEL_VERSION 0 0), Aw_read 32, Aw_read 8]))
   \<and> (aw_fel_read e offset len s = (s', Returned v) \<and> len < 2 ^ 32 \<longrightarrow>
      (\<exists>new. usb_trace s' = usb_trace s @ new \<and>
         aw_transactions new =
           Some [Aw_write (aw_fel_request AW_FEL_1_READ offset (of_nat len)), Aw_read len, Aw_read 8]))
   \<and> (aw_fel_write e buf offset len s = (s', Returned u) \<and> len < 2 ^ 32 \<and> len \<le> length buf \<longrightarrow>
      (\<exists>new. usb_trace s' = usb_trace s @ new \<and>
         aw_transactions new =
           Some [Aw_write (aw_fel_request AW_FEL_1_WRITE offset (of_nat len)),
                 Aw_write (take len buf), Aw_read 8]))
   \<and> (aw_fel_execute e offset s = (s', Returned u) \<longrightarrow>
      (\<exists>new. usb_trace s' = usb_trace s @ new \<and>
         aw_transactions new =
           Some [Aw_write (aw_fel_request AW_FEL_1_EXEC offset 0), Aw_read 8]))"
proof (intro conjI impI)
  assume "aw_fel_get_version e s = (s', Returned v)"
  then have "usb_trace s' = usb_trace s @ fel_version_xfers"
    by (auto dest: aw_fel_get_version_ret)
  moreover have "aw_transactions fel_version_xfers =
      Some [Aw_write (aw_fel_request AW_FEL_VERSION 0 0), Aw_read 32, Aw_read 8]"
    unfolding fel_version_xfers_txns by (rule aw_transactions_txns) simp
  ultimately show "\<exists>new. usb_trace s' = usb_trace s @ new \<and>
         aw_transactions new =
           Some [Aw_write (aw_fel_request AW_FEL_VERSION 0 0), Aw_read 32, Aw_read 8]"
    by blast
next
  assume a: "aw_fel_read e offset len s = (s', Returned v) \<and> len < 2 ^ 32"
  then have "usb_trace s' = usb_trace s @ fel_read_xfers offset len"
    by (auto dest: aw_fel_read_ret)
  moreover have "aw_transactions (fel_read_xfers offset len) =
      Some [Aw_write (aw_fel_request AW_FEL_1_READ offset (of_nat len)), Aw_read len, Aw_read 8]"
    unfolding fel_read_xfers_txns using a by (intro aw_transactions_txns) simp
  ultimately show "\<exists>new. usb_trace s' = usb_trace s @ new \<and>
         aw_transactions new =
           Some [Aw_write (aw_fel_request AW_FEL_1_READ offset (of_nat len)), Aw_read len, Aw_read 8]"
    by blast
next
  assume a: "aw_fel_write e buf offset len s = (s', Returned u) \<and> len < 2 ^ 32 \<and> len \<le> length buf"
  then have "usb_trace s' = usb_trace s @ fel_write_xfers buf offset len"
    by (auto dest: aw_fel_write_ret)
  moreover have "aw_transactions (fel_write_xfers buf offset len) =
      Some [Aw_write (aw_fel_request AW_FEL_1_WRITE offset (of_nat len)),
                 Aw_write (take len buf), Aw_read 8]"
    using a by (simp only: fel_write_xfers_txns) (rule aw_transactions_txns, simp)
  ultimately show "\<exists>new. usb_trace s' = usb_trace s @ new \<and>
         aw_transactions new =
           Some [Aw_write (aw_fel_request AW_FEL_1_WRITE offset (of_nat len)),
                 Aw_write (take len buf), Aw_read 8]"
    by blast
next
  assume "aw_fel_execute e offset s = (s', Returned u)"
  then have "usb_trace s' = usb_trace s @ fel_execute_xfers offset"
    by (auto dest: aw_fel_execute_ret)
  moreover have "aw_transactions (fel_execute_xfers offset) =
      Some [Aw_write (aw_fel_request AW_FEL_1_EXEC offset 0), Aw_read 8]"
    unfolding fel_execute_xfers_txns by (rule aw_transactions_txns) simp
  ultimately show "\<exists>new. usb_trace s' = usb_trace s @ new \<and>
         aw_transactions new =
           Some [Aw_write (aw_fel_request AW_FEL_1_EXEC offset 0), Aw_read 8]"
    by blast
qed

text \<open>A write of four bytes on a working transport.\<close>

theorem fel_operation_transactions_witness:
  "\<exists>new. usb_trace (fst (aw_fel_write env_quiet [1, 2, 3, 4] 0x2000 4 st_init)) = usb_trace st_init @ new
     \<and> aw_transactions new =
         Some [Aw_write (aw_fel_request AW_FEL_1_WRITE 0x2000 4), Aw_write [1, 2, 3, 4], Aw_read 8]"
  using fel_operation_transactions [where e = env_quiet and s = st_init
      and s' = "emit (fel_write_xfers [1, 2, 3, 4] 0x2000 4) st_init"
      and buf = "[1, 2, 3, 4]" and offset = "0x2000" and len = 4 and u = "()"]
  by (simp add: aw_fel_write_ok [OF transport_ok_env_quiet])

text \<open>
  As stated the claim fails: a read is three AW-USB transactions, not two (the request,
  the payload, and the status, the last two both AW-USB READ), and so are a write and
  a version query.
\<close>

theorem fel_read_transactions_counterexample:
  "map_option length (aw_transactions (usb_trace (fst (aw_fel_read env_quiet 0x2000 4 st_init)))) = Some 3
   \<and> map_option length (aw_transactions (usb_trace (fst (aw_fel_read env_quiet 0x2000 4 st_init)))) \<noteq> Some 2
   \<and> map_option length (aw_transactions (usb_trace (fst (aw_fel_write env_quiet [1, 2, 3, 4] 0x2000 4 st_init)))) = Some 3
   \<and> map_option length (aw_transactions (usb_trace (fst (aw_fel_get_version env_quiet st_init)))) = Some 3"
proof -
  have r: "aw_transactions (fel_read_xfers 0x2000 4) =
      Some [Aw_write (aw_fel_request AW_FEL_1_READ 0x2000 (of_nat 4)), Aw_read 4, Aw_read 8]"
    unfolding fel_read_xfers_txns by (rule aw_transactions_txns) simp
  have w: "aw_transactions (fel_write_xfers [1, 2, 3, 4] 0x2000 4) =
      Some [Aw_write (aw_fel_request AW_FEL_1_WRITE 0x2000 (of_nat 4)), Aw_write (take 4 [1, 2, 3, 4]), Aw_read 8]"
  proof -
    have "4 \<le> length [1, 2, 3, 4 :: u8]" by simp
    from fel_write_xfers_txns [OF this] show ?thesis
      by (simp only:) (rule aw_transactions_txns, simp)
  qed
  have v: "aw_transactions fel_version_xfers =
      Some [Aw_write (aw_fel_request AW_FEL_VERSION 0 0), Aw_read 32, Aw_read 8]"
    unfolding fel_version_xfers_txns by (rule aw_transactions_txns) simp
  show ?thesis
    using r w v
    by (simp add: aw_fel_read_ok [OF transport_ok_env_quiet] aw_fel_write_ok [OF transport_ok_env_quiet]
        aw_fel_get_version_ok [OF transport_ok_env_quiet] st_init_def)
qed


end
